theory Spec2Isabelle
  imports Main "HOL-Library.Word" "HOL-Library.Signed_Division" "HOL-Library.Stream"
begin

unbundle bit_operations_syntax

section \<open>Data model of the COG-gen-2 e-paper driver (epd\_v2.c)\<close>

type_synonym u8 = "8 word"
type_synonym u16 = "16 word"

text \<open>The stage enum of epd\_v2.c.\<close>

datatype EPD_stage = EPD_inverse | EPD_normal

text \<open>
  Modelled from the spec: the enums \<open>EPD_size\<close> and \<open>EPD_error\<close> are declared in
  epd\_v2.h, which is not among the sources. Their enumerators are the ones the code
  names: the sizes in the panel registry (1.44, 1.9, 2.0, 2.6 and 2.7 inch) and the
  four status values that \<open>EPD_begin\<close> and \<open>EPD_end\<close> store.
\<close>

datatype EPD_size = EPD_1_44 | EPD_1_9 | EPD_2_0 | EPD_2_6 | EPD_2_7

datatype EPD_error = EPD_OK | EPD_UNSUPPORTED_COG | EPD_PANEL_BROKEN | EPD_DC_FAILED

record compensation_type =
  stage1_repeat :: u16
  stage1_step :: u16
  stage1_block :: u16
  stage2_repeat :: u16
  stage2_t1 :: u16
  stage2_t2 :: u16
  stage3_repeat :: u16
  stage3_step :: u16
  stage3_block :: u16

text \<open>
  \<open>struct EPD_struct\<close>. The C \<open>int\<close> fields are HOL integers: the geometry values are
  at most 264 and no arithmetic on them comes near the 32-bit range. \<open>channel_select\<close>
  points to an immutable static array and is modelled by the array. \<open>compensation\<close>
  points into one of the three static tables of \<open>EPD_set_temperature\<close>: the pointer
  is the table and the index of the row. \<open>line_buffer\<close> is the address of a block of
  the heap (0 is NULL), \<open>timer\<close> a kernel timer id, \<open>spi\<close> the opaque transport
  handle. The field \<open>size\<close> of the source is \<open>size_tag\<close> here.
\<close>

datatype compensation_table = Compensation_144 | Compensation_200 | Compensation_270

record EPD_struct =
  EPD_Pin_PANEL_ON :: int
  EPD_Pin_BORDER :: int
  EPD_Pin_DISCHARGE :: int
  EPD_Pin_RESET :: int
  EPD_Pin_BUSY :: int
  size_tag :: EPD_size
  lines_per_display :: int
  dots_per_line :: int
  bytes_per_line :: int
  bytes_per_scan :: int
  status :: EPD_error
  channel_select :: "u8 list"
  channel_select_length :: nat
  compensation :: "compensation_table \<times> nat"
  temperature_offset :: u16
  line_buffer :: nat
  line_buffer_size :: nat
  timer :: nat
  spi :: nat

text \<open>
  Everything the driver does to its surroundings is an event; a run appends its events
  to the trace, oldest first. \<open>Delay_ms\<close> and \<open>Delay_us\<close> are both \<open>usleep\<close>.
  \<open>Ev_one_line\<close> and \<open>Ev_power_off\<close> mark the entry into the two static
  functions, with the arguments of the call. \<open>Ev_status\<close> marks an assignment to
  \<open>epd->status\<close>, with the value stored.
\<close>

datatype event =
    Ev_gpio_write int int
  | Ev_gpio_read int
  | Ev_spi_on nat
  | Ev_spi_off nat
  | Ev_spi_send nat "u8 list"
  | Ev_spi_read nat "u8 list" nat
  | Ev_usleep int
  | Ev_timer_settime nat int int
  | Ev_timer_gettime nat
  | Ev_warn string
  | Ev_one_line u16 nat u8 EPD_stage u8
  | Ev_power_off
  | Ev_status EPD_error

text \<open>
  What can stop a run: a write through \<open>p\<close> outside the block it points into, a
  pointer that is not a live block, and \<open>err(1, ...)\<close>, which ends the process.
\<close>

datatype error = Buffer_overrun | Bad_pointer | Exit_failure string

text \<open>
  The world around the driver. \<open>mem\<close> is the caller's memory (the image); \<open>heap\<close> holds
  the byte blocks the driver has from \<open>malloc\<close>, by address, and \<open>handles\<close> the
  \<open>EPD_struct\<close> objects; \<open>timers\<close> are the live kernel timers. The struct is opaque
  to callers, so no caller pointer reaches into \<open>heap\<close>. The remaining fields are what
  the surroundings will answer, each a stream consumed from its head: the level read from
  a pin, the bytes shifted in by an \<open>SPI_read\<close> (by index), the return codes of
  \<open>timer_settime\<close>, the return code and remaining (seconds, nanoseconds) of
  \<open>timer_gettime\<close>, the return code and id of \<open>timer_create\<close>, the address and
  indeterminate contents \<open>malloc\<close> returns, and the indeterminate contents of a newly
  allocated struct.
\<close>

record world =
  trace :: "event list"
  mem :: "nat \<Rightarrow> u8"
  heap :: "nat \<rightharpoonup> u8 list"
  handles :: "nat \<rightharpoonup> EPD_struct"
  timers :: "nat set"
  gpio_in :: "int stream"
  spi_in :: "(nat \<Rightarrow> u8) stream"
  settime_in :: "int stream"
  gettime_in :: "(int \<times> int \<times> int) stream"
  timer_create_in :: "(int \<times> nat) stream"
  malloc_in :: "(nat \<times> (nat \<Rightarrow> u8)) stream"
  fresh_struct :: EPD_struct

definition emit :: "event list \<Rightarrow> world \<Rightarrow> world" where
  "emit es w = w\<lparr>trace := trace w @ es\<rparr>"

section \<open>The line encoder: \<open>one_line\<close>\<close>

text \<open>\<open>*p++ = v\<close> on the line buffer: the block and the offset of \<open>p\<close> in it.\<close>

definition put :: "u8 \<Rightarrow> u8 list \<times> nat \<Rightarrow> error + u8 list \<times> nat" where
  "put v st = (case st of (buf, p) \<Rightarrow>
     if p < length buf then Inr (buf[p := v], Suc p) else Inl Buffer_overrun)"

text \<open>The recoding of one source byte in the odd-pixel loop and in the even-pixel loop.\<close>

definition odd_byte :: "EPD_stage \<Rightarrow> u8 \<Rightarrow> u8" where
  "odd_byte stage d =
     (let pixels = d AND 0x55 in
      case stage of
        EPD_inverse \<Rightarrow> 0xaa OR (pixels XOR 0x55)
      | EPD_normal \<Rightarrow> 0xaa OR pixels)"

definition even_byte :: "EPD_stage \<Rightarrow> u8 \<Rightarrow> u8" where
  "even_byte stage d =
     (let pixels = d AND 0xaa;
          pixels = (case stage of
                      EPD_inverse \<Rightarrow> 0xaa OR drop_bit 1 (pixels XOR 0xaa)
                    | EPD_normal \<Rightarrow> 0xaa OR drop_bit 1 pixels);
          p1 = drop_bit 6 pixels AND 0x03;
          p2 = drop_bit 4 pixels AND 0x03;
          p3 = drop_bit 2 pixels AND 0x03;
          p4 = drop_bit 0 pixels AND 0x03
      in push_bit 0 p1 OR push_bit 2 p2 OR push_bit 4 p3 OR push_bit 6 p4)"

text \<open>\<open>for (uint16_t b = epd->bytes_per_line; b > 0; --b)\<close>\<close>

function odd_pixels ::
  "(nat \<Rightarrow> u8) \<Rightarrow> nat \<Rightarrow> u8 \<Rightarrow> EPD_stage \<Rightarrow> u16 \<Rightarrow> u8 list \<times> nat \<Rightarrow> error + u8 list \<times> nat"
where
  "odd_pixels m data fixed_value stage b st =
     (if 0 < b then
        (case put (if data \<noteq> 0 then odd_byte stage (m (data + (unat b - 1))) else fixed_value) st of
           Inl e \<Rightarrow> Inl e
         | Inr st' \<Rightarrow> odd_pixels m data fixed_value stage (b - 1) st')
      else Inr st)"
  by pat_completeness auto
termination
  by (relation "measure (\<lambda>(m, data, fixed_value, stage, b, st). unat b)")
     (auto simp: unat_minus_one word_greater_zero_iff unat_gt_0)

text \<open>\<open>for (uint16_t b = 0; b < epd->bytes_per_scan; ++b)\<close>, the scan bytes. The
  loop ends at the latest when the block is full.\<close>

function scan_bytes ::
  "int \<Rightarrow> int \<Rightarrow> nat \<Rightarrow> u16 \<Rightarrow> u8 list \<times> nat \<Rightarrow> error + u8 list \<times> nat"
where
  "scan_bytes bps scan_pos scan_shift b st =
     (if uint b < bps then
        (case put (if scan_pos = uint b then push_bit scan_shift 0x03 else 0x00) st of
           Inl e \<Rightarrow> Inl e
         | Inr st' \<Rightarrow> scan_bytes bps scan_pos scan_shift (b + 1) st')
      else Inr st)"
  by pat_completeness auto
termination
  by (relation "measure (\<lambda>(bps, scan_pos, scan_shift, b, st). length (fst st) - snd st)")
     (auto simp: put_def split: if_splits)

text \<open>\<open>for (uint16_t b = 0; b < epd->bytes_per_line; ++b)\<close>, the even pixels.\<close>

function even_pixels ::
  "int \<Rightarrow> (nat \<Rightarrow> u8) \<Rightarrow> nat \<Rightarrow> u8 \<Rightarrow> EPD_stage \<Rightarrow> u16 \<Rightarrow> u8 list \<times> nat \<Rightarrow> error + u8 list \<times> nat"
where
  "even_pixels bpl m data fixed_value stage b st =
     (if uint b < bpl then
        (case put (if data \<noteq> 0 then even_byte stage (m (data + unat b)) else fixed_value) st of
           Inl e \<Rightarrow> Inl e
         | Inr st' \<Rightarrow> even_pixels bpl m data fixed_value stage (b + 1) st')
      else Inr st)"
  by pat_completeness auto
termination
  by (relation "measure (\<lambda>(bpl, m, data, fixed_value, stage, b, st). length (fst st) - snd st)")
     (auto simp: put_def split: if_splits)

text \<open>
  The part of \<open>one_line\<close> that fills the line buffer, from \<open>uint8_t *p = epd->line_buffer\<close>
  to the end of the even-pixel loop. The result is the block and the offset of \<open>p\<close>.
  The division in \<open>scan_pos\<close> is C's, truncating towards zero.
\<close>

definition fill_line ::
  "EPD_struct \<Rightarrow> u16 \<Rightarrow> (nat \<Rightarrow> u8) \<Rightarrow> nat \<Rightarrow> u8 \<Rightarrow> EPD_stage \<Rightarrow> u8 \<Rightarrow> u8 list
     \<Rightarrow> error + u8 list \<times> nat"
where
  "fill_line epd line m data fixed_value stage border_byte buf =
     (case put 0x72 (buf, 0) of Inl e \<Rightarrow> Inl e | Inr st \<Rightarrow>
     (case put border_byte st of Inl e \<Rightarrow> Inl e | Inr st \<Rightarrow>
     (case odd_pixels m data fixed_value stage (word_of_int (bytes_per_line epd)) st of
        Inl e \<Rightarrow> Inl e | Inr st \<Rightarrow>
     (let scan_pos = (lines_per_display epd - uint line - 1) sdiv 4;
          scan_shift = 2 * unat (line AND 0x03)
      in
     (case scan_bytes (bytes_per_scan epd) scan_pos scan_shift 0 st of
        Inl e \<Rightarrow> Inl e | Inr st \<Rightarrow>
      even_pixels (bytes_per_line epd) m data fixed_value stage 0 st)))))"

section \<open>The collaborators: GPIO, SPI, sleeping, the timer\<close>

definition digitalWrite :: "int \<Rightarrow> int \<Rightarrow> world \<Rightarrow> world" where
  "digitalWrite pin v w = emit [Ev_gpio_write pin v] w"

definition digitalRead :: "int \<Rightarrow> world \<Rightarrow> int \<times> world" where
  "digitalRead pin w =
     (shd (gpio_in w), emit [Ev_gpio_read pin] (w\<lparr>gpio_in := stl (gpio_in w)\<rparr>))"

definition Delay_us :: "int \<Rightarrow> world \<Rightarrow> world" where
  "Delay_us us w = emit [Ev_usleep us] w"

definition Delay_ms :: "int \<Rightarrow> world \<Rightarrow> world" where
  "Delay_ms ms w = emit [Ev_usleep (1000 * ms)] w"

definition SPI_on :: "nat \<Rightarrow> world \<Rightarrow> world" where
  "SPI_on s w = emit [Ev_spi_on s] w"

definition SPI_off :: "nat \<Rightarrow> world \<Rightarrow> world" where
  "SPI_off s w = emit [Ev_spi_off s] w"

definition SPI_send :: "nat \<Rightarrow> u8 list \<Rightarrow> nat \<Rightarrow> world \<Rightarrow> world" where
  "SPI_send s buffer len w = emit [Ev_spi_send s (take len buffer)] w"

definition SPI_read :: "nat \<Rightarrow> u8 list \<Rightarrow> nat \<Rightarrow> world \<Rightarrow> (nat \<Rightarrow> u8) \<times> world" where
  "SPI_read s buffer len w =
     (shd (spi_in w), emit [Ev_spi_read s buffer len] (w\<lparr>spi_in := stl (spi_in w)\<rparr>))"

definition timer_settime :: "nat \<Rightarrow> int \<Rightarrow> int \<Rightarrow> world \<Rightarrow> int \<times> world" where
  "timer_settime t sec nsec w =
     (shd (settime_in w), emit [Ev_timer_settime t sec nsec] (w\<lparr>settime_in := stl (settime_in w)\<rparr>))"

definition timer_gettime :: "nat \<Rightarrow> world \<Rightarrow> (int \<times> int \<times> int) \<times> world" where
  "timer_gettime t w =
     (shd (gettime_in w), emit [Ev_timer_gettime t] (w\<lparr>gettime_in := stl (gettime_in w)\<rparr>))"

definition warn :: "string \<Rightarrow> world \<Rightarrow> world" where
  "warn msg w = emit [Ev_warn msg] w"

section \<open>\<open>one_line\<close>\<close>

definition one_line ::
  "EPD_struct \<Rightarrow> u16 \<Rightarrow> nat \<Rightarrow> u8 \<Rightarrow> EPD_stage \<Rightarrow> u8 \<Rightarrow> world \<Rightarrow> error + world"
where
  "one_line epd line data fixed_value stage border_byte w =
     (let w = emit [Ev_one_line line data fixed_value stage border_byte] w;
          w = SPI_on (spi epd) w;
          w = SPI_send (spi epd) [0x70, 0x0a] 2 w;
          w = Delay_us 10 w
      in
      case heap w (line_buffer epd) of
        None \<Rightarrow> Inl Bad_pointer
      | Some buf \<Rightarrow>
         (case fill_line epd line (mem w) data fixed_value stage border_byte buf of
            Inl e \<Rightarrow> Inl e
          | Inr (buf', p) \<Rightarrow>
             (let w = w\<lparr>heap := (heap w)(line_buffer epd \<mapsto> buf')\<rparr>;
                  w = SPI_send (spi epd) buf' p w;
                  w = SPI_send (spi epd) [0x70, 0x02] 2 w;
                  w = SPI_send (spi epd) [0x72, 0x2f] 2 w;
                  w = SPI_off (spi epd) w
              in Inr w)))"

section \<open>Temperature compensation\<close>

definition comp :: "nat \<Rightarrow> nat \<Rightarrow> nat \<Rightarrow> nat \<Rightarrow> nat \<Rightarrow> nat \<Rightarrow> nat \<Rightarrow> nat \<Rightarrow> nat \<Rightarrow> compensation_type" where
  "comp r1 s1 b1 r2 t1 t2 r3 s3 b3 =
     \<lparr>stage1_repeat = of_nat r1, stage1_step = of_nat s1, stage1_block = of_nat b1,
      stage2_repeat = of_nat r2, stage2_t1 = of_nat t1, stage2_t2 = of_nat t2,
      stage3_repeat = of_nat r3, stage3_step = of_nat s3, stage3_block = of_nat b3\<rparr>"

definition compensation_144 :: "compensation_type list" where
  "compensation_144 =
     [comp 2 6 42  4 392 392  2 6 42,
      comp 4 2 16  4 155 155  4 2 16,
      comp 4 2 16  4 155 155  4 2 16]"

definition compensation_200 :: "compensation_type list" where
  "compensation_200 =
     [comp 2 6 42  4 392 392  2 6 42,
      comp 2 2 48  4 196 196  2 2 48,
      comp 4 2 48  4 196 196  4 2 48]"

definition compensation_270 :: "compensation_type list" where
  "compensation_270 =
     [comp 2 8 64  4 392 392  2 8 64,
      comp 2 8 64  4 196 196  2 8 64,
      comp 4 8 64  4 196 196  4 8 64]"

fun table_rows :: "compensation_table \<Rightarrow> compensation_type list" where
  "table_rows Compensation_144 = compensation_144"
| "table_rows Compensation_200 = compensation_200"
| "table_rows Compensation_270 = compensation_270"

text \<open>\<open>epd->compensation-> ...\<close>: the row the pointer is at, if it is inside its table.\<close>

definition deref_compensation :: "compensation_table \<times> nat \<Rightarrow> compensation_type option" where
  "deref_compensation ptr =
     (case ptr of (t, i) \<Rightarrow> if i < length (table_rows t) then Some (table_rows t ! i) else None)"

definition EPD_set_temperature :: "EPD_struct \<Rightarrow> int \<Rightarrow> EPD_struct" where
  "EPD_set_temperature epd temperature =
     (let epd = (if temperature < 10 then epd\<lparr>temperature_offset := 0\<rparr>
                 else if temperature > 40 then epd\<lparr>temperature_offset := 2\<rparr>
                 else epd\<lparr>temperature_offset := 1\<rparr>)
      in case size_tag epd of
           EPD_2_0 \<Rightarrow> epd\<lparr>compensation := (Compensation_200, unat (temperature_offset epd))\<rparr>
         | EPD_2_7 \<Rightarrow> epd\<lparr>compensation := (Compensation_270, unat (temperature_offset epd))\<rparr>
         | _ \<Rightarrow> epd\<lparr>compensation := (Compensation_144, unat (temperature_offset epd))\<rparr>)"

section \<open>Lifecycle: \<open>EPD_create\<close>, \<open>EPD_destroy\<close>, \<open>EPD_status\<close>\<close>

text \<open>
  \<open>malloc\<close> answers with the next address of \<open>malloc_in\<close>; 0 is NULL. \<open>free\<close> of an
  address that is not a live block is an error.
\<close>

definition malloc :: "nat \<Rightarrow> world \<Rightarrow> nat \<times> world" where
  "malloc n w =
     (case shd (malloc_in w) of (a, junk) \<Rightarrow>
        let w = w\<lparr>malloc_in := stl (malloc_in w)\<rparr>
        in if a = 0 then (0, w) else (a, w\<lparr>heap := (heap w)(a \<mapsto> map junk [0..<n])\<rparr>))"

definition free :: "nat \<Rightarrow> world \<Rightarrow> error + world" where
  "free a w = (if a \<in> dom (heap w) then Inr (w\<lparr>heap := (heap w)(a := None)\<rparr>) else Inl Bad_pointer)"

text \<open>
  \<open>EPD_create\<close> returns the handle, an address of \<open>handles\<close>, or 0 (NULL). The struct
  comes from \<open>malloc(sizeof(EPD_type))\<close> with indeterminate contents; the fields are then
  assigned in the order of the source, and \<open>status\<close> is not among them.
\<close>

definition EPD_create ::
  "EPD_size \<Rightarrow> int \<Rightarrow> int \<Rightarrow> int \<Rightarrow> int \<Rightarrow> int \<Rightarrow> nat \<Rightarrow> world \<Rightarrow> nat \<times> world"
where
  "EPD_create sz panel_on_pin border_pin discharge_pin reset_pin busy_pin spi_h w =
     (case shd (timer_create_in w) of (ret, tid) \<Rightarrow>
      let w = w\<lparr>timer_create_in := stl (timer_create_in w)\<rparr> in
      if - 1 = ret then (0, warn ''falled to create timer'' w)
      else
        let w = w\<lparr>timers := insert tid (timers w)\<rparr>;
            a = fst (shd (malloc_in w));
            w = w\<lparr>malloc_in := stl (malloc_in w)\<rparr>
        in
        if a = 0 then (0, warn ''falled to allocate EPD structure'' w)
        else
          let epd = fresh_struct w;
              epd = epd\<lparr>spi := spi_h\<rparr>;
              epd = epd\<lparr>timer := tid\<rparr>;
              epd = epd\<lparr>EPD_Pin_PANEL_ON := panel_on_pin\<rparr>;
              epd = epd\<lparr>EPD_Pin_BORDER := border_pin\<rparr>;
              epd = epd\<lparr>EPD_Pin_DISCHARGE := discharge_pin\<rparr>;
              epd = epd\<lparr>EPD_Pin_RESET := reset_pin\<rparr>;
              epd = epd\<lparr>EPD_Pin_BUSY := busy_pin\<rparr>;
              epd = epd\<lparr>size_tag := sz\<rparr>;
              epd = epd\<lparr>lines_per_display := 96\<rparr>;
              epd = epd\<lparr>dots_per_line := 128\<rparr>;
              epd = epd\<lparr>bytes_per_line := 128 sdiv 8\<rparr>;
              epd = epd\<lparr>bytes_per_scan := 96 sdiv 4\<rparr>;
              epd = EPD_set_temperature epd 25;
              epd = epd\<lparr>channel_select := [0x72, 0x00, 0x00, 0x00, 0x00, 0x00, 0x0f, 0xff, 0x00]\<rparr>;
              epd = epd\<lparr>channel_select_length := 9\<rparr>;
              epd = (case sz of
                       EPD_2_0 \<Rightarrow>
                         epd\<lparr>lines_per_display := 96, dots_per_line := 200,
                             bytes_per_line := 200 sdiv 8, bytes_per_scan := 96 sdiv 4,
                             channel_select := [0x72, 0x00, 0x00, 0x00, 0x00, 0x01, 0xff, 0xe0, 0x00],
                             channel_select_length := 9\<rparr>
                     | EPD_2_7 \<Rightarrow>
                         epd\<lparr>lines_per_display := 176, dots_per_line := 264,
                             bytes_per_line := 264 sdiv 8, bytes_per_scan := 176 sdiv 4,
                             channel_select := [0x72, 0x00, 0x00, 0x00, 0x7f, 0xff, 0xfe, 0x00, 0x00],
                             channel_select_length := 9\<rparr>
                     | _ \<Rightarrow> epd);
              epd = epd\<lparr>line_buffer_size := nat (2 * bytes_per_line epd + bytes_per_scan epd + 3)\<rparr>;
              (b, w) = malloc (line_buffer_size epd) w;
              epd = epd\<lparr>line_buffer := b\<rparr>
          in
          if b = 0 then (0, warn ''falled to allocate EPD line buffer'' w)
          else (a, w\<lparr>handles := (handles w)(a \<mapsto> epd)\<rparr>))"

definition EPD_destroy :: "nat \<Rightarrow> world \<Rightarrow> error + world" where
  "EPD_destroy epd_p w =
     (if epd_p = 0 then Inr w
      else
        (case handles w epd_p of
           None \<Rightarrow> Inl Bad_pointer
         | Some epd \<Rightarrow>
            (case (if line_buffer epd \<noteq> 0 then free (line_buffer epd) w else Inr w) of
               Inl e \<Rightarrow> Inl e
             | Inr w \<Rightarrow> Inr (w\<lparr>handles := (handles w)(epd_p := None)\<rparr>))))"

definition EPD_status :: "EPD_struct \<Rightarrow> EPD_error" where
  "EPD_status epd = status epd"

section \<open>The power sequencer: \<open>power_off\<close> and \<open>EPD_begin\<close>\<close>

text \<open>\<open>for (int i = 0; i < 10; ++i)\<close>, the discharge pulses of \<open>power_off\<close>.\<close>

function discharge_pulses :: "EPD_struct \<Rightarrow> int \<Rightarrow> world \<Rightarrow> world" where
  "discharge_pulses epd i w =
     (if i < 10 then
        (let w = Delay_ms 10 w;
             w = digitalWrite (EPD_Pin_DISCHARGE epd) 1 w;
             w = Delay_ms 10 w;
             w = digitalWrite (EPD_Pin_DISCHARGE epd) 0 w
         in discharge_pulses epd (i + 1) w)
      else w)"
  by pat_completeness auto
termination
  by (relation "measure (\<lambda>(epd, i, w). nat (10 - i))") auto

definition power_off :: "EPD_struct \<Rightarrow> world \<Rightarrow> world" where
  "power_off epd w =
     (let w = emit [Ev_power_off] w;
          w = digitalWrite (EPD_Pin_RESET epd) 0 w;
          w = digitalWrite (EPD_Pin_PANEL_ON epd) 0 w;
          w = digitalWrite (EPD_Pin_BORDER epd) 0 w;
          w = SPI_off (spi epd) w
      in discharge_pulses epd 0 w)"

text \<open>
  \<open>while (HIGH == digitalRead(epd->EPD_Pin_BUSY)) Delay_us(10);\<close> The loop runs for as
  long as the pin reads high: no result (\<open>None\<close>) when it never reads low.
\<close>

partial_function (option) wait_busy :: "EPD_struct \<Rightarrow> world \<Rightarrow> world option" where
  "wait_busy epd w =
     (case digitalRead (EPD_Pin_BUSY epd) w of (v, w) \<Rightarrow>
        if 1 = v then wait_busy epd (Delay_us 10 w) else Some w)"

text \<open>
  \<open>for (int i = 0; i < 4; ++i)\<close>, the DC/DC bring-up of \<open>EPD_begin\<close>. The result is
  \<open>dc_ok\<close>.
\<close>

function charge_pumps :: "EPD_struct \<Rightarrow> int \<Rightarrow> world \<Rightarrow> bool \<times> world" where
  "charge_pumps epd i w =
     (if i < 4 then
        (let w = SPI_send (spi epd) [0x70, 0x05] 2 w;
             w = SPI_send (spi epd) [0x72, 0x01] 2 w;
             w = Delay_ms 240 w;
             w = SPI_send (spi epd) [0x70, 0x05] 2 w;
             w = SPI_send (spi epd) [0x72, 0x03] 2 w;
             w = Delay_ms 40 w;
             w = SPI_send (spi epd) [0x70, 0x05] 2 w;
             w = SPI_send (spi epd) [0x72, 0x0f] 2 w;
             w = Delay_ms 40 w;
             w = SPI_send (spi epd) [0x70, 0x0f] 2 w;
             (receive_buffer, w) = SPI_read (spi epd) [0x73, 0x00] 2 w;
             dc_state = receive_buffer 1
         in if 0x40 = (0x40 AND dc_state) then (True, w) else charge_pumps epd (i + 1) w)
      else (False, w))"
  by pat_completeness auto
termination
  by (relation "measure (\<lambda>(epd, i, w). nat (4 - i))") auto

text \<open>\<open>EPD_begin\<close> from the COG-ID read to its end, that is, after the busy wait.\<close>

definition begin_ready :: "EPD_struct \<Rightarrow> world \<Rightarrow> EPD_struct \<times> world" where
  "begin_ready epd w =
     (let (receive_buffer, w) = SPI_read (spi epd) [0x71, 0x00] 2 w;
          (receive_buffer, w) = SPI_read (spi epd) [0x71, 0x00] 2 w;
          cog_id = receive_buffer 1
      in
      if 0x02 \<noteq> (0x0f AND cog_id) then
        (let epd = epd\<lparr>status := EPD_UNSUPPORTED_COG\<rparr>;
             w = emit [Ev_status EPD_UNSUPPORTED_COG] w
         in (epd, power_off epd w))
      else
        (let w = SPI_send (spi epd) [0x70, 0x02] 2 w;
             w = SPI_send (spi epd) [0x72, 0x40] 2 w;
             w = SPI_send (spi epd) [0x70, 0x0f] 2 w;
             (receive_buffer, w) = SPI_read (spi epd) [0x73, 0x00] 2 w;
             broken_panel = receive_buffer 1
         in
         if 0x00 = (0x80 AND broken_panel) then
           (let epd = epd\<lparr>status := EPD_PANEL_BROKEN\<rparr>;
                w = emit [Ev_status EPD_PANEL_BROKEN] w
            in (epd, power_off epd w))
         else
           (let w = SPI_send (spi epd) [0x70, 0x0b] 2 w;
                w = SPI_send (spi epd) [0x72, 0x02] 2 w;
                w = SPI_send (spi epd) [0x70, 0x01] 2 w;
                w = SPI_send (spi epd) (channel_select epd) (channel_select_length epd) w;
                w = SPI_send (spi epd) [0x70, 0x07] 2 w;
                w = SPI_send (spi epd) [0x72, 0xd1] 2 w;
                w = SPI_send (spi epd) [0x70, 0x08] 2 w;
                w = SPI_send (spi epd) [0x72, 0x02] 2 w;
                w = SPI_send (spi epd) [0x70, 0x09] 2 w;
                w = SPI_send (spi epd) [0x72, 0xc2] 2 w;
                w = SPI_send (spi epd) [0x70, 0x04] 2 w;
                w = SPI_send (spi epd) [0x72, 0x03] 2 w;
                w = SPI_send (spi epd) [0x70, 0x03] 2 w;
                w = SPI_send (spi epd) [0x72, 0x01] 2 w;
                w = SPI_send (spi epd) [0x70, 0x03] 2 w;
                w = SPI_send (spi epd) [0x72, 0x00] 2 w;
                w = Delay_ms 5 w;
                (dc_ok, w) = charge_pumps epd 0 w
            in
            if \<not> dc_ok then
              (let epd = epd\<lparr>status := EPD_DC_FAILED\<rparr>;
                   w = emit [Ev_status EPD_DC_FAILED] w
               in (epd, power_off epd w))
            else
              (let w = SPI_send (spi epd) [0x70, 0x02] 2 w;
                   w = SPI_send (spi epd) [0x72, 0x40] 2 w;
                   w = SPI_off (spi epd) w
               in (epd, w)))))"

definition EPD_begin :: "EPD_struct \<Rightarrow> world \<Rightarrow> (EPD_struct \<times> world) option" where
  "EPD_begin epd w =
     (let epd = epd\<lparr>status := EPD_OK\<rparr>;
          w = emit [Ev_status EPD_OK] w;
          w = digitalWrite (EPD_Pin_RESET epd) 0 w;
          w = digitalWrite (EPD_Pin_PANEL_ON epd) 0 w;
          w = digitalWrite (EPD_Pin_DISCHARGE epd) 0 w;
          w = digitalWrite (EPD_Pin_BORDER epd) 0 w;
          w = SPI_on (spi epd) w;
          w = Delay_ms 5 w;
          w = digitalWrite (EPD_Pin_PANEL_ON epd) 1 w;
          w = Delay_ms 10 w;
          w = digitalWrite (EPD_Pin_RESET epd) 1 w;
          w = digitalWrite (EPD_Pin_BORDER epd) 1 w;
          w = Delay_ms 5 w;
          w = digitalWrite (EPD_Pin_RESET epd) 0 w;
          w = Delay_ms 5 w;
          w = digitalWrite (EPD_Pin_RESET epd) 1 w;
          w = Delay_ms 5 w
      in case wait_busy epd w of
           None \<Rightarrow> None
         | Some w \<Rightarrow> Some (begin_ready epd w))"

text \<open>
  \<open>EPD_end\<close>. First its opening branch, the border pulse of the 2.7 inch panel or the
  three dummy lines of the others; then the function: that branch, the DC/DC check, and
  the power-down sequence.
\<close>

definition end_dummy_lines :: "EPD_struct \<Rightarrow> world \<Rightarrow> error + world" where
  "end_dummy_lines epd w =
     (if EPD_2_7 = size_tag epd then
        (let w = Delay_ms 25 w;
             w = digitalWrite (EPD_Pin_BORDER epd) 0 w;
             w = Delay_ms 250 w;
             w = digitalWrite (EPD_Pin_BORDER epd) 1 w
         in Inr w)
      else
        (case one_line epd 0x7fff 0 0x00 EPD_normal 0xff w of Inl e \<Rightarrow> Inl e | Inr w \<Rightarrow>
        (case one_line epd 0x7fff 0 0x00 EPD_normal 0xaa (Delay_ms 40 w) of Inl e \<Rightarrow> Inl e | Inr w \<Rightarrow>
        (case one_line epd 0x7fff 0 0x00 EPD_normal 0x00 (Delay_ms 200 w) of Inl e \<Rightarrow> Inl e | Inr w \<Rightarrow>
         Inr (Delay_ms 25 w)))))"

definition EPD_end :: "EPD_struct \<Rightarrow> world \<Rightarrow> error + EPD_struct \<times> world" where
  "EPD_end epd w =
     (case end_dummy_lines epd w of
        Inl e \<Rightarrow> Inl e
      | Inr w \<Rightarrow>
         (let w = SPI_on (spi epd) w;
              w = SPI_send (spi epd) [0x70, 0x0f] 2 w;
              (receive_buffer, w) = SPI_read (spi epd) [0x73, 0x00] 2 w;
              dc_state = receive_buffer 1
          in
          if 0x40 \<noteq> (0x40 AND dc_state) then
            (let epd = epd\<lparr>status := EPD_DC_FAILED\<rparr>;
                 w = emit [Ev_status EPD_DC_FAILED] w
             in Inr (epd, power_off epd w))
          else
            (let w = SPI_send (spi epd) [0x70, 0x03] 2 w;
                 w = SPI_send (spi epd) [0x72, 0x01] 2 w;
                 w = SPI_send (spi epd) [0x70, 0x02] 2 w;
                 w = SPI_send (spi epd) [0x72, 0x05] 2 w;
                 w = SPI_send (spi epd) [0x70, 0x05] 2 w;
                 w = SPI_send (spi epd) [0x72, 0x0e] 2 w;
                 w = SPI_send (spi epd) [0x70, 0x05] 2 w;
                 w = SPI_send (spi epd) [0x72, 0x02] 2 w;
                 w = SPI_send (spi epd) [0x70, 0x05] 2 w;
                 w = SPI_send (spi epd) [0x72, 0x00] 2 w;
                 w = SPI_send (spi epd) [0x70, 0x07] 2 w;
                 w = SPI_send (spi epd) [0x72, 0x0d] 2 w;
                 w = SPI_send (spi epd) [0x70, 0x04] 2 w;
                 w = SPI_send (spi epd) [0x72, 0x83] 2 w;
                 w = Delay_ms 120 w;
                 w = SPI_send (spi epd) [0x70, 0x04] 2 w;
                 w = SPI_send (spi epd) [0x72, 0x00] 2 w
             in Inr (epd, power_off epd w))))"

section \<open>The stage drivers\<close>

text \<open>
  \<open>frame_fixed_timed\<close>. The inner loop counts in a \<open>uint8_t\<close>, which wraps at 256; the
  outer \<open>do ... while\<close> runs for as long as the timer answers with both fields positive.
\<close>

partial_function (option) fixed_frame :: "EPD_struct \<Rightarrow> u8 \<Rightarrow> u8 \<Rightarrow> world \<Rightarrow> (error + world) option" where
  "fixed_frame epd fixed_value line w =
     (if uint line < lines_per_display epd then
        (case one_line epd (ucast line) 0 fixed_value EPD_normal 0x00 w of
           Inl e \<Rightarrow> Some (Inl e)
         | Inr w \<Rightarrow> fixed_frame epd fixed_value (line + 1) w)
      else Some (Inr w))"

partial_function (option) timed_frames :: "EPD_struct \<Rightarrow> u8 \<Rightarrow> world \<Rightarrow> (error + world) option" where
  "timed_frames epd fixed_value w =
     (case fixed_frame epd fixed_value 0 w of
        None \<Rightarrow> None
      | Some (Inl e) \<Rightarrow> Some (Inl e)
      | Some (Inr w) \<Rightarrow>
         (case timer_gettime (timer epd) w of ((ret, tv_sec, tv_nsec), w) \<Rightarrow>
            if - 1 = ret then Some (Inl (Exit_failure ''timer_gettime failed''))
            else if tv_sec > 0 \<and> tv_nsec > 0 then timed_frames epd fixed_value w
            else Some (Inr w)))"

definition frame_fixed_timed :: "EPD_struct \<Rightarrow> u8 \<Rightarrow> int \<Rightarrow> world \<Rightarrow> (error + world) option" where
  "frame_fixed_timed epd fixed_value stage_time w =
     (let tv_sec = stage_time sdiv 1000;
          tv_nsec = (stage_time smod 1000) * 1000000
      in case timer_settime (timer epd) tv_sec tv_nsec w of (ret, w) \<Rightarrow>
           if - 1 = ret then Some (Inl (Exit_failure ''timer_settime failed''))
           else timed_frames epd fixed_value w)"

text \<open>
  \<open>frame_stage2\<close>: \<open>for (int i = 0; i < epd->compensation->stage2_repeat; ++i)\<close>.
\<close>

function stage2_loop :: "EPD_struct \<Rightarrow> compensation_type \<Rightarrow> int \<Rightarrow> world \<Rightarrow> (error + world) option" where
  "stage2_loop epd c i w =
     (if i < uint (stage2_repeat c) then
        (case frame_fixed_timed epd 0xff (uint (stage2_t1 c)) w of
           None \<Rightarrow> None
         | Some (Inl e) \<Rightarrow> Some (Inl e)
         | Some (Inr w) \<Rightarrow>
            (case frame_fixed_timed epd 0xaa (uint (stage2_t2 c)) w of
               None \<Rightarrow> None
             | Some (Inl e) \<Rightarrow> Some (Inl e)
             | Some (Inr w) \<Rightarrow> stage2_loop epd c (i + 1) w))
      else Some (Inr w))"
  by pat_completeness auto
termination
  by (relation "measure (\<lambda>(epd, c, i, w). nat (uint (stage2_repeat c) - i))") auto

definition frame_stage2 :: "EPD_struct \<Rightarrow> world \<Rightarrow> (error + world) option" where
  "frame_stage2 epd w =
     (case deref_compensation (compensation epd) of
        None \<Rightarrow> Some (Inl Bad_pointer)
      | Some c \<Rightarrow> stage2_loop epd c 0 w)"

text \<open>
  \<open>frame_fixed_13\<close>. The body of the innermost loop, at one \<open>n\<close>, \<open>line\<close> and
  \<open>offset\<close>, then the three loops from the inside out. \<open>pos\<close> is an \<open>int\<close> and
  becomes the \<open>uint16_t\<close> parameter of \<open>one_line\<close>.
\<close>

definition fixed_13_pos ::
  "EPD_struct \<Rightarrow> u8 \<Rightarrow> EPD_stage \<Rightarrow> int \<Rightarrow> int \<Rightarrow> int \<Rightarrow> int \<Rightarrow> int \<Rightarrow> world \<Rightarrow> error + world"
where
  "fixed_13_pos epd val stage total_lines n repeat line offset w =
     (let pos = line + offset in
      if pos < 0 \<or> pos > total_lines then one_line epd 0x7fff 0 0x00 EPD_normal 0x00 w
      else if 0 = offset \<and> n = repeat - 1 then one_line epd (word_of_int pos) 0 0x00 EPD_normal 0x00 w
      else one_line epd (word_of_int pos) 0 val stage 0x00 w)"

function fixed_13_block ::
  "EPD_struct \<Rightarrow> u8 \<Rightarrow> EPD_stage \<Rightarrow> int \<Rightarrow> int \<Rightarrow> int \<Rightarrow> int \<Rightarrow> int \<Rightarrow> int \<Rightarrow> world \<Rightarrow> error + world"
where
  "fixed_13_block epd val stage total_lines n repeat block line offset w =
     (if offset < block then
        (case fixed_13_pos epd val stage total_lines n repeat line offset w of
           Inl e \<Rightarrow> Inl e
         | Inr w \<Rightarrow> fixed_13_block epd val stage total_lines n repeat block line (offset + 1) w)
      else Inr w)"
  by pat_completeness auto
termination
  by (relation "measure (\<lambda>(epd, val, stage, total_lines, n, repeat, block, line, offset, w).
        nat (block - offset))") auto

text \<open>\<open>for (int line = step - block; line < total_lines + step; line += step)\<close>: with
  \<open>step\<close> 0 the loop does not end.\<close>

partial_function (option) fixed_13_lines ::
  "EPD_struct \<Rightarrow> u8 \<Rightarrow> EPD_stage \<Rightarrow> int \<Rightarrow> int \<Rightarrow> int \<Rightarrow> int \<Rightarrow> int \<Rightarrow> int \<Rightarrow> world
     \<Rightarrow> (error + world) option"
where
  "fixed_13_lines epd val stage total_lines n repeat step block line w =
     (if line < total_lines + step then
        (case fixed_13_block epd val stage total_lines n repeat block line 0 w of
           Inl e \<Rightarrow> Some (Inl e)
         | Inr w \<Rightarrow> fixed_13_lines epd val stage total_lines n repeat step block (line + step) w)
      else Some (Inr w))"

function fixed_13_repeats ::
  "EPD_struct \<Rightarrow> u8 \<Rightarrow> EPD_stage \<Rightarrow> int \<Rightarrow> int \<Rightarrow> int \<Rightarrow> int \<Rightarrow> int \<Rightarrow> world
     \<Rightarrow> (error + world) option"
where
  "fixed_13_repeats epd val stage total_lines repeat step block n w =
     (if n < repeat then
        (case fixed_13_lines epd val stage total_lines n repeat step block (step - block) w of
           None \<Rightarrow> None
         | Some (Inl e) \<Rightarrow> Some (Inl e)
         | Some (Inr w) \<Rightarrow> fixed_13_repeats epd val stage total_lines repeat step block (n + 1) w)
      else Some (Inr w))"
  by pat_completeness auto
termination
  by (relation "measure (\<lambda>(epd, val, stage, total_lines, repeat, step, block, n, w).
        nat (repeat - n))") auto

definition frame_fixed_13 :: "EPD_struct \<Rightarrow> u8 \<Rightarrow> EPD_stage \<Rightarrow> world \<Rightarrow> (error + world) option" where
  "frame_fixed_13 epd val stage w =
     (case deref_compensation (compensation epd) of
        None \<Rightarrow> Some (Inl Bad_pointer)
      | Some c \<Rightarrow>
         (let repeat = (if EPD_inverse = stage then uint (stage1_repeat c) else uint (stage3_repeat c));
              step = (if EPD_inverse = stage then uint (stage1_step c) else uint (stage3_step c));
              block = (if EPD_inverse = stage then uint (stage1_block c) else uint (stage3_block c));
              total_lines = lines_per_display epd
          in fixed_13_repeats epd val stage total_lines repeat step block 0 w))"

text \<open>
  \<open>frame_data_13\<close>, in the same way. \<open>&image[pos * epd->bytes_per_line]\<close> is the address
  \<open>image + pos * bytes_per_line\<close>; the parameter \<open>image\<close> is \<open>img\<close> here.
\<close>

definition data_13_pos ::
  "EPD_struct \<Rightarrow> nat \<Rightarrow> EPD_stage \<Rightarrow> int \<Rightarrow> int \<Rightarrow> int \<Rightarrow> int \<Rightarrow> int \<Rightarrow> world \<Rightarrow> error + world"
where
  "data_13_pos epd img stage total_lines n repeat line offset w =
     (let pos = line + offset in
      if pos < 0 \<or> pos > total_lines then one_line epd 0x7fff 0 0x00 EPD_normal 0x00 w
      else if 0 = offset \<and> n = repeat - 1 then one_line epd (word_of_int pos) 0 0x00 EPD_normal 0x00 w
      else one_line epd (word_of_int pos) (img + nat (pos * bytes_per_line epd)) 0 stage 0x00 w)"

function data_13_block ::
  "EPD_struct \<Rightarrow> nat \<Rightarrow> EPD_stage \<Rightarrow> int \<Rightarrow> int \<Rightarrow> int \<Rightarrow> int \<Rightarrow> int \<Rightarrow> int \<Rightarrow> world \<Rightarrow> error + world"
where
  "data_13_block epd img stage total_lines n repeat block line offset w =
     (if offset < block then
        (case data_13_pos epd img stage total_lines n repeat line offset w of
           Inl e \<Rightarrow> Inl e
         | Inr w \<Rightarrow> data_13_block epd img stage total_lines n repeat block line (offset + 1) w)
      else Inr w)"
  by pat_completeness auto
termination
  by (relation "measure (\<lambda>(epd, img, stage, total_lines, n, repeat, block, line, offset, w).
        nat (block - offset))") auto

partial_function (option) data_13_lines ::
  "EPD_struct \<Rightarrow> nat \<Rightarrow> EPD_stage \<Rightarrow> int \<Rightarrow> int \<Rightarrow> int \<Rightarrow> int \<Rightarrow> int \<Rightarrow> int \<Rightarrow> world
     \<Rightarrow> (error + world) option"
where
  "data_13_lines epd img stage total_lines n repeat step block line w =
     (if line < total_lines + step then
        (case data_13_block epd img stage total_lines n repeat block line 0 w of
           Inl e \<Rightarrow> Some (Inl e)
         | Inr w \<Rightarrow> data_13_lines epd img stage total_lines n repeat step block (line + step) w)
      else Some (Inr w))"

function data_13_repeats ::
  "EPD_struct \<Rightarrow> nat \<Rightarrow> EPD_stage \<Rightarrow> int \<Rightarrow> int \<Rightarrow> int \<Rightarrow> int \<Rightarrow> int \<Rightarrow> world
     \<Rightarrow> (error + world) option"
where
  "data_13_repeats epd img stage total_lines repeat step block n w =
     (if n < repeat then
        (case data_13_lines epd img stage total_lines n repeat step block (step - block) w of
           None \<Rightarrow> None
         | Some (Inl e) \<Rightarrow> Some (Inl e)
         | Some (Inr w) \<Rightarrow> data_13_repeats epd img stage total_lines repeat step block (n + 1) w)
      else Some (Inr w))"
  by pat_completeness auto
termination
  by (relation "measure (\<lambda>(epd, img, stage, total_lines, repeat, step, block, n, w).
        nat (repeat - n))") auto

definition frame_data_13 :: "EPD_struct \<Rightarrow> nat \<Rightarrow> EPD_stage \<Rightarrow> world \<Rightarrow> (error + world) option" where
  "frame_data_13 epd img stage w =
     (case deref_compensation (compensation epd) of
        None \<Rightarrow> Some (Inl Bad_pointer)
      | Some c \<Rightarrow>
         (let repeat = (if EPD_inverse = stage then uint (stage1_repeat c) else uint (stage3_repeat c));
              step = (if EPD_inverse = stage then uint (stage1_step c) else uint (stage3_step c));
              block = (if EPD_inverse = stage then uint (stage1_block c) else uint (stage3_block c));
              total_lines = lines_per_display epd
          in data_13_repeats epd img stage total_lines repeat step block 0 w))"

text \<open>
  \<open>EPD_clear\<close> and \<open>EPD_image\<close>: the three stages in turn. Neither assigns to a field
  of the handle.
\<close>

definition EPD_clear :: "EPD_struct \<Rightarrow> world \<Rightarrow> (error + world) option" where
  "EPD_clear epd w =
     (case frame_fixed_13 epd 0xff EPD_inverse w of
        None \<Rightarrow> None
      | Some (Inl e) \<Rightarrow> Some (Inl e)
      | Some (Inr w) \<Rightarrow>
         (case frame_stage2 epd w of
            None \<Rightarrow> None
          | Some (Inl e) \<Rightarrow> Some (Inl e)
          | Some (Inr w) \<Rightarrow> frame_fixed_13 epd 0xaa EPD_normal w))"

definition EPD_image :: "EPD_struct \<Rightarrow> nat \<Rightarrow> world \<Rightarrow> (error + world) option" where
  "EPD_image epd img w =
     (case frame_data_13 epd img EPD_inverse w of
        None \<Rightarrow> None
      | Some (Inl e) \<Rightarrow> Some (Inl e)
      | Some (Inr w) \<Rightarrow>
         (case frame_stage2 epd w of
            None \<Rightarrow> None
          | Some (Inl e) \<Rightarrow> Some (Inl e)
          | Some (Inr w) \<Rightarrow> frame_data_13 epd img EPD_normal w))"

declare odd_pixels.simps [simp del] scan_bytes.simps [simp del] even_pixels.simps [simp del]
declare discharge_pulses.simps [simp del] charge_pumps.simps [simp del] stage2_loop.simps [simp del]
declare fixed_13_block.simps [simp del] fixed_13_repeats.simps [simp del]
declare data_13_block.simps [simp del] data_13_repeats.simps [simp del]

section \<open>Definitions for stating the properties\<close>

text \<open>
  The temperature bands as the specification words them: band 0 below 10 degrees, band 2
  above 40, band 1 otherwise; and the compensation table that belongs to a panel size.
\<close>

definition spec_band :: "int \<Rightarrow> nat" where
  "spec_band t = (if t < 10 then 0 else if t > 40 then 2 else 1)"

definition spec_table :: "EPD_size \<Rightarrow> compensation_table" where
  "spec_table sz =
     (case sz of EPD_2_0 \<Rightarrow> Compensation_200 | EPD_2_7 \<Rightarrow> Compensation_270 | _ \<Rightarrow> Compensation_144)"

text \<open>
  The geometry table of the specification (lines, dots, bytes per line, bytes per scan),
  a handle with that geometry and a line buffer size of \<open>2 * bytes_per_line +
  bytes_per_scan + 3\<close>, and such a handle whose line buffer is a live block of that
  size.
\<close>

definition spec_geometry :: "EPD_size \<Rightarrow> int \<times> int \<times> int \<times> int" where
  "spec_geometry sz =
     (case sz of EPD_2_0 \<Rightarrow> (96, 200, 25, 24) | EPD_2_7 \<Rightarrow> (176, 264, 33, 44) | _ \<Rightarrow> (96, 128, 16, 24))"

definition panel_handle :: "EPD_struct \<Rightarrow> bool" where
  "panel_handle epd =
     ((lines_per_display epd, dots_per_line epd, bytes_per_line epd, bytes_per_scan epd)
        = spec_geometry (size_tag epd)
      \<and> int (line_buffer_size epd) = 2 * bytes_per_line epd + bytes_per_scan epd + 3)"

definition ready :: "EPD_struct \<Rightarrow> world \<Rightarrow> bool" where
  "ready epd w =
     (panel_handle epd \<and>
      (case heap w (line_buffer epd) of None \<Rightarrow> False | Some buf \<Rightarrow> length buf = line_buffer_size epd))"

text \<open>
  What \<open>one_line\<close> does on the bus around a frame: open SPI, command \<open>0x70 0x0a\<close>,
  10 microseconds, the frame, command \<open>0x70 0x02\<close> with data \<open>0x72 0x2f\<close>, close SPI.
\<close>

definition line_session :: "nat \<Rightarrow> u8 list \<Rightarrow> event list" where
  "line_session s frame =
     [Ev_spi_on s, Ev_spi_send s [0x70, 0x0a], Ev_usleep 10, Ev_spi_send s frame,
      Ev_spi_send s [0x70, 0x02], Ev_spi_send s [0x72, 0x2f], Ev_spi_off s]"

text \<open>
  The frame in closed form: the bytes the three loops of \<open>one_line\<close> write, as lists.
\<close>

definition odd_part :: "nat \<Rightarrow> (nat \<Rightarrow> u8) \<Rightarrow> nat \<Rightarrow> u8 \<Rightarrow> EPD_stage \<Rightarrow> u8 list" where
  "odd_part bpl m data fv stage =
     map (\<lambda>k. if data \<noteq> 0 then odd_byte stage (m (data + k)) else fv) (rev [0..<bpl])"

definition scan_part :: "nat \<Rightarrow> int \<Rightarrow> u16 \<Rightarrow> u8 list" where
  "scan_part bps L line =
     map (\<lambda>k. if (L - uint line - 1) sdiv 4 = int k then push_bit (2 * unat (line AND 0x03)) 0x03 else 0x00)
       [0..<bps]"

definition even_part :: "nat \<Rightarrow> (nat \<Rightarrow> u8) \<Rightarrow> nat \<Rightarrow> u8 \<Rightarrow> EPD_stage \<Rightarrow> u8 list" where
  "even_part bpl m data fv stage =
     map (\<lambda>k. if data \<noteq> 0 then even_byte stage (m (data + k)) else fv) [0..<bpl]"

definition line_frame :: "EPD_struct \<Rightarrow> u16 \<Rightarrow> (nat \<Rightarrow> u8) \<Rightarrow> nat \<Rightarrow> u8 \<Rightarrow> EPD_stage \<Rightarrow> u8 \<Rightarrow> u8 list" where
  "line_frame epd line m data fv stage border =
     [0x72, border] @ odd_part (nat (bytes_per_line epd)) m data fv stage
       @ scan_part (nat (bytes_per_scan epd)) (lines_per_display epd) line
       @ even_part (nat (bytes_per_line epd)) m data fv stage"

text \<open>
  The regions of a frame, in the order of the layout: command byte, border byte,
  \<open>bytes_per_line\<close> odd-pixel bytes, \<open>bytes_per_scan\<close> scan bytes, \<open>bytes_per_line\<close>
  even-pixel bytes.
\<close>

definition odd_region :: "EPD_struct \<Rightarrow> u8 list \<Rightarrow> u8 list" where
  "odd_region epd frame = take (nat (bytes_per_line epd)) (drop 2 frame)"

definition scan_region :: "EPD_struct \<Rightarrow> u8 list \<Rightarrow> u8 list" where
  "scan_region epd frame =
     take (nat (bytes_per_scan epd)) (drop (2 + nat (bytes_per_line epd)) frame)"

definition even_region :: "EPD_struct \<Rightarrow> u8 list \<Rightarrow> u8 list" where
  "even_region epd frame =
     take (nat (bytes_per_line epd))
       (drop (2 + nat (bytes_per_line epd) + nat (bytes_per_scan epd)) frame)"

text \<open>
  The recoding of a source byte as the specification words it: the bit-pair reversal, and
  the odd and even transforms of the two stages.
\<close>

definition spec_pair_reverse :: "u8 \<Rightarrow> u8" where
  "spec_pair_reverse x =
     (let p1 = drop_bit 6 x AND 0x03;
          p2 = drop_bit 4 x AND 0x03;
          p3 = drop_bit 2 x AND 0x03;
          p4 = x AND 0x03
      in push_bit 0 p1 OR push_bit 2 p2 OR push_bit 4 p3 OR push_bit 6 p4)"

definition spec_odd :: "EPD_stage \<Rightarrow> u8 \<Rightarrow> u8" where
  "spec_odd stage b =
     (case stage of
        EPD_normal \<Rightarrow> 0xaa OR (b AND 0x55)
      | EPD_inverse \<Rightarrow> 0xaa OR ((b AND 0x55) XOR 0x55))"

definition spec_even :: "EPD_stage \<Rightarrow> u8 \<Rightarrow> u8" where
  "spec_even stage b =
     (case stage of
        EPD_normal \<Rightarrow> spec_pair_reverse (0xaa OR drop_bit 1 (b AND 0xaa))
      | EPD_inverse \<Rightarrow> spec_pair_reverse (0xaa OR drop_bit 1 ((b AND 0xaa) XOR 0xaa)))"

text \<open>
  A concrete world and handle, for instances: the pins of epd\_io.h, a timer of id 7, the
  struct allocated at 4096 and the line buffer at 8192, a caller memory whose byte at
  address \<open>a\<close> is \<open>a mod 256\<close>, and a 2.0 inch panel.
\<close>

definition demo_struct :: EPD_struct where
  "demo_struct =
     \<lparr>EPD_Pin_PANEL_ON = 0, EPD_Pin_BORDER = 0, EPD_Pin_DISCHARGE = 0, EPD_Pin_RESET = 0,
      EPD_Pin_BUSY = 0, size_tag = EPD_1_44, lines_per_display = 0, dots_per_line = 0,
      bytes_per_line = 0, bytes_per_scan = 0, status = EPD_DC_FAILED, channel_select = [],
      channel_select_length = 0, compensation = (Compensation_144, 0), temperature_offset = 0,
      line_buffer = 0, line_buffer_size = 0, timer = 0, spi = 0\<rparr>"

definition demo_world :: world where
  "demo_world =
     \<lparr>trace = [], mem = (\<lambda>a. of_nat a), heap = Map.empty, handles = Map.empty, timers = {},
      gpio_in = sconst 0, spi_in = sconst (\<lambda>i. 0), settime_in = sconst 0,
      gettime_in = sconst (0, 0, 0), timer_create_in = sconst (0, 7),
      malloc_in = (4096, \<lambda>i. 0) ## (8192, \<lambda>i. 0) ## sconst (0, \<lambda>i. 0),
      fresh_struct = demo_struct\<rparr>"

definition demo_created :: "nat \<times> world" where
  "demo_created = EPD_create EPD_2_0 136 195 196 139 138 1 demo_world"

definition demo_epd :: EPD_struct where
  "demo_epd = the (handles (snd demo_created) (fst demo_created))"

text \<open>
  The arguments of the calls of \<open>one_line\<close> in a trace, in order: line, data, fixed
  value, stage, border byte.
\<close>

type_synonym line_call = "u16 \<times> nat \<times> u8 \<times> EPD_stage \<times> u8"

fun one_line_calls :: "event list \<Rightarrow> line_call list" where
  "one_line_calls [] = []"
| "one_line_calls (Ev_one_line l d f s b # es) = (l, d, f, s, b) # one_line_calls es"
| "one_line_calls (e # es) = one_line_calls es"

text \<open>
  The line scheduling of stages 1 and 3 as the specification gives it: the starts of the
  windows, \<open>line = first; line < limit; line += step\<close>, and for \<open>repeat\<close> passes, every
  window start and every offset below \<open>block\<close>, one call.
\<close>

function window_starts :: "int \<Rightarrow> int \<Rightarrow> int \<Rightarrow> int list" where
  "window_starts line step limit =
     (if 0 < step \<and> line < limit then line # window_starts (line + step) step limit else [])"
  by pat_completeness auto
termination
  by (relation "measure (\<lambda>(line, step, limit). nat (limit - line))") auto

definition spec_schedule :: "(int \<Rightarrow> int \<Rightarrow> int \<Rightarrow> line_call) \<Rightarrow> int \<Rightarrow> int \<Rightarrow> int \<Rightarrow> int \<Rightarrow> line_call list" where
  "spec_schedule call total_lines repeat step block =
     concat (map (\<lambda>n.
       concat (map (\<lambda>line. map (\<lambda>offset. call n line offset) [0..block - 1])
                 (window_starts (step - block) step (total_lines + step))))
       [0..repeat - 1])"

text \<open>
  The call at one position: a dummy line when \<open>pos\<close> is below 0 or above the number of
  lines, a blanking line at offset 0 of the last pass, a working line otherwise.
\<close>

definition spec_fixed_call :: "u8 \<Rightarrow> EPD_stage \<Rightarrow> int \<Rightarrow> int \<Rightarrow> int \<Rightarrow> int \<Rightarrow> int \<Rightarrow> line_call" where
  "spec_fixed_call val stage total_lines repeat n line offset =
     (let pos = line + offset in
      if pos < 0 \<or> pos > total_lines then (0x7fff, 0, 0x00, EPD_normal, 0x00)
      else if offset = 0 \<and> n = repeat - 1 then (word_of_int pos, 0, 0x00, EPD_normal, 0x00)
      else (word_of_int pos, 0, val, stage, 0x00))"

text \<open>
  The events of \<open>EPD_begin\<close> as the specification lists them: the power-up of the pins,
  the polling of the busy pin (\<open>k\<close> reads of high, then one of low), the probes and the
  register program up to the 5 ms wait, one charge-pump bring-up cycle (positive pump,
  240 ms, negative pump, 40 ms, Vcom, 40 ms, the DC state read), and the closing
  output-enable write.
\<close>

definition spec_power_up :: "EPD_struct \<Rightarrow> event list" where
  "spec_power_up epd =
     [Ev_gpio_write (EPD_Pin_RESET epd) 0, Ev_gpio_write (EPD_Pin_PANEL_ON epd) 0,
      Ev_gpio_write (EPD_Pin_DISCHARGE epd) 0, Ev_gpio_write (EPD_Pin_BORDER epd) 0,
      Ev_spi_on (spi epd), Ev_usleep 5000,
      Ev_gpio_write (EPD_Pin_PANEL_ON epd) 1, Ev_usleep 10000,
      Ev_gpio_write (EPD_Pin_RESET epd) 1, Ev_gpio_write (EPD_Pin_BORDER epd) 1, Ev_usleep 5000,
      Ev_gpio_write (EPD_Pin_RESET epd) 0, Ev_usleep 5000,
      Ev_gpio_write (EPD_Pin_RESET epd) 1, Ev_usleep 5000]"

definition spec_busy_poll :: "EPD_struct \<Rightarrow> nat \<Rightarrow> event list" where
  "spec_busy_poll epd k =
     concat (replicate k [Ev_gpio_read (EPD_Pin_BUSY epd), Ev_usleep 10])
       @ [Ev_gpio_read (EPD_Pin_BUSY epd)]"

definition spec_cog_id_probe :: "EPD_struct \<Rightarrow> event list" where
  "spec_cog_id_probe epd =
     [Ev_spi_read (spi epd) [0x71, 0x00] 2, Ev_spi_read (spi epd) [0x71, 0x00] 2]"

definition spec_breakage_probe :: "EPD_struct \<Rightarrow> event list" where
  "spec_breakage_probe epd =
     [Ev_spi_send (spi epd) [0x70, 0x02], Ev_spi_send (spi epd) [0x72, 0x40],
      Ev_spi_send (spi epd) [0x70, 0x0f], Ev_spi_read (spi epd) [0x73, 0x00] 2]"

definition spec_register_program :: "EPD_struct \<Rightarrow> event list" where
  "spec_register_program epd =
     [Ev_spi_send (spi epd) [0x70, 0x0b], Ev_spi_send (spi epd) [0x72, 0x02],
      Ev_spi_send (spi epd) [0x70, 0x01],
      Ev_spi_send (spi epd) (take (channel_select_length epd) (channel_select epd)),
      Ev_spi_send (spi epd) [0x70, 0x07], Ev_spi_send (spi epd) [0x72, 0xd1],
      Ev_spi_send (spi epd) [0x70, 0x08], Ev_spi_send (spi epd) [0x72, 0x02],
      Ev_spi_send (spi epd) [0x70, 0x09], Ev_spi_send (spi epd) [0x72, 0xc2],
      Ev_spi_send (spi epd) [0x70, 0x04], Ev_spi_send (spi epd) [0x72, 0x03],
      Ev_spi_send (spi epd) [0x70, 0x03], Ev_spi_send (spi epd) [0x72, 0x01],
      Ev_spi_send (spi epd) [0x70, 0x03], Ev_spi_send (spi epd) [0x72, 0x00],
      Ev_usleep 5000]"

definition spec_bring_up_cycle :: "EPD_struct \<Rightarrow> event list" where
  "spec_bring_up_cycle epd =
     [Ev_spi_send (spi epd) [0x70, 0x05], Ev_spi_send (spi epd) [0x72, 0x01], Ev_usleep (1000 * 240),
      Ev_spi_send (spi epd) [0x70, 0x05], Ev_spi_send (spi epd) [0x72, 0x03], Ev_usleep (1000 * 40),
      Ev_spi_send (spi epd) [0x70, 0x05], Ev_spi_send (spi epd) [0x72, 0x0f], Ev_usleep (1000 * 40),
      Ev_spi_send (spi epd) [0x70, 0x0f], Ev_spi_read (spi epd) [0x73, 0x00] 2]"

definition spec_output_disable :: "EPD_struct \<Rightarrow> event list" where
  "spec_output_disable epd =
     [Ev_spi_send (spi epd) [0x70, 0x02], Ev_spi_send (spi epd) [0x72, 0x40], Ev_spi_off (spi epd)]"

text \<open>
  The events of \<open>power_off\<close>: reset, panel-on and border low, SPI closed, then ten
  discharge pulses with 10 ms before each edge.
\<close>

definition spec_power_off :: "EPD_struct \<Rightarrow> event list" where
  "spec_power_off epd =
     [Ev_power_off, Ev_gpio_write (EPD_Pin_RESET epd) 0, Ev_gpio_write (EPD_Pin_PANEL_ON epd) 0,
      Ev_gpio_write (EPD_Pin_BORDER epd) 0, Ev_spi_off (spi epd)]
     @ concat (replicate 10
         [Ev_usleep 10000, Ev_gpio_write (EPD_Pin_DISCHARGE epd) 1,
          Ev_usleep 10000, Ev_gpio_write (EPD_Pin_DISCHARGE epd) 0])"

text \<open>
  The status \<open>EPD_begin\<close> ends with, from the replies to its SPI reads: the second
  reply is the COG id, the third the breakage byte, the fourth to seventh the DC state of
  the up to four bring-up attempts. And the microseconds slept in a list of events.
\<close>

definition spec_begin_status :: "(nat \<Rightarrow> u8) stream \<Rightarrow> EPD_error" where
  "spec_begin_status replies =
     (if 0x0f AND (replies !! 1) 1 \<noteq> 0x02 then EPD_UNSUPPORTED_COG
      else if 0x80 AND (replies !! 2) 1 = 0 then EPD_PANEL_BROKEN
      else if 0x40 AND (replies !! 3) 1 \<noteq> 0x40 \<and> 0x40 AND (replies !! 4) 1 \<noteq> 0x40 \<and>
              0x40 AND (replies !! 5) 1 \<noteq> 0x40 \<and> 0x40 AND (replies !! 6) 1 \<noteq> 0x40
           then EPD_DC_FAILED
      else EPD_OK)"

fun slept :: "event list \<Rightarrow> int" where
  "slept [] = 0"
| "slept (Ev_usleep us # es) = us + slept es"
| "slept (e # es) = slept es"

text \<open>The values assigned to \<open>epd->status\<close> in a list of events, in order.\<close>

fun status_writes :: "event list \<Rightarrow> EPD_error list" where
  "status_writes [] = []"
| "status_writes (Ev_status st # es) = st # status_writes es"
| "status_writes (e # es) = status_writes es"

text \<open>The busy pin reads high \<open>k\<close> times and then low.\<close>

definition busy_for :: "nat \<Rightarrow> int stream \<Rightarrow> bool" where
  "busy_for k s = (stake k s = replicate k 1 \<and> s !! k \<noteq> 1)"

text \<open>
  Two worlds for \<open>EPD_begin\<close>: the busy pin reads high twice and then low, the COG id
  reply is \<open>0x12\<close>, the breakage reply \<open>0x80\<close>, and every DC reply is \<open>0x40\<close> in the
  first world and \<open>0x00\<close> in the second.
\<close>

definition demo_begin_ok :: world where
  "demo_begin_ok =
     (snd demo_created)\<lparr>gpio_in := 1 ## 1 ## sconst 0,
        spi_in := (\<lambda>i. 0x12) ## (\<lambda>i. 0x12) ## (\<lambda>i. 0x80) ## sconst (\<lambda>i. 0x40)\<rparr>"

definition demo_begin_fail :: world where
  "demo_begin_fail =
     (snd demo_created)\<lparr>gpio_in := 1 ## 1 ## sconst 0,
        spi_in := (\<lambda>i. 0x12) ## (\<lambda>i. 0x12) ## (\<lambda>i. 0x80) ## sconst (\<lambda>i. 0x00)\<rparr>"

text \<open>The number of \<open>timer_gettime\<close> queries in a trace.\<close>

fun timer_queries :: "event list \<Rightarrow> nat" where
  "timer_queries [] = 0"
| "timer_queries (Ev_timer_gettime t # es) = Suc (timer_queries es)"
| "timer_queries (e # es) = timer_queries es"

text \<open>
  A world for stage 2: the handle is ready, \<open>timer_settime\<close> succeeds, and every
  \<open>timer_gettime\<close> succeeds and reports 0 seconds and 100000000 nanoseconds remaining.
\<close>

definition demo_timed :: world where
  "demo_timed = (snd demo_created)\<lparr>gettime_in := sconst (0, 0, 100000000)\<rparr>"

text \<open>
  The call of \<open>frame_data_13\<close> at one position: as for \<open>frame_fixed_13\<close>, with the row
  of the image at \<open>pos\<close> as data of a working line.
\<close>

definition spec_data_call :: "nat \<Rightarrow> EPD_stage \<Rightarrow> int \<Rightarrow> int \<Rightarrow> int \<Rightarrow> int \<Rightarrow> int \<Rightarrow> int \<Rightarrow> line_call" where
  "spec_data_call img stage total_lines bpl repeat n line offset =
     (let pos = line + offset in
      if pos < 0 \<or> pos > total_lines then (0x7fff, 0, 0x00, EPD_normal, 0x00)
      else if offset = 0 \<and> n = repeat - 1 then (word_of_int pos, 0, 0x00, EPD_normal, 0x00)
      else (word_of_int pos, img + nat (pos * bpl), 0, stage, 0x00))"

text \<open>
  A handle as \<open>EPD_create\<close> and \<open>EPD_set_temperature\<close> leave it: the geometry of its
  size, and \<open>compensation\<close> at one of the three rows of the table of its size.
\<close>

definition configured :: "EPD_struct \<Rightarrow> bool" where
  "configured epd =
     (panel_handle epd \<and> fst (compensation epd) = spec_table (size_tag epd) \<and>
      snd (compensation epd) < 3)"

text \<open>The size in bytes of the image buffer as documented: one row per line.\<close>

definition spec_image_size :: "EPD_struct \<Rightarrow> nat" where
  "spec_image_size epd = nat (lines_per_display epd) * nat (bytes_per_line epd)"

text \<open>
  A run that ends in a world leaves an observation of the world as it was; and a world
  whose timer calls all succeed and whose timer, at every query, has no time left by the
  test of \<open>frame_fixed_timed\<close>.
\<close>

definition keeps :: "(world \<Rightarrow> 'a) \<Rightarrow> world \<Rightarrow> error + world \<Rightarrow> bool" where
  "keeps obs w r = (case r of Inl e \<Rightarrow> True | Inr w' \<Rightarrow> obs w' = obs w)"

definition timer_lapsed :: "world \<Rightarrow> bool" where
  "timer_lapsed w =
     ((\<forall>r \<in> sset (settime_in w). r \<noteq> - 1) \<and>
      (\<forall>q \<in> sset (gettime_in w). fst q \<noteq> - 1 \<and> \<not> (0 < fst (snd q) \<and> 0 < snd (snd q))))"

section \<open>Lemmas\<close>

subsection \<open>The loops of \<open>one_line\<close> in closed form\<close>

lemma put_ok: "p < length buf \<Longrightarrow> put v (buf, p) = Inr (buf[p := v], Suc p)"
  by (simp add: put_def)

lemma take_Suc_upd: "p < length buf \<Longrightarrow> take (Suc p) (buf[p := v]) = take p buf @ [v]"
  by (simp add: take_Suc_conv_app_nth)

lemma uint_less_iff: "uint (b::u16) < int n \<longleftrightarrow> unat b < n"
  by (metis of_nat_less_iff uint_nat)

lemma unat_succ_u16: "unat (b::u16) < n \<Longrightarrow> n \<le> 65535 \<Longrightarrow> unat (b + 1) = Suc (unat b)"
proof -
  assume a: "unat b < n" "n \<le> 65535"
  have "unat (b + 1) = (unat b + 1) mod 2 ^ 16" by (simp add: unat_word_ariths)
  also have "\<dots> = unat b + 1" using a by simp
  finally show ?thesis by simp
qed

lemma odd_pixels_fill:
  "p + unat b \<le> length buf \<Longrightarrow>
   odd_pixels m data fv stage b (buf, p) =
     Inr (take p buf @ map (\<lambda>k. if data \<noteq> 0 then odd_byte stage (m (data + k)) else fv) (rev [0..<unat b])
            @ drop (p + unat b) buf, p + unat b)"
proof (induction "unat b" arbitrary: b buf p)
  case 0
  then have "b = 0" by (simp add: unat_eq_0)
  then show ?case by (subst odd_pixels.simps) simp
next
  case (Suc n)
  from Suc.hyps(2) have pos: "0 < b" by (metis unat_gt_0 zero_less_Suc word_gt_0)
  have n: "unat (b - 1) = n" using Suc.hyps(2) pos by (simp add: unat_minus_one word_greater_zero_iff)
  have plt: "p < length buf" using Suc.prems Suc.hyps(2) by simp
  let ?v = "if data \<noteq> 0 then odd_byte stage (m (data + (unat b - 1))) else fv"
  have ih: "odd_pixels m data fv stage (b - 1) (buf[p := ?v], Suc p) =
     Inr (take (Suc p) (buf[p := ?v]) @ map (\<lambda>k. if data \<noteq> 0 then odd_byte stage (m (data + k)) else fv) (rev [0..<unat (b - 1)])
            @ drop (Suc p + unat (b - 1)) (buf[p := ?v]), Suc p + unat (b - 1))"
    using Suc.hyps(1)[of "b - 1" "Suc p" "buf[p := ?v]"] n Suc.prems Suc.hyps(2) by simp
  show ?case
    apply (subst odd_pixels.simps)
    using pos plt ih n Suc.hyps(2)[symmetric]
    apply (simp add: put_ok take_Suc_upd)
    done
qed

lemma scan_bytes_fill:
  "unat b \<le> n \<Longrightarrow> n \<le> 65535 \<Longrightarrow> p + (n - unat b) \<le> length buf \<Longrightarrow>
   scan_bytes (int n) sp sh b (buf, p) =
     Inr (take p buf @ map (\<lambda>k. if sp = int k then push_bit sh 0x03 else 0x00) [unat b..<n]
            @ drop (p + (n - unat b)) buf, p + (n - unat b))"
proof (induction "n - unat b" arbitrary: b buf p)
  case 0
  then have "\<not> uint b < int n" by (simp only: uint_less_iff)
  with 0 show ?case by (subst scan_bytes.simps) simp
next
  case (Suc k)
  from Suc.hyps(2) have lt: "unat b < n" by simp
  then have lt': "uint b < int n" by (simp only: uint_less_iff)
  from lt Suc.prems have nowrap: "unat (b + 1) = Suc (unat b)"
    by (simp add: unat_succ_u16)
  have plt: "p < length buf" using Suc.prems Suc.hyps(2) by simp
  let ?v = "if sp = uint b then push_bit sh (0x03::u8) else 0x00"
  have ih: "scan_bytes (int n) sp sh (b + 1) (buf[p := ?v], Suc p) =
     Inr (take (Suc p) (buf[p := ?v]) @ map (\<lambda>k. if sp = int k then push_bit sh 0x03 else 0x00) [unat (b + 1)..<n]
            @ drop (Suc p + (n - unat (b + 1))) (buf[p := ?v]), Suc p + (n - unat (b + 1)))"
    apply (rule Suc.hyps(1))
    using nowrap Suc.prems Suc.hyps(2) lt
    by simp_all
  have up: "[unat b..<n] = unat b # [Suc (unat b)..<n]"
    using lt by (simp add: upt_conv_Cons)
  have dr: "Suc p + (n - Suc (unat b)) = p + (n - unat b)" using lt by simp
  show ?case
    apply (subst scan_bytes.simps)
    apply (simp only: lt' if_True put_ok[OF plt] sum.case ih nowrap up dr take_Suc_upd[OF plt])
    apply (simp only: uint_nat)
    using lt apply simp
    done
qed

lemma even_pixels_fill:
  "unat b \<le> n \<Longrightarrow> n \<le> 65535 \<Longrightarrow> p + (n - unat b) \<le> length buf \<Longrightarrow>
   even_pixels (int n) m data fv stage b (buf, p) =
     Inr (take p buf @ map (\<lambda>k. if data \<noteq> 0 then even_byte stage (m (data + k)) else fv) [unat b..<n]
            @ drop (p + (n - unat b)) buf, p + (n - unat b))"
proof (induction "n - unat b" arbitrary: b buf p)
  case 0
  then have "\<not> uint b < int n" by (simp only: uint_less_iff)
  with 0 show ?case by (subst even_pixels.simps) simp
next
  case (Suc k)
  from Suc.hyps(2) have lt: "unat b < n" by simp
  then have lt': "uint b < int n" by (simp only: uint_less_iff)
  from lt Suc.prems have nowrap: "unat (b + 1) = Suc (unat b)"
    by (simp add: unat_succ_u16)
  have plt: "p < length buf" using Suc.prems Suc.hyps(2) by simp
  let ?v = "if data \<noteq> 0 then even_byte stage (m (data + unat b)) else fv"
  have ih: "even_pixels (int n) m data fv stage (b + 1) (buf[p := ?v], Suc p) =
     Inr (take (Suc p) (buf[p := ?v]) @ map (\<lambda>k. if data \<noteq> 0 then even_byte stage (m (data + k)) else fv) [unat (b + 1)..<n]
            @ drop (Suc p + (n - unat (b + 1))) (buf[p := ?v]), Suc p + (n - unat (b + 1)))"
    apply (rule Suc.hyps(1))
    using nowrap Suc.prems Suc.hyps(2) lt
    by simp_all
  have up: "[unat b..<n] = unat b # [Suc (unat b)..<n]"
    using lt by (simp add: upt_conv_Cons)
  have dr: "Suc p + (n - Suc (unat b)) = p + (n - unat b)" using lt by simp
  show ?case
    apply (subst even_pixels.simps)
    apply (simp only: lt' if_True put_ok[OF plt] sum.case ih nowrap up dr take_Suc_upd[OF plt])
    using lt apply simp
    done
qed

lemma length_parts [simp]:
  "length (odd_part bpl m data fv stage) = bpl"
  "length (scan_part bps L line) = bps"
  "length (even_part bpl m data fv stage) = bpl"
  by (simp_all add: odd_part_def scan_part_def even_part_def)

lemma fill_line_frame:
  assumes bpl: "bytes_per_line epd = int bpl" "bpl \<le> 65535"
      and bps: "bytes_per_scan epd = int bps" "bps \<le> 65535"
      and len: "2 + bpl + bps + bpl \<le> length buf"
  shows "fill_line epd line m data fv stage border buf =
     Inr (line_frame epd line m data fv stage border @ drop (2 + bpl + bps + bpl) buf, 2 + bpl + bps + bpl)"
proof -
  have ub: "unat (word_of_int (int bpl) :: u16) = bpl"
    using bpl(2) by (simp add: unat_of_nat)
  have ub': "unat (of_nat bpl :: u16) = bpl"
    using bpl(2) by (simp add: unat_of_nat)
  let ?o = "odd_part bpl m data fv stage"
  let ?s = "scan_part bps (lines_per_display epd) line"
  let ?e = "even_part bpl m data fv stage"
  let ?b1 = "buf[0 := 0x72]"
  let ?b2 = "?b1[Suc 0 := border]"
  have p1: "put 0x72 (buf, 0) = Inr (?b1, Suc 0)" using len by (auto simp: put_def)
  have p2: "put border (?b1, Suc 0) = Inr (?b2, 2)" using len by (auto simp: put_def numeral_2_eq_2)
  have hd2: "take 2 ?b2 = [0x72, border]"
    using len by (cases buf; cases "tl buf") auto
  have dr2: "drop (2 + k) ?b2 = drop (2 + k) buf" for k by simp
  let ?b3 = "[0x72, border] @ ?o @ drop (2 + bpl) buf"
  have o: "odd_pixels m data fv stage (word_of_int (int bpl)) (?b2, 2) = Inr (?b3, 2 + bpl)"
    using odd_pixels_fill[of 2 "word_of_int (int bpl)" ?b2 m data fv stage] len
    by (simp add: ub ub' hd2 odd_part_def)
  let ?b4 = "[0x72, border] @ ?o @ ?s @ drop (2 + bpl + bps) buf"
  have s: "scan_bytes (int bps) ((lines_per_display epd - uint line - 1) sdiv 4)
             (2 * unat (line AND 0x03)) 0 (?b3, 2 + bpl) = Inr (?b4, 2 + bpl + bps)"
    using scan_bytes_fill[of 0 bps "2 + bpl" ?b3 "(lines_per_display epd - uint line - 1) sdiv 4"
            "2 * unat (line AND 0x03)"] len bps(2)
    by (simp add: scan_part_def ac_simps)
  let ?b5 = "[0x72, border] @ ?o @ ?s @ ?e @ drop (2 + bpl + bps + bpl) buf"
  have e: "even_pixels (int bpl) m data fv stage 0 (?b4, 2 + bpl + bps) = Inr (?b5, 2 + bpl + bps + bpl)"
    using even_pixels_fill[of 0 bpl "2 + bpl + bps" ?b4 m data fv stage] len bpl(2)
    by (simp add: even_part_def ac_simps)
  show ?thesis
    unfolding fill_line_def line_frame_def
    by (simp only: p1 p2 sum.case bpl(1) bps(1) o s e Let_def nat_int append_assoc)
qed

lemma panel_handle_cases:
  assumes "panel_handle epd"
  obtains "lines_per_display epd = 96" "bytes_per_line epd = 16" "bytes_per_scan epd = 24" "line_buffer_size epd = 59"
  | "lines_per_display epd = 96" "bytes_per_line epd = 25" "bytes_per_scan epd = 24" "line_buffer_size epd = 77"
  | "lines_per_display epd = 176" "bytes_per_line epd = 33" "bytes_per_scan epd = 44" "line_buffer_size epd = 113"
  using assms unfolding panel_handle_def spec_geometry_def
  by (cases "size_tag epd") auto

lemma panel_handle_nat:
  assumes "panel_handle epd"
  shows "bytes_per_line epd = int (nat (bytes_per_line epd))" "nat (bytes_per_line epd) \<le> 65535"
        "bytes_per_scan epd = int (nat (bytes_per_scan epd))" "nat (bytes_per_scan epd) \<le> 65535"
        "line_buffer_size epd = 2 + nat (bytes_per_line epd) + nat (bytes_per_scan epd) + nat (bytes_per_line epd) + 1"
  using assms by (auto elim!: panel_handle_cases)

lemma length_line_frame:
  "length (line_frame epd line m data fv stage border) =
     2 + nat (bytes_per_line epd) + nat (bytes_per_scan epd) + nat (bytes_per_line epd)"
  by (simp add: line_frame_def)

lemma one_line_ready:
  assumes "ready epd w"
  shows "\<exists>buf. heap w (line_buffer epd) = Some buf \<and>
     one_line epd line data fv stage border w =
       Inr (emit (Ev_one_line line data fv stage border
                    # line_session (spi epd) (line_frame epd line (mem w) data fv stage border))
              (w\<lparr>heap := (heap w)(line_buffer epd \<mapsto>
                    line_frame epd line (mem w) data fv stage border
                      @ drop (length (line_frame epd line (mem w) data fv stage border)) buf)\<rparr>))"
proof -
  from assms obtain buf where buf: "heap w (line_buffer epd) = Some buf"
    and len: "length buf = line_buffer_size epd" and ph: "panel_handle epd"
    by (auto simp: ready_def split: option.splits)
  let ?n = "2 + nat (bytes_per_line epd) + nat (bytes_per_scan epd) + nat (bytes_per_line epd)"
  let ?f = "line_frame epd line (mem w) data fv stage border"
  have fill: "fill_line epd line (mem w) data fv stage border buf = Inr (?f @ drop ?n buf, ?n)"
    using panel_handle_nat[OF ph] len
    by (intro fill_line_frame) simp_all
  have tk: "take ?n (?f @ drop ?n buf) = ?f"
    by (simp add: length_line_frame)
  show ?thesis
    using buf
    by (simp add: one_line_def Let_def emit_def SPI_on_def SPI_send_def SPI_off_def Delay_us_def
          fill tk line_session_def length_line_frame)
qed

subsection \<open>\<open>one_line\<close> on a ready handle\<close>

lemma regions_line_frame:
  "odd_region epd (line_frame epd line m data fv stage border) = odd_part (nat (bytes_per_line epd)) m data fv stage"
  "scan_region epd (line_frame epd line m data fv stage border) = scan_part (nat (bytes_per_scan epd)) (lines_per_display epd) line"
  "even_region epd (line_frame epd line m data fv stage border) = even_part (nat (bytes_per_line epd)) m data fv stage"
  by (simp_all add: odd_region_def scan_region_def even_region_def line_frame_def)

lemma odd_byte_spec: "odd_byte stage b = spec_odd stage b"
  by (cases stage) (simp_all add: odd_byte_def spec_odd_def)

lemma even_byte_spec: "even_byte stage b = spec_even stage b"
  by (cases stage) (simp_all add: even_byte_def spec_even_def spec_pair_reverse_def Let_def)

lemma one_line_trace:
  assumes "ready epd w"
  shows "\<exists>w'. one_line epd line data fv stage border w = Inr w' \<and>
     trace w' = trace w @ Ev_one_line line data fv stage border
                  # line_session (spi epd) (line_frame epd line (mem w) data fv stage border)"
  using one_line_ready[OF assms, of line data fv stage border]
  by (auto simp: emit_def)

subsection \<open>Created handles\<close>

lemma sdiv_consts [simp]:
  "(128::int) sdiv 8 = 16" "(96::int) sdiv 4 = 24" "(200::int) sdiv 8 = 25"
  "(264::int) sdiv 8 = 33" "(176::int) sdiv 4 = 44"
  by (simp_all add: signed_divide_int_def)

lemma EPD_create_ready:
  assumes "EPD_create sz pon bor dis rst bsy s w0 = (p, w1)" and "p \<noteq> 0"
  shows "\<exists>epd. handles w1 p = Some epd \<and> ready epd w1 \<and> size_tag epd = sz \<and> spi epd = s
           \<and> line_buffer epd \<noteq> 0 \<and> compensation epd = (spec_table sz, 1)
           \<and> timer epd \<in> timers w1"
  using assms
  unfolding EPD_create_def malloc_def warn_def emit_def
  by (cases sz)
     (auto simp: Let_def ready_def panel_handle_def spec_geometry_def EPD_set_temperature_def
        spec_table_def split: prod.splits if_splits)

lemma demo_created_eq: "fst demo_created = 4096"
  by (simp add: demo_created_def EPD_create_def demo_world_def malloc_def Let_def)

lemma demo_ready: "ready demo_epd (snd demo_created)"
proof -
  obtain p w1 where c: "EPD_create EPD_2_0 136 195 196 139 138 1 demo_world = (p, w1)"
    by (cases "EPD_create EPD_2_0 136 195 196 139 138 1 demo_world")
  with demo_created_eq have "p \<noteq> 0" by (simp add: demo_created_def)
  from EPD_create_ready[OF c this] c show ?thesis
    by (auto simp: demo_epd_def demo_created_def)
qed

lemma demo_fields:
  "lines_per_display demo_epd = 96" "bytes_per_line demo_epd = 25" "bytes_per_scan demo_epd = 24"
  "line_buffer_size demo_epd = 77" "line_buffer demo_epd = 8192" "spi demo_epd = 1"
  "compensation demo_epd = (Compensation_200, 1)" "timer demo_epd = 7"
  "mem (snd demo_created) = of_nat" "trace (snd demo_created) = []"
  "timers (snd demo_created) = {7}"
  by (simp_all add: demo_epd_def demo_created_def EPD_create_def demo_world_def malloc_def Let_def
        EPD_set_temperature_def demo_struct_def)

subsection \<open>The scan selector\<close>

lemma sdiv_nonneg: "0 \<le> a \<Longrightarrow> a sdiv 4 = a div (4::int)"
  by (simp add: signed_divide_int_def sgn_if)

lemma unat_and_3: "unat ((x::u16) AND 0x03) = unat x mod 4"
proof -
  have "x AND 0x03 = take_bit 2 x"
    by (simp add: take_bit_eq_mask mask_eq_exp_minus_1)
  then have "unat (x AND 0x03) = take_bit 2 (unat x)"
    by (simp only: unsigned_take_bit_eq)
  then show ?thesis by (simp add: take_bit_eq_mod)
qed

lemma selector_nonzero: "push_bit (2 * (k mod 4)) (0x03::u8) \<noteq> 0"
proof -
  have "k mod 4 = 0 \<or> k mod 4 = 1 \<or> k mod 4 = 2 \<or> k mod 4 = 3" by arith
  then show ?thesis by (elim disjE) simp_all
qed

lemma scan_part_one_hot:
  assumes "0 \<le> L - uint line - 1"
  shows "scan_part n L line =
     (replicate n 0)[nat ((L - uint line - 1) div 4) := push_bit (2 * (unat line mod 4)) 0x03]"
proof (rule nth_equalityI)
  show "length (scan_part n L line) = length ((replicate n (0::u8))[nat ((L - uint line - 1) div 4) := push_bit (2 * (unat line mod 4)) 0x03])"
    by simp
next
  fix i assume "i < length (scan_part n L line)"
  then have i: "i < n" by simp
  have eq: "((L - uint line - 1) div 4 = int i) = (nat ((L - uint line - 1) div 4) = i)"
    using assms by auto
  show "scan_part n L line ! i = (replicate n 0)[nat ((L - uint line - 1) div 4) := push_bit (2 * (unat line mod 4)) 0x03] ! i"
    using i assms
    by (simp add: scan_part_def sdiv_nonneg unat_and_3 eq nth_list_update)
qed

lemma scan_part_sentinel:
  assumes "panel_handle epd"
  shows "scan_part n (lines_per_display epd) 0x7fff = replicate n 0"
  using assms
  by (elim panel_handle_cases) (simp_all add: scan_part_def signed_divide_int_def map_replicate_const)

lemma scan_index_in_range:
  assumes "panel_handle epd" "uint line < lines_per_display epd"
  shows "nat ((lines_per_display epd - uint line - 1) div 4) < nat (bytes_per_scan epd)"
proof -
  have bound: "nat ((4 * n - x - 1) div 4) < nat n" if "0 \<le> x" "x < 4 * n" for x n :: int
  proof -
    have "(4 * n - x - 1) div 4 < n" using that by linarith
    moreover have "0 < n" using that by simp
    ultimately show ?thesis by simp
  qed
  have g: "lines_per_display epd = 4 * bytes_per_scan epd"
    using assms(1) by (elim panel_handle_cases) simp_all
  show ?thesis
    using bound[of "uint line" "bytes_per_scan epd"] assms(2) g by simp
qed

subsection \<open>The schedule of \<open>frame_fixed_13\<close>\<close>

declare window_starts.simps [simp del]

lemma one_line_calls_append [simp]:
  "one_line_calls (xs @ ys) = one_line_calls xs @ one_line_calls ys"
  by (induction xs rule: one_line_calls.induct) simp_all

lemma one_line_calls_session [simp]: "one_line_calls (line_session s frame) = []"
  by (simp add: line_session_def)

lemma one_line_call:
  assumes "ready epd w"
  shows "\<exists>w'. one_line epd line data fv stage border w = Inr w' \<and> ready epd w' \<and>
           mem w' = mem w \<and>
           one_line_calls (trace w') = one_line_calls (trace w) @ [(line, data, fv, stage, border)]"
proof -
  from one_line_ready[OF assms, of line data fv stage border]
  obtain buf where buf: "heap w (line_buffer epd) = Some buf"
    and ol: "one_line epd line data fv stage border w =
       Inr (emit (Ev_one_line line data fv stage border
                    # line_session (spi epd) (line_frame epd line (mem w) data fv stage border))
              (w\<lparr>heap := (heap w)(line_buffer epd \<mapsto>
                    line_frame epd line (mem w) data fv stage border
                      @ drop (length (line_frame epd line (mem w) data fv stage border)) buf)\<rparr>))"
    by blast
  from assms buf have len: "length buf = line_buffer_size epd" and ph: "panel_handle epd"
    by (simp_all add: ready_def)
  have "length (line_frame epd line (mem w) data fv stage border) < line_buffer_size epd"
    using panel_handle_nat(5)[OF ph] by (simp add: length_line_frame)
  with ol len ph show ?thesis
    by (simp add: emit_def ready_def)
qed

lemma fixed_13_pos_call:
  assumes "ready epd w"
  shows "\<exists>w'. fixed_13_pos epd val stage total_lines n repeat line offset w = Inr w' \<and> ready epd w' \<and>
           mem w' = mem w \<and>
           one_line_calls (trace w') =
             one_line_calls (trace w) @ [spec_fixed_call val stage total_lines repeat n line offset]"
  unfolding fixed_13_pos_def spec_fixed_call_def Let_def
  using one_line_call[OF assms] by auto

lemma fixed_13_block_calls:
  assumes "ready epd w"
  shows "\<exists>w'. fixed_13_block epd val stage total_lines n repeat block line offset w = Inr w' \<and>
           ready epd w' \<and> mem w' = mem w \<and>
           one_line_calls (trace w') =
             one_line_calls (trace w)
               @ map (spec_fixed_call val stage total_lines repeat n line) [offset..block - 1]"
  using assms
proof (induction "nat (block - offset)" arbitrary: offset w)
  case 0
  then have "\<not> offset < block" by simp
  with 0 show ?case
    by (subst fixed_13_block.simps) simp
next
  case (Suc k)
  then have lt: "offset < block" by simp
  from fixed_13_pos_call[OF Suc.prems, of val stage total_lines n repeat line offset]
  obtain w1 where w1: "fixed_13_pos epd val stage total_lines n repeat line offset w = Inr w1"
    "ready epd w1" "mem w1 = mem w"
    "one_line_calls (trace w1) =
       one_line_calls (trace w) @ [spec_fixed_call val stage total_lines repeat n line offset]"
    by blast
  have k: "k = nat (block - (offset + 1))" using Suc.hyps(2) by simp
  from Suc.hyps(1)[OF k w1(2)]
  obtain w' where w': "fixed_13_block epd val stage total_lines n repeat block line (offset + 1) w1 = Inr w'"
    "ready epd w'" "mem w' = mem w1"
    "one_line_calls (trace w') =
       one_line_calls (trace w1)
         @ map (spec_fixed_call val stage total_lines repeat n line) [offset + 1..block - 1]"
    by blast
  have up: "[offset..block - 1] = offset # [offset + 1..block - 1]"
    using lt by (simp add: upto_rec1)
  show ?case
    apply (subst fixed_13_block.simps)
    using lt w1 w' by (simp add: up)
qed

lemma fixed_13_lines_calls:
  assumes "ready epd w" and "0 < step"
  shows "\<exists>w'. fixed_13_lines epd val stage total_lines n repeat step block line w = Some (Inr w') \<and>
           ready epd w' \<and> mem w' = mem w \<and>
           one_line_calls (trace w') =
             one_line_calls (trace w)
               @ concat (map (\<lambda>line. map (spec_fixed_call val stage total_lines repeat n line) [0..block - 1])
                           (window_starts line step (total_lines + step)))"
  using assms(1)
proof (induction "nat (total_lines + step - line)" arbitrary: line w rule: less_induct)
  case less
  show ?case
  proof (cases "line < total_lines + step")
    case False
    then show ?thesis
      using less.prems
      by (subst fixed_13_lines.simps, subst window_starts.simps) simp
  next
    case True
    from fixed_13_block_calls[OF less.prems, of val stage total_lines n repeat block line 0]
    obtain w1 where w1: "fixed_13_block epd val stage total_lines n repeat block line 0 w = Inr w1"
      "ready epd w1" "mem w1 = mem w"
      "one_line_calls (trace w1) =
         one_line_calls (trace w)
           @ map (spec_fixed_call val stage total_lines repeat n line) [0..block - 1]"
      by blast
    have dec: "nat (total_lines + step - (line + step)) < nat (total_lines + step - line)"
      using True assms(2) by simp
    from less.hyps[OF dec w1(2)]
    obtain w' where w': "fixed_13_lines epd val stage total_lines n repeat step block (line + step) w1 = Some (Inr w')"
      "ready epd w'" "mem w' = mem w1"
      "one_line_calls (trace w') =
         one_line_calls (trace w1)
           @ concat (map (\<lambda>line. map (spec_fixed_call val stage total_lines repeat n line) [0..block - 1])
                       (window_starts (line + step) step (total_lines + step)))"
      by blast
    show ?thesis
      apply (subst fixed_13_lines.simps)
      apply (subst window_starts.simps)
      using True assms(2) w1 w' by simp
  qed
qed

lemma fixed_13_repeats_calls:
  assumes "ready epd w" and "0 < step"
  shows "\<exists>w'. fixed_13_repeats epd val stage total_lines repeat step block n w = Some (Inr w') \<and>
           ready epd w' \<and> mem w' = mem w \<and>
           one_line_calls (trace w') =
             one_line_calls (trace w)
               @ concat (map (\<lambda>n.
                   concat (map (\<lambda>line. map (spec_fixed_call val stage total_lines repeat n line) [0..block - 1])
                             (window_starts (step - block) step (total_lines + step))))
                   [n..repeat - 1])"
  using assms(1)
proof (induction "nat (repeat - n)" arbitrary: n w)
  case 0
  then have "\<not> n < repeat" by simp
  with 0 show ?case
    by (subst fixed_13_repeats.simps) simp
next
  case (Suc k)
  then have lt: "n < repeat" by simp
  from fixed_13_lines_calls[OF Suc.prems assms(2), of val stage total_lines n repeat block "step - block"]
  obtain w1 where w1: "fixed_13_lines epd val stage total_lines n repeat step block (step - block) w = Some (Inr w1)"
    "ready epd w1" "mem w1 = mem w"
    "one_line_calls (trace w1) =
       one_line_calls (trace w)
         @ concat (map (\<lambda>line. map (spec_fixed_call val stage total_lines repeat n line) [0..block - 1])
                     (window_starts (step - block) step (total_lines + step)))"
    by blast
  have k: "k = nat (repeat - (n + 1))" using Suc.hyps(2) by simp
  from Suc.hyps(1)[OF k w1(2)]
  obtain w' where w': "fixed_13_repeats epd val stage total_lines repeat step block (n + 1) w1 = Some (Inr w')"
    "ready epd w'" "mem w' = mem w1"
    "one_line_calls (trace w') =
       one_line_calls (trace w1)
         @ concat (map (\<lambda>n.
             concat (map (\<lambda>line. map (spec_fixed_call val stage total_lines repeat n line) [0..block - 1])
                       (window_starts (step - block) step (total_lines + step))))
             [n + 1..repeat - 1])"
    by blast
  have up: "[n..repeat - 1] = n # [n + 1..repeat - 1]"
    using lt by (simp add: upto_rec1)
  show ?case
    apply (subst fixed_13_repeats.simps)
    using lt w1 w' by (simp add: up)
qed

lemma frame_fixed_13_schedule:
  assumes "ready epd w" and "deref_compensation (compensation epd) = Some c"
      and "repeat = (if EPD_inverse = stage then uint (stage1_repeat c) else uint (stage3_repeat c))"
      and "step = (if EPD_inverse = stage then uint (stage1_step c) else uint (stage3_step c))"
      and "block = (if EPD_inverse = stage then uint (stage1_block c) else uint (stage3_block c))"
      and "0 < step"
  shows "\<exists>w'. frame_fixed_13 epd val stage w = Some (Inr w') \<and> ready epd w' \<and> mem w' = mem w \<and>
           one_line_calls (trace w') =
             one_line_calls (trace w)
               @ spec_schedule (spec_fixed_call val stage (lines_per_display epd) repeat)
                   (lines_per_display epd) repeat step block"
  using fixed_13_repeats_calls[OF assms(1,6), of val stage "lines_per_display epd" repeat block 0]
  unfolding frame_fixed_13_def spec_schedule_def
  by (simp add: assms(2-5) Let_def)

lemma length_concat_const:
  assumes "\<And>x. x \<in> set xs \<Longrightarrow> length (f x) = m"
  shows "length (concat (map f xs)) = length xs * m"
  using assms by (induction xs) simp_all

lemma length_spec_schedule:
  "length (spec_schedule call total_lines repeat step block) =
     nat repeat * (length (window_starts (step - block) step (total_lines + step)) * nat block)"
proof -
  have inner: "length (concat (map (\<lambda>line. map (\<lambda>offset. call n line offset) [0..block - 1]) ls))
      = length ls * nat block" for n ls
    by (rule length_concat_const) simp
  show ?thesis
    unfolding spec_schedule_def
    by (subst length_concat_const[where m = "length (window_starts (step - block) step (total_lines + step)) * nat block"])
       (simp_all add: inner)
qed

lemma in_spec_schedule:
  "c \<in> set (spec_schedule call total_lines repeat step block) \<Longrightarrow>
     \<exists>n line offset. 0 \<le> n \<and> n < repeat \<and> 0 \<le> offset \<and> offset < block \<and> c = call n line offset"
  unfolding spec_schedule_def by fastforce

lemma window_starts_200: "length (window_starts (- 46) 2 98) = 72"
  by (simp add: window_starts.simps)

subsection \<open>The 2.0 inch panel at 25 degrees\<close>

lemma comp_200_25:
  assumes "size_tag epd = EPD_2_0" and "compensation epd = compensation (EPD_set_temperature epd 25)"
  shows "deref_compensation (compensation epd) = Some (comp 2 2 48  4 196 196  2 2 48)"
  using assms
  by (simp add: EPD_set_temperature_def deref_compensation_def compensation_200_def)

lemma uint_comp [simp]:
  "uint (stage1_repeat (comp r1 s1 b1 r2 t1 t2 r3 s3 b3)) = uint (of_nat r1 :: u16)"
  "uint (stage1_step (comp r1 s1 b1 r2 t1 t2 r3 s3 b3)) = uint (of_nat s1 :: u16)"
  "uint (stage1_block (comp r1 s1 b1 r2 t1 t2 r3 s3 b3)) = uint (of_nat b1 :: u16)"
  "uint (stage3_repeat (comp r1 s1 b1 r2 t1 t2 r3 s3 b3)) = uint (of_nat r3 :: u16)"
  "uint (stage3_step (comp r1 s1 b1 r2 t1 t2 r3 s3 b3)) = uint (of_nat s3 :: u16)"
  "uint (stage3_block (comp r1 s1 b1 r2 t1 t2 r3 s3 b3)) = uint (of_nat b3 :: u16)"
  by (simp_all add: comp_def)

lemma lines_200:
  assumes "panel_handle epd" and "size_tag epd = EPD_2_0"
  shows "lines_per_display epd = 96" "bytes_per_line epd = 25"
  using assms by (simp_all add: panel_handle_def spec_geometry_def)

lemma frame_fixed_13_200:
  assumes "ready epd w" and "size_tag epd = EPD_2_0"
      and "compensation epd = compensation (EPD_set_temperature epd 25)"
  shows "\<exists>w'. frame_fixed_13 epd 0xff EPD_inverse w = Some (Inr w') \<and>
           one_line_calls (trace w') =
             one_line_calls (trace w) @ spec_schedule (spec_fixed_call 0xff EPD_inverse 96 2) 96 2 2 48"
proof -
  from assms(1) have ph: "panel_handle epd" by (simp add: ready_def)
  have "\<exists>w'. frame_fixed_13 epd 0xff EPD_inverse w = Some (Inr w') \<and> ready epd w' \<and> mem w' = mem w \<and>
           one_line_calls (trace w') =
             one_line_calls (trace w)
               @ spec_schedule (spec_fixed_call 0xff EPD_inverse (lines_per_display epd) 2)
                   (lines_per_display epd) 2 2 48"
    by (rule frame_fixed_13_schedule[OF assms(1) comp_200_25[OF assms(2,3)]]) simp_all
  then show ?thesis
    unfolding lines_200(1)[OF ph assms(2)] by blast
qed

lemma demo_2_0: "size_tag demo_epd = EPD_2_0"
  "compensation demo_epd = compensation (EPD_set_temperature demo_epd 25)"
  by (simp_all add: demo_epd_def demo_created_def EPD_create_def demo_world_def malloc_def Let_def
        EPD_set_temperature_def demo_struct_def)

subsection \<open>\<open>power_off\<close> and \<open>EPD_begin\<close>\<close>

lemma busy_for_0: "busy_for 0 s = (shd s \<noteq> 1)"
  by (simp add: busy_for_def)

lemma busy_for_Suc: "busy_for (Suc k) s = (shd s = 1 \<and> busy_for k (stl s))"
  by (auto simp: busy_for_def)

lemma emit_emit: "emit es (emit ds w) = emit (ds @ es) w"
  by (simp add: emit_def)

lemma emit_fields [simp]:
  "trace (emit es w) = trace w @ es" "spi_in (emit es w) = spi_in w" "gpio_in (emit es w) = gpio_in w"
  "heap (emit es w) = heap w" "mem (emit es w) = mem w" "gettime_in (emit es w) = gettime_in w"
  "settime_in (emit es w) = settime_in w" "timers (emit es w) = timers w" "handles (emit es w) = handles w"
  by (simp_all add: emit_def)

lemma emit_update [simp]:
  "(emit es w)\<lparr>spi_in := x\<rparr> = emit es (w\<lparr>spi_in := x\<rparr>)"
  "(emit es w)\<lparr>gpio_in := y\<rparr> = emit es (w\<lparr>gpio_in := y\<rparr>)"
  by (simp_all add: emit_def)

lemmas io_emit = digitalWrite_def digitalRead_def Delay_us_def Delay_ms_def SPI_on_def SPI_off_def
  SPI_send_def SPI_read_def emit_emit

lemma wait_busy_returns:
  assumes "busy_for k (gpio_in w)"
  shows "wait_busy epd w =
     Some (emit (spec_busy_poll epd k) (w\<lparr>gpio_in := sdrop (Suc k) (gpio_in w)\<rparr>))"
  using assms
proof (induction k arbitrary: w)
  case 0
  then show ?case
    by (subst wait_busy.simps)
       (simp add: busy_for_0 io_emit spec_busy_poll_def)
next
  case (Suc k)
  let ?w1 = "Delay_us 10 (snd (digitalRead (EPD_Pin_BUSY epd) w))"
  from Suc.prems have hd: "shd (gpio_in w) = 1" and tl: "busy_for k (gpio_in ?w1)"
    by (simp_all add: busy_for_Suc io_emit)
  from Suc.IH[OF tl] hd show ?case
    by (subst wait_busy.simps)
       (simp add: io_emit spec_busy_poll_def)
qed

lemma wait_busy_spi_in:
  assumes "wait_busy epd w = Some w'"
  shows "spi_in w' = spi_in w"
proof (rule wait_busy.raw_induct[where P = "\<lambda>epd w w'. spi_in w' = spi_in w", OF _ assms])
  fix f e v y
  assume ih: "\<And>e v y. f e v = Some y \<Longrightarrow> spi_in y = spi_in v"
    and b: "(case digitalRead (EPD_Pin_BUSY e) v of
               (x, v) \<Rightarrow> if 1 = x then f e (Delay_us 10 v) else Some v) = Some y"
  show "spi_in y = spi_in v"
  proof (cases "1 = shd (gpio_in v)")
    case True
    with b have "f e (Delay_us 10 (snd (digitalRead (EPD_Pin_BUSY e) v))) = Some y"
      by (simp add: digitalRead_def)
    from ih[OF this] show ?thesis by (simp add: io_emit)
  next
    case False
    with b show ?thesis by (auto simp: io_emit)
  qed
qed

lemma replicate_4: "replicate 4 x = [x, x, x, x]"
  by (simp add: numeral_eq_Suc)

lemma discharge_pulses_emit:
  "i \<le> 10 \<Longrightarrow>
   discharge_pulses epd i w =
     emit (concat (replicate (nat (10 - i))
        [Ev_usleep 10000, Ev_gpio_write (EPD_Pin_DISCHARGE epd) 1,
         Ev_usleep 10000, Ev_gpio_write (EPD_Pin_DISCHARGE epd) 0])) w"
proof (induction "nat (10 - i)" arbitrary: i w)
  case 0
  then have "i = 10" by simp
  then show ?case by (subst discharge_pulses.simps) (simp add: emit_def)
next
  case (Suc k)
  then have lt: "i < 10" and k: "k = nat (10 - (i + 1))" and le: "i + 1 \<le> 10" by simp_all
  have r: "nat (10 - i) = Suc (nat (10 - (i + 1)))" using lt by simp
  show ?case
    apply (subst discharge_pulses.simps)
    using lt
    apply (simp only: Suc.hyps(1)[OF k le] if_True Let_def r replicate_Suc concat.simps)
    apply (simp add: io_emit)
    done
qed

lemma power_off_emit: "power_off epd w = emit (spec_power_off epd) w"
  by (simp add: power_off_def Let_def discharge_pulses_emit spec_power_off_def io_emit)

lemma snth_numerals:
  "s !! 1 = shd (stl s)" "s !! 2 = shd (stl (stl s))" "s !! 3 = shd (stl (stl (stl s)))"
  "s !! 4 = shd (stl (stl (stl (stl s))))" "s !! 5 = shd (stl (stl (stl (stl (stl s)))))"
  "s !! 6 = shd (stl (stl (stl (stl (stl (stl s))))))"
  by (simp_all add: eval_nat_numeral)

lemma sdrop_numerals:
  "sdrop 2 s = stl (stl s)" "sdrop 3 s = stl (stl (stl s))" "sdrop 4 s = stl (stl (stl (stl s)))"
  "sdrop 7 s = stl (stl (stl (stl (stl (stl (stl s))))))"
  by (simp_all add: eval_nat_numeral)

lemma begin_ready_ok:
  assumes "0x0f AND (spi_in w !! 1) 1 = 0x02"
      and "0 \<noteq> 0x80 AND (spi_in w !! 2) 1"
      and "0x40 AND (spi_in w !! 3) 1 = 0x40"
  shows "begin_ready epd w =
     (epd, emit (spec_cog_id_probe epd @ spec_breakage_probe epd
                @ spec_register_program epd @ spec_bring_up_cycle epd @ spec_output_disable epd)
             (w\<lparr>spi_in := sdrop 4 (spi_in w)\<rparr>))"
  using assms
  by (simp add: begin_ready_def Let_def io_emit charge_pumps.simps[of _ 0] snth_numerals sdrop_numerals
        spec_cog_id_probe_def spec_breakage_probe_def spec_register_program_def
        spec_bring_up_cycle_def spec_output_disable_def)

lemma begin_ready_dc_failed:
  assumes "0x0f AND (spi_in w !! 1) 1 = 0x02"
      and "0 \<noteq> 0x80 AND (spi_in w !! 2) 1"
      and "0x40 \<noteq> 0x40 AND (spi_in w !! 3) 1" and "0x40 \<noteq> 0x40 AND (spi_in w !! 4) 1"
      and "0x40 \<noteq> 0x40 AND (spi_in w !! 5) 1" and "0x40 \<noteq> 0x40 AND (spi_in w !! 6) 1"
  shows "begin_ready epd w =
     (epd\<lparr>status := EPD_DC_FAILED\<rparr>,
      power_off (epd\<lparr>status := EPD_DC_FAILED\<rparr>)
        (emit (spec_cog_id_probe epd @ spec_breakage_probe epd @ spec_register_program epd
                 @ concat (replicate 4 (spec_bring_up_cycle epd)) @ [Ev_status EPD_DC_FAILED])
           (w\<lparr>spi_in := sdrop 7 (spi_in w)\<rparr>)))"
  using assms
  by (simp add: begin_ready_def Let_def io_emit charge_pumps.simps[of _ 0] charge_pumps.simps[of _ 1]
        charge_pumps.simps[of _ 2] charge_pumps.simps[of _ 3] charge_pumps.simps[of _ 4]
        snth_numerals sdrop_numerals replicate_4
        spec_cog_id_probe_def spec_breakage_probe_def spec_register_program_def
        spec_bring_up_cycle_def)

lemma begin_ready_bad_cog:
  assumes "0x02 \<noteq> 0x0f AND (spi_in w !! 1) 1"
  shows "begin_ready epd w =
     (epd\<lparr>status := EPD_UNSUPPORTED_COG\<rparr>,
      power_off (epd\<lparr>status := EPD_UNSUPPORTED_COG\<rparr>)
        (emit (spec_cog_id_probe epd @ [Ev_status EPD_UNSUPPORTED_COG])
           (w\<lparr>spi_in := sdrop 2 (spi_in w)\<rparr>)))"
  using assms
  by (simp add: begin_ready_def Let_def io_emit snth_numerals sdrop_numerals spec_cog_id_probe_def)

lemma begin_ready_broken:
  assumes "0x0f AND (spi_in w !! 1) 1 = 0x02"
      and "0 = 0x80 AND (spi_in w !! 2) 1"
  shows "begin_ready epd w =
     (epd\<lparr>status := EPD_PANEL_BROKEN\<rparr>,
      power_off (epd\<lparr>status := EPD_PANEL_BROKEN\<rparr>)
        (emit (spec_cog_id_probe epd @ spec_breakage_probe epd @ [Ev_status EPD_PANEL_BROKEN])
           (w\<lparr>spi_in := sdrop 3 (spi_in w)\<rparr>)))"
  using assms
  by (simp add: begin_ready_def Let_def io_emit snth_numerals sdrop_numerals spec_cog_id_probe_def
        spec_breakage_probe_def)

lemma charge_pumps_dc_ok:
  "fst (charge_pumps epd 0 w) =
     (0x40 = 0x40 AND (spi_in w !! 0) 1 \<or> 0x40 = 0x40 AND (spi_in w !! 1) 1 \<or>
      0x40 = 0x40 AND (spi_in w !! 2) 1 \<or> 0x40 = 0x40 AND (spi_in w !! 3) 1)"
  by (simp add: charge_pumps.simps[of _ 0] charge_pumps.simps[of _ 1]
        charge_pumps.simps[of _ 2] charge_pumps.simps[of _ 3] charge_pumps.simps[of _ 4]
        Let_def io_emit snth_numerals)

lemma begin_ready_status:
  assumes "status epd = EPD_OK"
  shows "fst (begin_ready epd w) = epd\<lparr>status := spec_begin_status (spi_in w)\<rparr>"
proof (cases "0x02 \<noteq> 0x0f AND (spi_in w !! 1) 1")
  case True
  then have "spec_begin_status (spi_in w) = EPD_UNSUPPORTED_COG"
    by (auto simp: spec_begin_status_def)
  with begin_ready_bad_cog[OF True] show ?thesis by simp
next
  case cog: False
  show ?thesis
  proof (cases "0 = 0x80 AND (spi_in w !! 2) 1")
    case True
    with cog have "spec_begin_status (spi_in w) = EPD_PANEL_BROKEN"
      by (auto simp: spec_begin_status_def)
    with begin_ready_broken[OF _ True] cog show ?thesis by simp
  next
    case ok: False
    have st: "spec_begin_status (spi_in w) =
        (if 0x40 = 0x40 AND (spi_in w !! 3) 1 \<or> 0x40 = 0x40 AND (spi_in w !! 4) 1 \<or>
            0x40 = 0x40 AND (spi_in w !! 5) 1 \<or> 0x40 = 0x40 AND (spi_in w !! 6) 1
         then EPD_OK else EPD_DC_FAILED)"
      using cog ok by (auto simp: spec_begin_status_def)
    have e: "epd\<lparr>status := EPD_OK\<rparr> = epd" using assms by simp
    show ?thesis
      using cog ok
      by (simp add: begin_ready_def Let_def split_def io_emit charge_pumps_dc_ok st e
            snth_numerals eq_commute[of "0x40"])
  qed
qed

lemma EPD_begin_after_wait:
  assumes "busy_for k (gpio_in w)"
  shows "EPD_begin epd w =
     Some (begin_ready (epd\<lparr>status := EPD_OK\<rparr>)
        (emit (Ev_status EPD_OK # spec_power_up epd @ spec_busy_poll epd k)
           (w\<lparr>gpio_in := sdrop (Suc k) (gpio_in w)\<rparr>)))"
proof -
  have b: "busy_for k (gpio_in (emit (Ev_status EPD_OK # spec_power_up epd) w))" using assms by simp
  show ?thesis
    using wait_busy_returns[OF b, of "epd\<lparr>status := EPD_OK\<rparr>"]
    by (simp add: EPD_begin_def Let_def io_emit spec_power_up_def spec_busy_poll_def)
qed

lemma spec_events_status [simp]:
  "spec_cog_id_probe (epd\<lparr>status := s\<rparr>) = spec_cog_id_probe epd"
  "spec_breakage_probe (epd\<lparr>status := s\<rparr>) = spec_breakage_probe epd"
  "spec_register_program (epd\<lparr>status := s\<rparr>) = spec_register_program epd"
  "spec_bring_up_cycle (epd\<lparr>status := s\<rparr>) = spec_bring_up_cycle epd"
  "spec_output_disable (epd\<lparr>status := s\<rparr>) = spec_output_disable epd"
  "spec_power_off (epd\<lparr>status := s\<rparr>) = spec_power_off epd"
  by (simp_all add: spec_cog_id_probe_def spec_breakage_probe_def spec_register_program_def
        spec_bring_up_cycle_def spec_output_disable_def spec_power_off_def)

lemma demo_begin_inputs:
  "busy_for 2 (gpio_in demo_begin_ok)" "busy_for 2 (gpio_in demo_begin_fail)"
  "0x0f AND (spi_in demo_begin_ok !! 1) 1 = 0x02" "0x0f AND (spi_in demo_begin_fail !! 1) 1 = 0x02"
  "0x80 AND (spi_in demo_begin_ok !! 2) 1 \<noteq> 0" "0x80 AND (spi_in demo_begin_fail !! 2) 1 \<noteq> 0"
  "0x40 AND (spi_in demo_begin_ok !! 3) 1 = 0x40"
  "0x40 AND (spi_in demo_begin_fail !! 3) 1 \<noteq> 0x40 \<and> 0x40 AND (spi_in demo_begin_fail !! 4) 1 \<noteq> 0x40 \<and>
   0x40 AND (spi_in demo_begin_fail !! 5) 1 \<noteq> 0x40 \<and> 0x40 AND (spi_in demo_begin_fail !! 6) 1 \<noteq> 0x40"
proof -
  have b: "busy_for 2 (1 ## 1 ## sconst 0)"
    by (simp add: busy_for_def numeral_2_eq_2)
  show "busy_for 2 (gpio_in demo_begin_ok)" "busy_for 2 (gpio_in demo_begin_fail)"
    using b by (simp_all add: demo_begin_ok_def demo_begin_fail_def)
qed (simp_all add: demo_begin_ok_def demo_begin_fail_def snth_numerals)

lemma slept_append [simp]: "slept (xs @ ys) = slept xs + slept ys"
  by (induction xs rule: slept.induct) simp_all

lemma slept_begin_prefix:
  "slept (spec_power_up epd @ spec_busy_poll epd 2 @ spec_cog_id_probe epd
            @ spec_breakage_probe epd @ spec_register_program epd)
     = 5000 + 10000 + 5000 + 5000 + 5000 + 2 * 10 + 5000"
  by (simp add: spec_power_up_def spec_busy_poll_def spec_cog_id_probe_def
        spec_breakage_probe_def spec_register_program_def numeral_2_eq_2)

subsection \<open>\<open>frame_fixed_timed\<close>\<close>

lemma timer_queries_append [simp]:
  "timer_queries (xs @ ys) = timer_queries xs + timer_queries ys"
  by (induction xs rule: timer_queries.induct) simp_all

lemma timer_queries_session [simp]: "timer_queries (line_session s frame) = 0"
  by (simp add: line_session_def)

lemma one_line_timer:
  assumes "ready epd w"
  shows "\<exists>w'. one_line epd line data fv stage border w = Inr w' \<and> ready epd w' \<and>
           gettime_in w' = gettime_in w \<and>
           timer_queries (trace w') = timer_queries (trace w) \<and>
           one_line_calls (trace w') = one_line_calls (trace w) @ [(line, data, fv, stage, border)]"
proof -
  from one_line_ready[OF assms, of line data fv stage border]
  obtain buf where buf: "heap w (line_buffer epd) = Some buf"
    and ol: "one_line epd line data fv stage border w =
       Inr (emit (Ev_one_line line data fv stage border
                    # line_session (spi epd) (line_frame epd line (mem w) data fv stage border))
              (w\<lparr>heap := (heap w)(line_buffer epd \<mapsto>
                    line_frame epd line (mem w) data fv stage border
                      @ drop (length (line_frame epd line (mem w) data fv stage border)) buf)\<rparr>))"
    by blast
  from assms buf have len: "length buf = line_buffer_size epd" and ph: "panel_handle epd"
    by (simp_all add: ready_def)
  have "length (line_frame epd line (mem w) data fv stage border) < line_buffer_size epd"
    using panel_handle_nat(5)[OF ph] by (simp add: length_line_frame)
  with ol len ph show ?thesis
    by (simp add: ready_def)
qed

lemma unat_succ_u8: "unat (b::u8) < n \<Longrightarrow> n \<le> 255 \<Longrightarrow> unat (b + 1) = Suc (unat b)"
proof -
  assume a: "unat b < n" "n \<le> 255"
  have "unat (b + 1) = (unat b + 1) mod 2 ^ 8" by (simp add: unat_word_ariths)
  also have "\<dots> = unat b + 1" using a by simp
  finally show ?thesis by simp
qed

lemma uint_less_iff_u8: "uint (b::u8) < int n \<longleftrightarrow> unat b < n"
  by (metis of_nat_less_iff uint_nat)

lemma fixed_frame_calls:
  assumes "ready epd w" and "lines_per_display epd = int n" and "n \<le> 255" and "unat line \<le> n"
  shows "\<exists>w'. fixed_frame epd fv line w = Some (Inr w') \<and> ready epd w' \<and>
           gettime_in w' = gettime_in w \<and>
           timer_queries (trace w') = timer_queries (trace w) \<and>
           one_line_calls (trace w') =
             one_line_calls (trace w) @ map (\<lambda>k. (of_nat k, 0, fv, EPD_normal, 0x00)) [unat line..<n]"
  using assms(1,4)
proof (induction "n - unat line" arbitrary: line w)
  case 0
  then have "\<not> uint line < lines_per_display epd"
    by (simp add: assms(2) uint_less_iff_u8)
  with 0 show ?case
    by (subst fixed_frame.simps) simp
next
  case (Suc k)
  then have lt: "unat line < n" by simp
  then have lt': "uint line < lines_per_display epd"
    by (simp add: assms(2) uint_less_iff_u8)
  have nw: "unat (line + 1) = Suc (unat line)"
    using lt assms(3) by (rule unat_succ_u8)
  from one_line_timer[OF Suc.prems(1), of "ucast line" 0 fv EPD_normal 0]
  obtain w1 where w1: "one_line epd (ucast line) 0 fv EPD_normal 0 w = Inr w1" "ready epd w1"
    "gettime_in w1 = gettime_in w" "timer_queries (trace w1) = timer_queries (trace w)"
    "one_line_calls (trace w1) = one_line_calls (trace w) @ [(ucast line, 0, fv, EPD_normal, 0)]"
    by blast
  have k: "k = n - unat (line + 1)" using Suc.hyps(2) nw by simp
  have le: "unat (line + 1) \<le> n" using lt nw by simp
  from Suc.hyps(1)[OF k w1(2) le]
  obtain w' where w': "fixed_frame epd fv (line + 1) w1 = Some (Inr w')" "ready epd w'"
    "gettime_in w' = gettime_in w1" "timer_queries (trace w') = timer_queries (trace w1)"
    "one_line_calls (trace w') =
       one_line_calls (trace w1) @ map (\<lambda>k. (of_nat k, 0, fv, EPD_normal, 0x00)) [unat (line + 1)..<n]"
    by blast
  have up: "[unat line..<n] = unat line # [Suc (unat line)..<n]"
    using lt by (simp add: upt_conv_Cons)
  show ?case
    apply (subst fixed_frame.simps)
    using lt' w1 w' by (simp add: up nw)
qed

lemma timed_frames_stops:
  assumes "ready epd w" and "shd (gettime_in w) = (ret, tv_sec, tv_nsec)" and "ret \<noteq> - 1"
      and "\<not> (tv_sec > 0 \<and> tv_nsec > 0)"
  shows "\<exists>w'. timed_frames epd fv w = Some (Inr w') \<and>
           timer_queries (trace w') = timer_queries (trace w) + 1 \<and>
           one_line_calls (trace w') =
             one_line_calls (trace w)
               @ map (\<lambda>k. (of_nat k, 0, fv, EPD_normal, 0x00)) [0..<nat (lines_per_display epd)]"
proof -
  from assms(1) have ph: "panel_handle epd" by (simp add: ready_def)
  then have n: "lines_per_display epd = int (nat (lines_per_display epd))" "nat (lines_per_display epd) \<le> 255"
    by (auto elim!: panel_handle_cases)
  from fixed_frame_calls[OF assms(1) n, of 0 fv]
  obtain w1 where w1: "fixed_frame epd fv 0 w = Some (Inr w1)"
    "gettime_in w1 = gettime_in w" "timer_queries (trace w1) = timer_queries (trace w)"
    "one_line_calls (trace w1) =
       one_line_calls (trace w) @ map (\<lambda>k. (of_nat k, 0, fv, EPD_normal, 0x00)) [0..<nat (lines_per_display epd)]"
    by auto
  show ?thesis
    apply (subst timed_frames.simps)
    using w1 assms(2-4)
    by (auto simp: timer_gettime_def)
qed

subsection \<open>The schedule of \<open>frame_data_13\<close>\<close>

lemma data_13_pos_call:
  assumes "ready epd w"
  shows "\<exists>w'. data_13_pos epd img stage total_lines n repeat line offset w = Inr w' \<and> ready epd w' \<and>
           mem w' = mem w \<and>
           one_line_calls (trace w') =
             one_line_calls (trace w) @ [spec_data_call img stage total_lines (bytes_per_line epd) repeat n line offset]"
  unfolding data_13_pos_def spec_data_call_def Let_def
  using one_line_call[OF assms] by auto

lemma data_13_block_calls:
  assumes "ready epd w"
  shows "\<exists>w'. data_13_block epd img stage total_lines n repeat block line offset w = Inr w' \<and>
           ready epd w' \<and> mem w' = mem w \<and>
           one_line_calls (trace w') =
             one_line_calls (trace w)
               @ map (spec_data_call img stage total_lines (bytes_per_line epd) repeat n line) [offset..block - 1]"
  using assms
proof (induction "nat (block - offset)" arbitrary: offset w)
  case 0
  then have "\<not> offset < block" by simp
  with 0 show ?case
    by (subst data_13_block.simps) simp
next
  case (Suc k)
  then have lt: "offset < block" by simp
  from data_13_pos_call[OF Suc.prems, of img stage total_lines n repeat line offset]
  obtain w1 where w1: "data_13_pos epd img stage total_lines n repeat line offset w = Inr w1"
    "ready epd w1" "mem w1 = mem w"
    "one_line_calls (trace w1) =
       one_line_calls (trace w) @ [spec_data_call img stage total_lines (bytes_per_line epd) repeat n line offset]"
    by blast
  have k: "k = nat (block - (offset + 1))" using Suc.hyps(2) by simp
  from Suc.hyps(1)[OF k w1(2)]
  obtain w' where w': "data_13_block epd img stage total_lines n repeat block line (offset + 1) w1 = Inr w'"
    "ready epd w'" "mem w' = mem w1"
    "one_line_calls (trace w') =
       one_line_calls (trace w1)
         @ map (spec_data_call img stage total_lines (bytes_per_line epd) repeat n line) [offset + 1..block - 1]"
    by blast
  have up: "[offset..block - 1] = offset # [offset + 1..block - 1]"
    using lt by (simp add: upto_rec1)
  show ?case
    apply (subst data_13_block.simps)
    using lt w1 w' by (simp add: up)
qed

lemma data_13_lines_calls:
  assumes "ready epd w" and "0 < step"
  shows "\<exists>w'. data_13_lines epd img stage total_lines n repeat step block line w = Some (Inr w') \<and>
           ready epd w' \<and> mem w' = mem w \<and>
           one_line_calls (trace w') =
             one_line_calls (trace w)
               @ concat (map (\<lambda>line. map (spec_data_call img stage total_lines (bytes_per_line epd) repeat n line) [0..block - 1])
                           (window_starts line step (total_lines + step)))"
  using assms(1)
proof (induction "nat (total_lines + step - line)" arbitrary: line w rule: less_induct)
  case less
  show ?case
  proof (cases "line < total_lines + step")
    case False
    then show ?thesis
      using less.prems
      by (subst data_13_lines.simps, subst window_starts.simps) simp
  next
    case True
    from data_13_block_calls[OF less.prems, of img stage total_lines n repeat block line 0]
    obtain w1 where w1: "data_13_block epd img stage total_lines n repeat block line 0 w = Inr w1"
      "ready epd w1" "mem w1 = mem w"
      "one_line_calls (trace w1) =
         one_line_calls (trace w)
           @ map (spec_data_call img stage total_lines (bytes_per_line epd) repeat n line) [0..block - 1]"
      by blast
    have dec: "nat (total_lines + step - (line + step)) < nat (total_lines + step - line)"
      using True assms(2) by simp
    from less.hyps[OF dec w1(2)]
    obtain w' where w': "data_13_lines epd img stage total_lines n repeat step block (line + step) w1 = Some (Inr w')"
      "ready epd w'" "mem w' = mem w1"
      "one_line_calls (trace w') =
         one_line_calls (trace w1)
           @ concat (map (\<lambda>line. map (spec_data_call img stage total_lines (bytes_per_line epd) repeat n line) [0..block - 1])
                       (window_starts (line + step) step (total_lines + step)))"
      by blast
    show ?thesis
      apply (subst data_13_lines.simps)
      apply (subst window_starts.simps)
      using True assms(2) w1 w' by simp
  qed
qed

lemma data_13_repeats_calls:
  assumes "ready epd w" and "0 < step"
  shows "\<exists>w'. data_13_repeats epd img stage total_lines repeat step block n w = Some (Inr w') \<and>
           ready epd w' \<and> mem w' = mem w \<and>
           one_line_calls (trace w') =
             one_line_calls (trace w)
               @ concat (map (\<lambda>n.
                   concat (map (\<lambda>line. map (spec_data_call img stage total_lines (bytes_per_line epd) repeat n line) [0..block - 1])
                             (window_starts (step - block) step (total_lines + step))))
                   [n..repeat - 1])"
  using assms(1)
proof (induction "nat (repeat - n)" arbitrary: n w)
  case 0
  then have "\<not> n < repeat" by simp
  with 0 show ?case
    by (subst data_13_repeats.simps) simp
next
  case (Suc k)
  then have lt: "n < repeat" by simp
  from data_13_lines_calls[OF Suc.prems assms(2), of img stage total_lines n repeat block "step - block"]
  obtain w1 where w1: "data_13_lines epd img stage total_lines n repeat step block (step - block) w = Some (Inr w1)"
    "ready epd w1" "mem w1 = mem w"
    "one_line_calls (trace w1) =
       one_line_calls (trace w)
         @ concat (map (\<lambda>line. map (spec_data_call img stage total_lines (bytes_per_line epd) repeat n line) [0..block - 1])
                     (window_starts (step - block) step (total_lines + step)))"
    by blast
  have k: "k = nat (repeat - (n + 1))" using Suc.hyps(2) by simp
  from Suc.hyps(1)[OF k w1(2)]
  obtain w' where w': "data_13_repeats epd img stage total_lines repeat step block (n + 1) w1 = Some (Inr w')"
    "ready epd w'" "mem w' = mem w1"
    "one_line_calls (trace w') =
       one_line_calls (trace w1)
         @ concat (map (\<lambda>n.
             concat (map (\<lambda>line. map (spec_data_call img stage total_lines (bytes_per_line epd) repeat n line) [0..block - 1])
                       (window_starts (step - block) step (total_lines + step))))
             [n + 1..repeat - 1])"
    by blast
  have up: "[n..repeat - 1] = n # [n + 1..repeat - 1]"
    using lt by (simp add: upto_rec1)
  show ?case
    apply (subst data_13_repeats.simps)
    using lt w1 w' by (simp add: up)
qed

lemma frame_data_13_schedule:
  assumes "ready epd w" and "deref_compensation (compensation epd) = Some c"
      and "repeat = (if EPD_inverse = stage then uint (stage1_repeat c) else uint (stage3_repeat c))"
      and "step = (if EPD_inverse = stage then uint (stage1_step c) else uint (stage3_step c))"
      and "block = (if EPD_inverse = stage then uint (stage1_block c) else uint (stage3_block c))"
      and "0 < step"
  shows "\<exists>w'. frame_data_13 epd img stage w = Some (Inr w') \<and> ready epd w' \<and> mem w' = mem w \<and>
           one_line_calls (trace w') =
             one_line_calls (trace w)
               @ spec_schedule (spec_data_call img stage (lines_per_display epd) (bytes_per_line epd) repeat)
                   (lines_per_display epd) repeat step block"
  using data_13_repeats_calls[OF assms(1,6), of img stage "lines_per_display epd" repeat block 0]
  unfolding frame_data_13_def spec_schedule_def
  by (simp add: assms(2-5) Let_def)

lemma window_starts_mem:
  assumes "0 < step" and "x < limit"
  shows "a \<le> x \<Longrightarrow> step dvd (x - a) \<Longrightarrow> x \<in> set (window_starts a step limit)"
proof (induction "nat (x - a)" arbitrary: a rule: less_induct)
  case less
  show ?case
  proof (cases "a = x")
    case True
    then show ?thesis
      using assms by (subst window_starts.simps) simp
  next
    case False
    with less.prems have lt: "a < x" by simp
    then have "0 < x - a" by simp
    with less.prems(2) have "step \<le> x - a" by (rule zdvd_imp_le)
    then have le: "a + step \<le> x" by simp
    have dv: "step dvd (x - (a + step))"
      using less.prems(2) by (simp add: diff_diff_eq[symmetric])
    have dec: "nat (x - (a + step)) < nat (x - a)" using assms(1) lt by simp
    from less.hyps[OF dec le dv] have "x \<in> set (window_starts (a + step) step limit)" .
    then show ?thesis
      using assms lt by (subst window_starts.simps) simp
  qed
qed

lemma in_concat_mapI: "a \<in> set xs \<Longrightarrow> x \<in> set (f a) \<Longrightarrow> x \<in> set (concat (map f xs))"
  by auto

lemma in_spec_scheduleI:
  assumes "0 \<le> n" "n < repeat" "line \<in> set (window_starts (step - block) step (total_lines + step))"
      and "0 \<le> offset" "offset < block"
  shows "call n line offset \<in> set (spec_schedule call total_lines repeat step block)"
proof -
  have n: "n \<in> set [0..repeat - 1]" using assms(1,2) by simp
  have o: "offset \<in> set [0..block - 1]" using assms(4,5) by simp
  have "call n line offset \<in> set (map (\<lambda>offset. call n line offset) [0..block - 1])"
    using o by (simp only: set_map) (rule imageI)
  then have "call n line offset \<in> set (concat (map (\<lambda>line. map (\<lambda>offset. call n line offset) [0..block - 1])
                 (window_starts (step - block) step (total_lines + step))))"
    by (rule in_concat_mapI[OF assms(3)])
  then show ?thesis
    unfolding spec_schedule_def by (rule in_concat_mapI[OF n])
qed

lemma configured_rows:
  assumes "configured epd"
  obtains c where "deref_compensation (compensation epd) = Some c"
    and "stage3_repeat c = stage1_repeat c" "stage3_step c = stage1_step c" "stage3_block c = stage1_block c"
    and "0 < uint (stage1_step c)" "1 < uint (stage1_repeat c)" "0 < uint (stage1_block c)"
    and "uint (stage1_step c) dvd lines_per_display epd + uint (stage1_block c) - uint (stage1_step c)"
    and "uint (stage1_step c) \<le> lines_per_display epd + uint (stage1_block c)"
proof -
  obtain t b where tb: "compensation epd = (t, b)" by (cases "compensation epd")
  with assms have b: "b = 0 \<or> b = 1 \<or> b = 2" and t: "t = spec_table (size_tag epd)"
    and ph: "panel_handle epd"
    by (auto simp: configured_def)
  show ?thesis
    using b t ph tb
    by (cases "size_tag epd")
       (auto intro!: that simp: panel_handle_def spec_geometry_def spec_table_def deref_compensation_def
          compensation_144_def compensation_200_def compensation_270_def comp_def)
qed

lemma uint_pos_u16: "0 \<le> pos \<Longrightarrow> pos \<le> 176 \<Longrightarrow> uint (word_of_int pos :: u16) = pos"
  by (simp add: uint_word_of_int take_bit_int_eq_self)

lemma pos_not_sentinel: "0 \<le> pos \<Longrightarrow> pos \<le> 176 \<Longrightarrow> (word_of_int pos :: u16) \<noteq> 0x7fff"
proof
  assume a: "0 \<le> pos" "pos \<le> 176" and e: "(word_of_int pos :: u16) = 0x7fff"
  from e have "uint (word_of_int pos :: u16) = uint (0x7fff :: u16)" by simp
  with uint_pos_u16[OF a] a show False by simp
qed

lemma panel_lines_le:
  assumes "panel_handle epd"
  shows "0 \<le> lines_per_display epd" "lines_per_display epd \<le> 176" "0 \<le> bytes_per_line epd"
  using assms by (auto elim!: panel_handle_cases)

lemma spec_fixed_call_dummy_iff:
  assumes "total_lines \<le> 176"
  shows "(spec_fixed_call val stage total_lines repeat n line offset = (0x7fff, 0, 0x00, EPD_normal, 0x00))
           = (line + offset < 0 \<or> line + offset > total_lines)"
proof (cases "line + offset < 0 \<or> line + offset > total_lines")
  case True
  then show ?thesis by (simp add: spec_fixed_call_def Let_def)
next
  case False
  then have "(word_of_int (line + offset) :: u16) \<noteq> 0x7fff"
    using assms by (intro pos_not_sentinel) simp_all
  with False show ?thesis by (auto simp add: spec_fixed_call_def Let_def simp del: of_int_add)
qed

lemma spec_data_call_dummy_iff:
  assumes "total_lines \<le> 176"
  shows "(spec_data_call img stage total_lines bpl repeat n line offset = (0x7fff, 0, 0x00, EPD_normal, 0x00))
           = (line + offset < 0 \<or> line + offset > total_lines)"
proof (cases "line + offset < 0 \<or> line + offset > total_lines")
  case True
  then show ?thesis by (simp add: spec_data_call_def Let_def)
next
  case False
  then have "(word_of_int (line + offset) :: u16) \<noteq> 0x7fff"
    using assms by (intro pos_not_sentinel) simp_all
  with False show ?thesis by (auto simp add: spec_data_call_def Let_def simp del: of_int_add)
qed

lemma boundary_in_schedule:
  assumes "0 < step" "1 < repeat" "0 < block"
      and "step dvd total_lines + block - step" "step \<le> total_lines + block"
  shows "call 0 total_lines 0 \<in> set (spec_schedule call total_lines repeat step block)"
proof -
  have d: "step dvd (total_lines - (step - block))"
    using assms(4) by (simp add: algebra_simps)
  have "total_lines \<in> set (window_starts (step - block) step (total_lines + step))"
    using assms(1,5) d by (intro window_starts_mem) simp_all
  then show ?thesis
    using assms(2,3) by (intro in_spec_scheduleI) simp_all
qed

subsection \<open>The boundary position\<close>

lemma demo_configured: "configured demo_epd"
  using demo_ready
  by (simp add: configured_def ready_def demo_fields demo_2_0 spec_table_def)

subsection \<open>Assignments to the status\<close>

lemma status_writes_append [simp]:
  "status_writes (xs @ ys) = status_writes xs @ status_writes ys"
  by (induction xs rule: status_writes.induct) simp_all

lemma status_writes_replicate:
  "status_writes xs = [] \<Longrightarrow> status_writes (concat (replicate n xs)) = []"
  by (induction n) simp_all

lemma status_writes_spec [simp]:
  "status_writes (spec_power_up epd) = []" "status_writes (spec_busy_poll epd k) = []"
  "status_writes (spec_cog_id_probe epd) = []" "status_writes (spec_breakage_probe epd) = []"
  "status_writes (spec_register_program epd) = []" "status_writes (spec_bring_up_cycle epd) = []"
  "status_writes (spec_output_disable epd) = []" "status_writes (spec_power_off epd) = []"
  "status_writes (line_session s frame) = []"
  by (simp_all add: spec_power_up_def spec_busy_poll_def spec_cog_id_probe_def
        spec_breakage_probe_def spec_register_program_def spec_bring_up_cycle_def
        spec_output_disable_def spec_power_off_def line_session_def status_writes_replicate)

lemma wait_busy_busy_for:
  assumes "wait_busy epd w = Some w'"
  shows "\<exists>k. busy_for k (gpio_in w)"
proof (rule wait_busy.raw_induct[where P = "\<lambda>epd w w'. \<exists>k. busy_for k (gpio_in w)", OF _ assms])
  fix f e v y
  assume ih: "\<And>e v y. f e v = Some y \<Longrightarrow> \<exists>k. busy_for k (gpio_in v)"
    and b: "(case digitalRead (EPD_Pin_BUSY e) v of
               (x, v) \<Rightarrow> if 1 = x then f e (Delay_us 10 v) else Some v) = Some y"
  show "\<exists>k. busy_for k (gpio_in v)"
  proof (cases "1 = shd (gpio_in v)")
    case True
    with b have "f e (Delay_us 10 (snd (digitalRead (EPD_Pin_BUSY e) v))) = Some y"
      by (simp add: digitalRead_def)
    from ih[OF this] obtain k
      where "busy_for k (gpio_in (Delay_us 10 (snd (digitalRead (EPD_Pin_BUSY e) v))))" ..
    then have "busy_for k (stl (gpio_in v))" by (simp add: io_emit)
    with True have "busy_for (Suc k) (gpio_in v)" by (simp add: busy_for_Suc)
    then show ?thesis ..
  next
    case False
    then have "busy_for 0 (gpio_in v)" by (simp add: busy_for_0)
    then show ?thesis ..
  qed
qed

lemma EPD_begin_busy_for:
  assumes "EPD_begin epd w = Some r"
  shows "\<exists>k. busy_for k (gpio_in w)"
proof -
  from assms obtain v w1 where "wait_busy (epd\<lparr>status := EPD_OK\<rparr>) v = Some w1" "gpio_in v = gpio_in w"
    by (auto simp: EPD_begin_def Let_def io_emit split: option.splits)
  with wait_busy_busy_for show ?thesis by metis
qed

lemma charge_pumps_unfold:
  "charge_pumps epd i w =
     (if i < 4 then
        (if 0x40 = 0x40 AND shd (spi_in w) 1
         then (True, emit (spec_bring_up_cycle epd) (w\<lparr>spi_in := stl (spi_in w)\<rparr>))
         else charge_pumps epd (i + 1) (emit (spec_bring_up_cycle epd) (w\<lparr>spi_in := stl (spi_in w)\<rparr>)))
      else (False, w))"
  by (subst charge_pumps.simps) (simp add: Let_def io_emit spec_bring_up_cycle_def)

lemma charge_pumps_writes:
  "\<exists>es. trace (snd (charge_pumps epd i w)) = trace w @ es \<and> status_writes es = []"
proof (induction "nat (4 - i)" arbitrary: i w)
  case 0
  then show ?case by (subst charge_pumps_unfold) simp
next
  case (Suc n)
  then have lt: "i < 4" by simp
  let ?w1 = "emit (spec_bring_up_cycle epd) (w\<lparr>spi_in := stl (spi_in w)\<rparr>)"
  from Suc.hyps(2) have "n = nat (4 - (i + 1))" by simp
  from Suc.hyps(1)[OF this, of ?w1]
  obtain es where es: "trace (snd (charge_pumps epd (i + 1) ?w1)) = trace ?w1 @ es" "status_writes es = []"
    by blast
  show ?case
  proof (cases "0x40 = 0x40 AND shd (spi_in w) 1")
    case True
    with lt show ?thesis
      by (subst charge_pumps_unfold) (simp add: emit_def)
  next
    case False
    with lt es show ?thesis
      by (subst charge_pumps_unfold) (simp add: emit_def)
  qed
qed

lemma begin_ready_pumps:
  assumes "0x0f AND (spi_in w !! 1) 1 = 0x02" and "0 \<noteq> 0x80 AND (spi_in w !! 2) 1"
  shows "begin_ready epd w =
    (let r = charge_pumps epd 0
               (emit (spec_cog_id_probe epd @ spec_breakage_probe epd @ spec_register_program epd)
                  (w\<lparr>spi_in := sdrop 3 (spi_in w)\<rparr>))
     in if \<not> fst r
        then (epd\<lparr>status := EPD_DC_FAILED\<rparr>,
              power_off (epd\<lparr>status := EPD_DC_FAILED\<rparr>) (emit [Ev_status EPD_DC_FAILED] (snd r)))
        else (epd, emit (spec_output_disable epd) (snd r)))"
  using assms
  by (simp add: begin_ready_def Let_def split_def io_emit snth_numerals sdrop_numerals
        spec_cog_id_probe_def spec_breakage_probe_def spec_register_program_def
        spec_output_disable_def)

lemma begin_ready_writes:
  "\<exists>es. trace (snd (begin_ready epd w)) = trace w @ es \<and>
     status_writes es =
       (if spec_begin_status (spi_in w) = EPD_OK then [] else [spec_begin_status (spi_in w)])"
proof (cases "0x02 \<noteq> 0x0f AND (spi_in w !! 1) 1")
  case True
  then have "spec_begin_status (spi_in w) = EPD_UNSUPPORTED_COG"
    by (auto simp: spec_begin_status_def)
  with begin_ready_bad_cog[OF True, of epd] show ?thesis
    by (simp add: power_off_emit)
next
  case cog: False
  show ?thesis
  proof (cases "0 = 0x80 AND (spi_in w !! 2) 1")
    case True
    with cog have "spec_begin_status (spi_in w) = EPD_PANEL_BROKEN"
      by (auto simp: spec_begin_status_def)
    with begin_ready_broken[OF _ True, of epd] cog show ?thesis
      by (simp add: power_off_emit)
  next
    case ok: False
    let ?w0 = "emit (spec_cog_id_probe epd @ spec_breakage_probe epd @ spec_register_program epd)
                  (w\<lparr>spi_in := sdrop 3 (spi_in w)\<rparr>)"
    let ?r = "charge_pumps epd 0 ?w0"
    have st: "spec_begin_status (spi_in w) = (if fst ?r then EPD_OK else EPD_DC_FAILED)"
      using cog ok
      by (auto simp: spec_begin_status_def charge_pumps_dc_ok sdrop_snth eq_commute[of "0x40"])
    from charge_pumps_writes[of epd 0 ?w0]
    obtain es where es: "trace (snd ?r) = trace ?w0 @ es" "status_writes es = []"
      by blast
    from cog ok have br: "begin_ready epd w =
      (if \<not> fst ?r
        then (epd\<lparr>status := EPD_DC_FAILED\<rparr>,
              power_off (epd\<lparr>status := EPD_DC_FAILED\<rparr>) (emit [Ev_status EPD_DC_FAILED] (snd ?r)))
        else (epd, emit (spec_output_disable epd) (snd ?r)))"
      by (simp add: begin_ready_pumps Let_def)
    show ?thesis
      using es by (simp add: br st power_off_emit)
  qed
qed

lemma one_line_writes:
  assumes "one_line epd line data fv stage border w = Inr w'"
  shows "status_writes (trace w') = status_writes (trace w)"
  using assms
  by (auto simp: one_line_def Let_def SPI_on_def SPI_send_def SPI_off_def Delay_us_def emit_def
        split: option.splits sum.splits)

lemma one_line_timers:
  assumes "one_line epd line data fv stage border w = Inr w'"
  shows "(gettime_in w', settime_in w') = (gettime_in w, settime_in w)"
  using assms
  by (auto simp: one_line_def Let_def SPI_on_def SPI_send_def SPI_off_def Delay_us_def emit_def
        split: option.splits sum.splits)

lemma keeps_simps [simp]:
  "keeps obs w (Inl e)" "keeps obs w (Inr w') = (obs w' = obs w)"
  by (simp_all add: keeps_def)

lemma keeps_step: "obs w1 = obs w \<Longrightarrow> keeps obs w1 r \<Longrightarrow> keeps obs w r"
  by (cases r) simp_all

lemma fixed_frame_keeps:
  assumes pres: "\<And>e l d c s b v v'. one_line e l d c s b v = Inr v' \<Longrightarrow> obs v' = obs v"
      and run: "fixed_frame epd fv line w = Some r"
  shows "keeps obs w r"
proof (rule fixed_frame.raw_induct[where P = "\<lambda>epd fv line w r. keeps obs w r", OF _ run])
  fix f e c l v y
  assume ih: "\<And>e c l v y. f e c l v = Some y \<Longrightarrow> keeps obs v y"
    and b: "(if uint l < lines_per_display e
             then case one_line e (ucast l) 0 c EPD_normal 0 v of
                    Inl x \<Rightarrow> Some (Inl x)
                  | Inr w \<Rightarrow> f e c (l + 1) w
             else Some (Inr v)) = Some y"
  show "keeps obs v y"
  proof (cases "uint l < lines_per_display e")
    case False
    with b show ?thesis by auto
  next
    case True
    show ?thesis
    proof (cases "one_line e (ucast l) 0 c EPD_normal 0 v")
      case (Inl x)
      with True b show ?thesis by auto
    next
      case (Inr w1)
      with True b have "f e c (l + 1) w1 = Some y" by simp
      from keeps_step[OF pres[OF Inr] ih[OF this]] show ?thesis .
    qed
  qed
qed

lemma fixed_13_pos_keeps:
  assumes pres: "\<And>e l d c s b v v'. one_line e l d c s b v = Inr v' \<Longrightarrow> obs v' = obs v"
  shows "keeps obs w (fixed_13_pos epd val stage total_lines n repeat line offset w)"
proof -
  have "keeps obs w (one_line e l d c s b w)" for e l d c s b
    by (cases "one_line e l d c s b w") (simp_all add: pres)
  then show ?thesis by (simp add: fixed_13_pos_def Let_def)
qed

lemma fixed_13_block_keeps:
  assumes pres: "\<And>e l d c s b v v'. one_line e l d c s b v = Inr v' \<Longrightarrow> obs v' = obs v"
  shows "keeps obs w (fixed_13_block epd val stage total_lines n repeat block line offset w)"
proof (induction "nat (block - offset)" arbitrary: offset w)
  case 0
  then show ?case by (subst fixed_13_block.simps) simp
next
  case (Suc k)
  then have lt: "offset < block" by simp
  show ?case
  proof (cases "fixed_13_pos epd val stage total_lines n repeat line offset w")
    case (Inl x)
    with lt show ?thesis by (subst fixed_13_block.simps) simp
  next
    case (Inr w1)
    with fixed_13_pos_keeps[OF pres, where w = w and epd = epd and val = val and stage = stage
        and total_lines = total_lines and n = n and repeat = repeat and line = line and offset = offset]
    have q1: "obs w1 = obs w" by simp
    from Suc.hyps(2) have "k = nat (block - (offset + 1))" by simp
    from Suc.hyps(1)[OF this, of w1]
    have "keeps obs w1 (fixed_13_block epd val stage total_lines n repeat block line (offset + 1) w1)" .
    from keeps_step[OF q1 this] lt Inr show ?thesis
      by (subst fixed_13_block.simps) simp
  qed
qed

lemma fixed_13_lines_keeps:
  assumes pres: "\<And>e l d c s b v v'. one_line e l d c s b v = Inr v' \<Longrightarrow> obs v' = obs v"
      and run: "fixed_13_lines epd val stage total_lines n repeat step block line w = Some r"
  shows "keeps obs w r"
proof (rule fixed_13_lines.raw_induct[where
      P = "\<lambda>epd val stage total_lines n repeat step block line w r. keeps obs w r", OF _ run])
  fix f e va sg tl m rp sp bl l v y
  assume ih: "\<And>e va sg tl m rp sp bl l v y. f e va sg tl m rp sp bl l v = Some y \<Longrightarrow> keeps obs v y"
    and b: "(if l < tl + sp
             then case fixed_13_block e va sg tl m rp bl l 0 v of
                    Inl x \<Rightarrow> Some (Inl x)
                  | Inr w \<Rightarrow> f e va sg tl m rp sp bl (l + sp) w
             else Some (Inr v)) = Some y"
  show "keeps obs v y"
  proof (cases "l < tl + sp")
    case False
    with b show ?thesis by auto
  next
    case True
    show ?thesis
    proof (cases "fixed_13_block e va sg tl m rp bl l 0 v")
      case (Inl x)
      with True b show ?thesis by auto
    next
      case (Inr w1)
      with fixed_13_block_keeps[OF pres, where w = v and epd = e and val = va and stage = sg
          and total_lines = tl and n = m and repeat = rp and block = bl and line = l and offset = 0]
      have q1: "obs w1 = obs v" by simp
      from Inr True b have "f e va sg tl m rp sp bl (l + sp) w1 = Some y" by simp
      from keeps_step[OF q1 ih[OF this]] show ?thesis .
    qed
  qed
qed

lemma fixed_13_repeats_keeps:
  assumes pres: "\<And>e l d c s b v v'. one_line e l d c s b v = Inr v' \<Longrightarrow> obs v' = obs v"
      and run: "fixed_13_repeats epd val stage total_lines repeat step block n w = Some r"
  shows "keeps obs w r"
  using run
proof (induction "nat (repeat - n)" arbitrary: n w)
  case 0
  then show ?case by (subst (asm) fixed_13_repeats.simps) auto
next
  case (Suc k)
  then have lt: "n < repeat" by simp
  from Suc.prems lt obtain r1
    where r1: "fixed_13_lines epd val stage total_lines n repeat step block (step - block) w = Some r1"
    by (subst (asm) fixed_13_repeats.simps) (auto split: option.splits)
  show ?case
  proof (cases r1)
    case (Inl x)
    with Suc.prems lt r1 show ?thesis by (subst (asm) fixed_13_repeats.simps) auto
  next
    case (Inr w1)
    from fixed_13_lines_keeps[OF pres r1] Inr
    have q1: "obs w1 = obs w" by simp
    from Suc.prems lt r1 Inr
    have rec: "fixed_13_repeats epd val stage total_lines repeat step block (n + 1) w1 = Some r"
      by (subst (asm) fixed_13_repeats.simps) auto
    from Suc.hyps(2) have "k = nat (repeat - (n + 1))" by simp
    from keeps_step[OF q1 Suc.hyps(1)[OF this rec]] show ?thesis .
  qed
qed

lemma frame_fixed_13_keeps:
  assumes pres: "\<And>e l d c s b v v'. one_line e l d c s b v = Inr v' \<Longrightarrow> obs v' = obs v"
      and run: "frame_fixed_13 epd val stage w = Some r"
  shows "keeps obs w r"
  using run fixed_13_repeats_keeps[OF pres]
  by (auto simp: frame_fixed_13_def Let_def split: option.splits)

lemma data_13_pos_keeps:
  assumes pres: "\<And>e l d c s b v v'. one_line e l d c s b v = Inr v' \<Longrightarrow> obs v' = obs v"
  shows "keeps obs w (data_13_pos epd img stage total_lines n repeat line offset w)"
proof -
  have "keeps obs w (one_line e l d c s b w)" for e l d c s b
    by (cases "one_line e l d c s b w") (simp_all add: pres)
  then show ?thesis by (simp add: data_13_pos_def Let_def)
qed

lemma data_13_block_keeps:
  assumes pres: "\<And>e l d c s b v v'. one_line e l d c s b v = Inr v' \<Longrightarrow> obs v' = obs v"
  shows "keeps obs w (data_13_block epd img stage total_lines n repeat block line offset w)"
proof (induction "nat (block - offset)" arbitrary: offset w)
  case 0
  then show ?case by (subst data_13_block.simps) simp
next
  case (Suc k)
  then have lt: "offset < block" by simp
  show ?case
  proof (cases "data_13_pos epd img stage total_lines n repeat line offset w")
    case (Inl x)
    with lt show ?thesis by (subst data_13_block.simps) simp
  next
    case (Inr w1)
    with data_13_pos_keeps[OF pres, where w = w and epd = epd and img = img and stage = stage
        and total_lines = total_lines and n = n and repeat = repeat and line = line and offset = offset]
    have q1: "obs w1 = obs w" by simp
    from Suc.hyps(2) have "k = nat (block - (offset + 1))" by simp
    from Suc.hyps(1)[OF this, of w1]
    have "keeps obs w1 (data_13_block epd img stage total_lines n repeat block line (offset + 1) w1)" .
    from keeps_step[OF q1 this] lt Inr show ?thesis
      by (subst data_13_block.simps) simp
  qed
qed

lemma data_13_lines_keeps:
  assumes pres: "\<And>e l d c s b v v'. one_line e l d c s b v = Inr v' \<Longrightarrow> obs v' = obs v"
      and run: "data_13_lines epd img stage total_lines n repeat step block line w = Some r"
  shows "keeps obs w r"
proof (rule data_13_lines.raw_induct[where
      P = "\<lambda>epd img stage total_lines n repeat step block line w r. keeps obs w r", OF _ run])
  fix f e im sg tl m rp sp bl l v y
  assume ih: "\<And>e im sg tl m rp sp bl l v y. f e im sg tl m rp sp bl l v = Some y \<Longrightarrow> keeps obs v y"
    and b: "(if l < tl + sp
             then case data_13_block e im sg tl m rp bl l 0 v of
                    Inl x \<Rightarrow> Some (Inl x)
                  | Inr w \<Rightarrow> f e im sg tl m rp sp bl (l + sp) w
             else Some (Inr v)) = Some y"
  show "keeps obs v y"
  proof (cases "l < tl + sp")
    case False
    with b show ?thesis by auto
  next
    case True
    show ?thesis
    proof (cases "data_13_block e im sg tl m rp bl l 0 v")
      case (Inl x)
      with True b show ?thesis by auto
    next
      case (Inr w1)
      with data_13_block_keeps[OF pres, where w = v and epd = e and img = im and stage = sg
          and total_lines = tl and n = m and repeat = rp and block = bl and line = l and offset = 0]
      have q1: "obs w1 = obs v" by simp
      from Inr True b have "f e im sg tl m rp sp bl (l + sp) w1 = Some y" by simp
      from keeps_step[OF q1 ih[OF this]] show ?thesis .
    qed
  qed
qed

lemma data_13_repeats_keeps:
  assumes pres: "\<And>e l d c s b v v'. one_line e l d c s b v = Inr v' \<Longrightarrow> obs v' = obs v"
      and run: "data_13_repeats epd img stage total_lines repeat step block n w = Some r"
  shows "keeps obs w r"
  using run
proof (induction "nat (repeat - n)" arbitrary: n w)
  case 0
  then show ?case by (subst (asm) data_13_repeats.simps) auto
next
  case (Suc k)
  then have lt: "n < repeat" by simp
  from Suc.prems lt obtain r1
    where r1: "data_13_lines epd img stage total_lines n repeat step block (step - block) w = Some r1"
    by (subst (asm) data_13_repeats.simps) (auto split: option.splits)
  show ?case
  proof (cases r1)
    case (Inl x)
    with Suc.prems lt r1 show ?thesis by (subst (asm) data_13_repeats.simps) auto
  next
    case (Inr w1)
    from data_13_lines_keeps[OF pres r1] Inr
    have q1: "obs w1 = obs w" by simp
    from Suc.prems lt r1 Inr
    have rec: "data_13_repeats epd img stage total_lines repeat step block (n + 1) w1 = Some r"
      by (subst (asm) data_13_repeats.simps) auto
    from Suc.hyps(2) have "k = nat (repeat - (n + 1))" by simp
    from keeps_step[OF q1 Suc.hyps(1)[OF this rec]] show ?thesis .
  qed
qed

lemma frame_data_13_keeps:
  assumes pres: "\<And>e l d c s b v v'. one_line e l d c s b v = Inr v' \<Longrightarrow> obs v' = obs v"
      and run: "frame_data_13 epd img stage w = Some r"
  shows "keeps obs w r"
  using run data_13_repeats_keeps[OF pres]
  by (auto simp: frame_data_13_def Let_def split: option.splits)

lemma timed_frames_writes:
  assumes "timed_frames epd fv w = Some r"
  shows "keeps (\<lambda>w. status_writes (trace w)) w r"
proof (rule timed_frames.raw_induct[where P = "\<lambda>epd fv w r. keeps (\<lambda>w. status_writes (trace w)) w r",
      OF _ assms])
  fix f e c v y
  assume ih: "\<And>e c v y. f e c v = Some y \<Longrightarrow> keeps (\<lambda>w. status_writes (trace w)) v y"
    and b: "(case fixed_frame e c 0 v of None \<Rightarrow> None
             | Some (Inl x) \<Rightarrow> Some (Inl x)
             | Some (Inr w) \<Rightarrow>
                 case timer_gettime (timer e) w of
                   ((ret, tv_sec, tv_nsec), w) \<Rightarrow>
                     if - 1 = ret then Some (Inl (Exit_failure ''timer_gettime failed''))
                     else if 0 < tv_sec \<and> 0 < tv_nsec then f e c w else Some (Inr w)) = Some y"
  from b obtain r1 where r1: "fixed_frame e c 0 v = Some r1"
    by (auto split: option.splits)
  show "keeps (\<lambda>w. status_writes (trace w)) v y"
  proof (cases r1)
    case (Inl x)
    with b r1 show ?thesis by auto
  next
    case (Inr w1)
    from fixed_frame_keeps[of "\<lambda>w. status_writes (trace w)", OF one_line_writes r1] Inr
    have q1: "status_writes (trace w1) = status_writes (trace v)"
      by simp
    let ?w2 = "snd (timer_gettime (timer e) w1)"
    have q2: "status_writes (trace ?w2) = status_writes (trace w1)"
      by (simp add: timer_gettime_def)
    from b r1 Inr have "y = Inl (Exit_failure ''timer_gettime failed'') \<or> f e c ?w2 = Some y \<or> y = Inr ?w2"
      by (auto simp: split_def split: if_splits)
    then show ?thesis
    proof (elim disjE)
      assume "f e c ?w2 = Some y"
      from ih[OF this] have "keeps (\<lambda>w. status_writes (trace w)) ?w2 y" .
      then show ?thesis using q1 q2 by (intro keeps_step[of _ ?w2 v y]) simp_all
    qed (simp_all add: q1 q2)
  qed
qed

lemma frame_fixed_timed_writes:
  assumes "frame_fixed_timed epd fv t w = Some r"
  shows "keeps (\<lambda>w. status_writes (trace w)) w r"
proof -
  let ?w1 = "snd (timer_settime (timer epd) (t sdiv 1000) (t smod 1000 * 1000000) w)"
  have q: "status_writes (trace ?w1) = status_writes (trace w)"
    by (simp add: timer_settime_def)
  from assms have "r = Inl (Exit_failure ''timer_settime failed'') \<or> timed_frames epd fv ?w1 = Some r"
    by (auto simp: frame_fixed_timed_def Let_def split_def split: if_splits)
  then show ?thesis
  proof
    assume "timed_frames epd fv ?w1 = Some r"
    from keeps_step[of "\<lambda>w. status_writes (trace w)", OF q timed_frames_writes[OF this]] show ?thesis .
  qed simp
qed

lemma stage2_loop_writes:
  assumes "stage2_loop epd c i w = Some r"
  shows "keeps (\<lambda>w. status_writes (trace w)) w r"
  using assms
proof (induction "nat (uint (stage2_repeat c) - i)" arbitrary: i w)
  case 0
  then show ?case by (subst (asm) stage2_loop.simps) auto
next
  case (Suc n)
  then have lt: "i < uint (stage2_repeat c)" by simp
  from Suc.prems lt obtain r1 where r1: "frame_fixed_timed epd 0xff (uint (stage2_t1 c)) w = Some r1"
    by (subst (asm) stage2_loop.simps) (auto split: option.splits)
  show ?case
  proof (cases r1)
    case (Inl x)
    with Suc.prems lt r1 show ?thesis by (subst (asm) stage2_loop.simps) auto
  next
    case w1: (Inr w1)
    from frame_fixed_timed_writes[OF r1] w1
    have q1: "status_writes (trace w1) = status_writes (trace w)" by simp
    from Suc.prems lt r1 w1 obtain r2 where r2: "frame_fixed_timed epd 0xaa (uint (stage2_t2 c)) w1 = Some r2"
      by (subst (asm) stage2_loop.simps) (auto split: option.splits)
    show ?thesis
    proof (cases r2)
      case (Inl x)
      with Suc.prems lt r1 w1 r2 show ?thesis by (subst (asm) stage2_loop.simps) auto
    next
      case w2: (Inr w2)
      from frame_fixed_timed_writes[OF r2] w2
      have q2: "status_writes (trace w2) = status_writes (trace w1)" by simp
      from Suc.prems lt r1 w1 r2 w2 have rec: "stage2_loop epd c (i + 1) w2 = Some r"
        by (subst (asm) stage2_loop.simps) auto
      from Suc.hyps(2) have "n = nat (uint (stage2_repeat c) - (i + 1))" by simp
      from Suc.hyps(1)[OF this rec] have "keeps (\<lambda>w. status_writes (trace w)) w2 r" .
      then show ?thesis using q1 q2 by (intro keeps_step[of _ w2 w r]) simp_all
    qed
  qed
qed

lemma frame_stage2_writes:
  assumes "frame_stage2 epd w = Some r"
  shows "keeps (\<lambda>w. status_writes (trace w)) w r"
  using assms stage2_loop_writes
  by (auto simp: frame_stage2_def split: option.splits)

lemma EPD_clear_writes:
  assumes "EPD_clear epd w = Some (Inr w')"
  shows "status_writes (trace w') = status_writes (trace w)"
proof -
  from assms obtain w1 w2 where s: "frame_fixed_13 epd 0xff EPD_inverse w = Some (Inr w1)"
    "frame_stage2 epd w1 = Some (Inr w2)" "frame_fixed_13 epd 0xaa EPD_normal w2 = Some (Inr w')"
    by (auto simp: EPD_clear_def split: option.splits sum.splits)
  from frame_fixed_13_keeps[of "\<lambda>w. status_writes (trace w)", OF one_line_writes s(1)]
    frame_stage2_writes[OF s(2)]
    frame_fixed_13_keeps[of "\<lambda>w. status_writes (trace w)", OF one_line_writes s(3)]
  show ?thesis by simp
qed

lemma EPD_image_writes:
  assumes "EPD_image epd img w = Some (Inr w')"
  shows "status_writes (trace w') = status_writes (trace w)"
proof -
  from assms obtain w1 w2 where s: "frame_data_13 epd img EPD_inverse w = Some (Inr w1)"
    "frame_stage2 epd w1 = Some (Inr w2)" "frame_data_13 epd img EPD_normal w2 = Some (Inr w')"
    by (auto simp: EPD_image_def split: option.splits sum.splits)
  from frame_data_13_keeps[of "\<lambda>w. status_writes (trace w)", OF one_line_writes s(1)]
    frame_stage2_writes[OF s(2)]
    frame_data_13_keeps[of "\<lambda>w. status_writes (trace w)", OF one_line_writes s(3)]
  show ?thesis by simp
qed

subsection \<open>\<open>EPD_clear\<close>, \<open>EPD_image\<close> and \<open>EPD_end\<close> return\<close>

lemma ready_emit [simp]: "ready epd (emit es w) = ready epd w"
  by (simp add: ready_def)

lemma ready_streams [simp]:
  "ready epd (w\<lparr>gettime_in := g\<rparr>) = ready epd w" "ready epd (w\<lparr>settime_in := t\<rparr>) = ready epd w"
  "ready epd (w\<lparr>spi_in := x\<rparr>) = ready epd w"
  by (simp_all add: ready_def)

lemma timer_lapsed_emit [simp]: "timer_lapsed (emit es w) = timer_lapsed w"
  by (simp add: timer_lapsed_def)

lemma timer_lapsed_stl:
  assumes "timer_lapsed w"
  shows "timer_lapsed (w\<lparr>gettime_in := stl (gettime_in w)\<rparr>)"
    and "timer_lapsed (w\<lparr>settime_in := stl (settime_in w)\<rparr>)"
  using assms by (auto simp: timer_lapsed_def dest: stl_sset)

lemma timer_lapsed_shd:
  assumes "timer_lapsed w"
  shows "shd (settime_in w) \<noteq> - 1" "fst (shd (gettime_in w)) \<noteq> - 1"
    "\<not> (0 < fst (snd (shd (gettime_in w))) \<and> 0 < snd (snd (shd (gettime_in w))))"
  using assms shd_sset[of "settime_in w"] shd_sset[of "gettime_in w"]
  by (auto simp: timer_lapsed_def)

lemma timer_lapsed_same:
  "gettime_in w' = gettime_in w \<Longrightarrow> settime_in w' = settime_in w \<Longrightarrow> timer_lapsed w' = timer_lapsed w"
  by (simp add: timer_lapsed_def)

lemma fixed_frame_returns:
  assumes "ready epd w"
  shows "\<exists>w'. fixed_frame epd fv 0 w = Some (Inr w') \<and> ready epd w' \<and>
           gettime_in w' = gettime_in w \<and> settime_in w' = settime_in w"
proof -
  from assms have ph: "panel_handle epd" by (simp add: ready_def)
  then have n: "lines_per_display epd = int (nat (lines_per_display epd))" "nat (lines_per_display epd) \<le> 255"
    by (auto elim!: panel_handle_cases)
  from fixed_frame_calls[OF assms n, of 0 fv]
  obtain w1 where w1: "fixed_frame epd fv 0 w = Some (Inr w1)" "ready epd w1"
    by auto
  from fixed_frame_keeps[of "\<lambda>w. (gettime_in w, settime_in w)", OF one_line_timers w1(1)]
  have "gettime_in w1 = gettime_in w" "settime_in w1 = settime_in w" by simp_all
  with w1 show ?thesis by blast
qed

lemma timed_frames_returns:
  assumes "ready epd w" and "timer_lapsed w"
  shows "\<exists>w'. timed_frames epd fv w = Some (Inr w') \<and> ready epd w' \<and> timer_lapsed w'"
proof -
  from fixed_frame_returns[OF assms(1), of fv]
  obtain w1 where w1: "fixed_frame epd fv 0 w = Some (Inr w1)" "ready epd w1"
    "gettime_in w1 = gettime_in w" "settime_in w1 = settime_in w"
    by blast
  from timer_lapsed_same[OF w1(3,4)] assms(2) have l1: "timer_lapsed w1" by simp
  let ?w2 = "emit [Ev_timer_gettime (timer epd)] (w1\<lparr>gettime_in := stl (gettime_in w1)\<rparr>)"
  obtain ret sec nsec where g: "shd (gettime_in w1) = (ret, sec, nsec)"
    by (metis prod_cases3)
  with timer_lapsed_shd(2,3)[OF l1] have stop: "- 1 \<noteq> ret" "\<not> (0 < sec \<and> 0 < nsec)"
    by auto
  have "timed_frames epd fv w = Some (Inr ?w2)"
    using stop by (subst timed_frames.simps) (auto simp: w1(1) timer_gettime_def g)
  moreover have "ready epd ?w2" using w1(2) by simp
  moreover have "timer_lapsed ?w2" using timer_lapsed_stl(1)[OF l1] by simp
  ultimately show ?thesis by blast
qed

lemma frame_fixed_timed_returns:
  assumes "ready epd w" and "timer_lapsed w"
  shows "\<exists>w'. frame_fixed_timed epd fv t w = Some (Inr w') \<and> ready epd w' \<and> timer_lapsed w'"
proof -
  let ?w1 = "emit [Ev_timer_settime (timer epd) (t sdiv 1000) (t smod 1000 * 1000000)]
               (w\<lparr>settime_in := stl (settime_in w)\<rparr>)"
  have r1: "ready epd ?w1" using assms(1) by simp
  have l1: "timer_lapsed ?w1" using timer_lapsed_stl(2)[OF assms(2)] by simp
  from timed_frames_returns[OF r1 l1, of fv]
  obtain w' where w': "timed_frames epd fv ?w1 = Some (Inr w')" "ready epd w'" "timer_lapsed w'"
    by blast
  have "frame_fixed_timed epd fv t w = Some (Inr w')"
    using timer_lapsed_shd(1)[OF assms(2)] w'(1)
    by (simp add: frame_fixed_timed_def Let_def timer_settime_def eq_commute[of "- 1"])
  with w'(2,3) show ?thesis by blast
qed

lemma stage2_loop_returns:
  assumes "ready epd w" and "timer_lapsed w"
  shows "\<exists>w'. stage2_loop epd c i w = Some (Inr w') \<and> ready epd w' \<and> timer_lapsed w'"
  using assms
proof (induction "nat (uint (stage2_repeat c) - i)" arbitrary: i w)
  case 0
  then show ?case by (subst stage2_loop.simps) simp
next
  case (Suc n)
  then have lt: "i < uint (stage2_repeat c)" by simp
  from frame_fixed_timed_returns[OF Suc.prems, of "0xff" "uint (stage2_t1 c)"]
  obtain w1 where w1: "frame_fixed_timed epd 0xff (uint (stage2_t1 c)) w = Some (Inr w1)"
    "ready epd w1" "timer_lapsed w1"
    by blast
  from frame_fixed_timed_returns[OF w1(2,3), of "0xaa" "uint (stage2_t2 c)"]
  obtain w2 where w2: "frame_fixed_timed epd 0xaa (uint (stage2_t2 c)) w1 = Some (Inr w2)"
    "ready epd w2" "timer_lapsed w2"
    by blast
  from Suc.hyps(2) have "n = nat (uint (stage2_repeat c) - (i + 1))" by simp
  from Suc.hyps(1)[OF this w2(2,3)]
  obtain w' where "stage2_loop epd c (i + 1) w2 = Some (Inr w')" "ready epd w'" "timer_lapsed w'"
    by blast
  with lt w1(1) w2(1) show ?case
    by (subst stage2_loop.simps) simp
qed

lemma frame_stage2_returns:
  assumes "ready epd w" and "timer_lapsed w" and "configured epd"
  shows "\<exists>w'. frame_stage2 epd w = Some (Inr w') \<and> ready epd w' \<and> timer_lapsed w'"
proof -
  from configured_rows[OF assms(3)]
  obtain c where c: "deref_compensation (compensation epd) = Some c" by blast
  from stage2_loop_returns[OF assms(1,2), of c 0] show ?thesis
    by (simp add: frame_stage2_def c)
qed

lemma frame_fixed_13_returns:
  assumes "ready epd w" and "timer_lapsed w" and "configured epd"
  shows "\<exists>w'. frame_fixed_13 epd val stage w = Some (Inr w') \<and> ready epd w' \<and> timer_lapsed w'"
proof -
  from configured_rows[OF assms(3)]
  obtain c where c: "deref_compensation (compensation epd) = Some c"
    "stage3_repeat c = stage1_repeat c" "stage3_step c = stage1_step c" "stage3_block c = stage1_block c"
    "0 < uint (stage1_step c)"
    by blast
  have "\<exists>w'. frame_fixed_13 epd val stage w = Some (Inr w') \<and> ready epd w' \<and> mem w' = mem w \<and>
           one_line_calls (trace w') =
             one_line_calls (trace w)
               @ spec_schedule (spec_fixed_call val stage (lines_per_display epd) (uint (stage1_repeat c)))
                   (lines_per_display epd) (uint (stage1_repeat c)) (uint (stage1_step c)) (uint (stage1_block c))"
    by (rule frame_fixed_13_schedule[OF assms(1) c(1)]) (simp_all add: c)
  then obtain w' where w': "frame_fixed_13 epd val stage w = Some (Inr w')" "ready epd w'"
    by blast
  from frame_fixed_13_keeps[of "\<lambda>w. (gettime_in w, settime_in w)", OF one_line_timers w'(1)]
  have "gettime_in w' = gettime_in w" "settime_in w' = settime_in w" by simp_all
  from timer_lapsed_same[OF this] assms(2) w' show ?thesis by blast
qed

lemma frame_data_13_returns:
  assumes "ready epd w" and "timer_lapsed w" and "configured epd"
  shows "\<exists>w'. frame_data_13 epd img stage w = Some (Inr w') \<and> ready epd w' \<and> timer_lapsed w'"
proof -
  from configured_rows[OF assms(3)]
  obtain c where c: "deref_compensation (compensation epd) = Some c"
    "stage3_repeat c = stage1_repeat c" "stage3_step c = stage1_step c" "stage3_block c = stage1_block c"
    "0 < uint (stage1_step c)"
    by blast
  have "\<exists>w'. frame_data_13 epd img stage w = Some (Inr w') \<and> ready epd w' \<and> mem w' = mem w \<and>
           one_line_calls (trace w') =
             one_line_calls (trace w)
               @ spec_schedule (spec_data_call img stage (lines_per_display epd) (bytes_per_line epd)
                                  (uint (stage1_repeat c)))
                   (lines_per_display epd) (uint (stage1_repeat c)) (uint (stage1_step c)) (uint (stage1_block c))"
    by (rule frame_data_13_schedule[OF assms(1) c(1)]) (simp_all add: c)
  then obtain w' where w': "frame_data_13 epd img stage w = Some (Inr w')" "ready epd w'"
    by blast
  from frame_data_13_keeps[of "\<lambda>w. (gettime_in w, settime_in w)", OF one_line_timers w'(1)]
  have "gettime_in w' = gettime_in w" "settime_in w' = settime_in w" by simp_all
  from timer_lapsed_same[OF this] assms(2) w' show ?thesis by blast
qed

lemma EPD_clear_returns:
  assumes "ready epd w" and "timer_lapsed w" and "configured epd"
  shows "\<exists>w'. EPD_clear epd w = Some (Inr w')"
proof -
  from frame_fixed_13_returns[OF assms, of "0xff" EPD_inverse]
  obtain w1 where w1: "frame_fixed_13 epd 0xff EPD_inverse w = Some (Inr w1)" "ready epd w1" "timer_lapsed w1"
    by blast
  from frame_stage2_returns[OF w1(2,3) assms(3)]
  obtain w2 where w2: "frame_stage2 epd w1 = Some (Inr w2)" "ready epd w2" "timer_lapsed w2"
    by blast
  from frame_fixed_13_returns[OF w2(2,3) assms(3), of "0xaa" EPD_normal]
  obtain w3 where "frame_fixed_13 epd 0xaa EPD_normal w2 = Some (Inr w3)"
    by blast
  with w1(1) w2(1) show ?thesis by (simp add: EPD_clear_def)
qed

lemma EPD_image_returns:
  assumes "ready epd w" and "timer_lapsed w" and "configured epd"
  shows "\<exists>w'. EPD_image epd img w = Some (Inr w')"
proof -
  from frame_data_13_returns[OF assms, of img EPD_inverse]
  obtain w1 where w1: "frame_data_13 epd img EPD_inverse w = Some (Inr w1)" "ready epd w1" "timer_lapsed w1"
    by blast
  from frame_stage2_returns[OF w1(2,3) assms(3)]
  obtain w2 where w2: "frame_stage2 epd w1 = Some (Inr w2)" "ready epd w2" "timer_lapsed w2"
    by blast
  from frame_data_13_returns[OF w2(2,3) assms(3), of img EPD_normal]
  obtain w3 where "frame_data_13 epd img EPD_normal w2 = Some (Inr w3)"
    by blast
  with w1(1) w2(1) show ?thesis by (simp add: EPD_image_def)
qed

lemma end_dummy_lines_writes:
  assumes "end_dummy_lines epd w = Inr w1"
  shows "status_writes (trace w1) = status_writes (trace w)"
proof (cases "EPD_2_7 = size_tag epd")
  case True
  with assms show ?thesis
    by (auto simp: end_dummy_lines_def Let_def Delay_ms_def digitalWrite_def)
next
  case False
  with assms obtain a b c where s: "one_line epd 0x7fff 0 0x00 EPD_normal 0xff w = Inr a"
    "one_line epd 0x7fff 0 0x00 EPD_normal 0xaa (Delay_ms 40 a) = Inr b"
    "one_line epd 0x7fff 0 0x00 EPD_normal 0x00 (Delay_ms 200 b) = Inr c" "w1 = Delay_ms 25 c"
    by (auto simp: end_dummy_lines_def split: sum.splits)
  from one_line_writes[OF s(1)] one_line_writes[OF s(2)] one_line_writes[OF s(3)] s(4)
  show ?thesis by (simp add: Delay_ms_def)
qed

lemma end_dummy_lines_returns:
  assumes "ready epd w"
  shows "\<exists>w1. end_dummy_lines epd w = Inr w1"
proof (cases "EPD_2_7 = size_tag epd")
  case True
  then show ?thesis by (simp add: end_dummy_lines_def Let_def)
next
  case False
  from one_line_timer[OF assms, of "0x7fff" 0 0 EPD_normal "0xff"]
  obtain a where a: "one_line epd 0x7fff 0 0x00 EPD_normal 0xff w = Inr a" "ready epd a" by blast
  from a(2) have "ready epd (Delay_ms 40 a)" by (simp add: Delay_ms_def)
  from one_line_timer[OF this, of "0x7fff" 0 0 EPD_normal "0xaa"]
  obtain b where b: "one_line epd 0x7fff 0 0x00 EPD_normal 0xaa (Delay_ms 40 a) = Inr b" "ready epd b" by blast
  from b(2) have "ready epd (Delay_ms 200 b)" by (simp add: Delay_ms_def)
  from one_line_timer[OF this, of "0x7fff" 0 0 EPD_normal 0]
  obtain c where c: "one_line epd 0x7fff 0 0x00 EPD_normal 0x00 (Delay_ms 200 b) = Inr c" by blast
  from False a(1) b(1) c show ?thesis by (simp add: end_dummy_lines_def)
qed

lemma EPD_end_status:
  assumes "EPD_end epd w = Inr (epd', w')"
  shows "(epd' = epd \<and> status_writes (trace w') = status_writes (trace w)) \<or>
         (epd' = epd\<lparr>status := EPD_DC_FAILED\<rparr> \<and>
          status_writes (trace w') = status_writes (trace w) @ [EPD_DC_FAILED])"
proof -
  from assms obtain w1 where w1: "end_dummy_lines epd w = Inr w1"
    by (auto simp: EPD_end_def split: sum.splits)
  from end_dummy_lines_writes[OF w1] have q: "status_writes (trace w1) = status_writes (trace w)" .
  from assms q show ?thesis
    by (auto simp: EPD_end_def w1 Let_def split_def io_emit power_off_emit split: if_splits)
qed

lemma EPD_end_returns:
  assumes "ready epd w"
  shows "\<exists>epd' w'. EPD_end epd w = Inr (epd', w')"
proof -
  from end_dummy_lines_returns[OF assms] obtain w1 where "end_dummy_lines epd w = Inr w1" ..
  then show ?thesis by (simp add: EPD_end_def Let_def split_def)
qed

lemma demo_timer_lapsed: "timer_lapsed (snd demo_created)"
  by (simp add: timer_lapsed_def demo_created_def EPD_create_def demo_world_def malloc_def Let_def
        EPD_set_temperature_def demo_struct_def)

section \<open>The properties\<close>

text \<open>
  C8. For every integer temperature \<open>t\<close>, \<open>EPD_set_temperature\<close> stores the band of
  \<open>t\<close> (0 below 10, 2 above 40, 1 otherwise) in \<open>temperature_offset\<close> and points
  \<open>compensation\<close> at the row of that band in the table of the handle's panel size; every
  other field of the handle is as before. At 9, 10, 40 and 41 degrees the bands are 0, 1, 1
  and 2.
\<close>

theorem set_temperature_selects_band:
  "EPD_set_temperature epd t =
     epd\<lparr>temperature_offset := of_nat (spec_band t),
         compensation := (spec_table (size_tag epd), spec_band t)\<rparr>
   \<and> deref_compensation (compensation (EPD_set_temperature epd t)) =
       Some (table_rows (spec_table (size_tag epd)) ! spec_band t)
   \<and> temperature_offset (EPD_set_temperature epd 9) = 0
   \<and> temperature_offset (EPD_set_temperature epd 10) = 1
   \<and> temperature_offset (EPD_set_temperature epd 40) = 1
   \<and> temperature_offset (EPD_set_temperature epd 41) = 2"
  by (cases "size_tag epd")
     (simp_all add: EPD_set_temperature_def spec_band_def spec_table_def deref_compensation_def
        compensation_144_def compensation_200_def compensation_270_def)

text \<open>
  C1. On a handle of any panel size whose line buffer is allocated, \<open>one_line\<close> with
  data pointing at a row \<open>R\<close> of \<open>bytes_per_line\<close> bytes sends a frame whose odd-pixel
  region is \<open>f\<close> of the bytes of \<open>R\<close> in reverse order and whose even-pixel region is
  \<open>g\<close> of the bytes of \<open>R\<close> in forward order, with \<open>f\<close> and \<open>g\<close> the transforms of the
  stage; with no data, every byte of both regions is the fixed byte.
\<close>

theorem one_line_pixel_regions:
  assumes "ready epd w"
      and "length R = nat (bytes_per_line epd)"
      and "data \<noteq> 0"
      and "\<forall>i < length R. mem w (data + i) = R ! i"
  shows "(\<exists>frame w'.
            one_line epd line data fv stage border w = Inr w' \<and>
            trace w' = trace w @ Ev_one_line line data fv stage border # line_session (spi epd) frame \<and>
            odd_region epd frame = map (spec_odd stage) (rev R) \<and>
            even_region epd frame = map (spec_even stage) R)
       \<and> (\<exists>frame w'.
            one_line epd line 0 fv stage border w = Inr w' \<and>
            trace w' = trace w @ Ev_one_line line 0 fv stage border # line_session (spi epd) frame \<and>
            odd_region epd frame = replicate (nat (bytes_per_line epd)) fv \<and>
            even_region epd frame = replicate (nat (bytes_per_line epd)) fv)"
proof
  have R: "R = map (\<lambda>k. mem w (data + k)) [0..<length R]"
    using assms(4) by (intro nth_equalityI) simp_all
  have odd: "odd_part (length R) (mem w) data fv stage = map (spec_odd stage) (rev R)"
    apply (subst (2) R)
    using assms(3) by (simp add: odd_part_def odd_byte_spec rev_map)
  have even: "even_part (length R) (mem w) data fv stage = map (spec_even stage) R"
    apply (subst (2) R)
    using assms(3) by (simp add: even_part_def even_byte_spec)
  from one_line_trace[OF assms(1), of line data fv stage border]
  obtain w' where w': "one_line epd line data fv stage border w = Inr w'"
    "trace w' = trace w @ Ev_one_line line data fv stage border
        # line_session (spi epd) (line_frame epd line (mem w) data fv stage border)"
    by blast
  show "\<exists>frame w'.
            one_line epd line data fv stage border w = Inr w' \<and>
            trace w' = trace w @ Ev_one_line line data fv stage border # line_session (spi epd) frame \<and>
            odd_region epd frame = map (spec_odd stage) (rev R) \<and>
            even_region epd frame = map (spec_even stage) R"
    using assms(2) w' odd even
    by (intro exI[of _ "line_frame epd line (mem w) data fv stage border"] exI[of _ w'])
       (simp add: regions_line_frame)
next
  have odd: "odd_part n m 0 fv stage = replicate n fv" for n m
    by (simp add: odd_part_def map_replicate_const)
  have even: "even_part n m 0 fv stage = replicate n fv" for n m
    by (simp add: even_part_def map_replicate_const)
  from one_line_trace[OF assms(1), of line 0 fv stage border]
  obtain w' where w': "one_line epd line 0 fv stage border w = Inr w'"
    "trace w' = trace w @ Ev_one_line line 0 fv stage border
        # line_session (spi epd) (line_frame epd line (mem w) 0 fv stage border)"
    by blast
  show "\<exists>frame w'.
            one_line epd line 0 fv stage border w = Inr w' \<and>
            trace w' = trace w @ Ev_one_line line 0 fv stage border # line_session (spi epd) frame \<and>
            odd_region epd frame = replicate (nat (bytes_per_line epd)) fv \<and>
            even_region epd frame = replicate (nat (bytes_per_line epd)) fv"
    using w'
    by (intro exI[of _ "line_frame epd line (mem w) 0 fv stage border"] exI[of _ w'])
       (simp add: regions_line_frame odd even)
qed

theorem one_line_pixel_regions_witness:
  "ready demo_epd (snd demo_created)
   \<and> (\<exists>frame w'.
         one_line demo_epd 5 100 0 EPD_inverse 0 (snd demo_created) = Inr w' \<and>
         trace w' = Ev_one_line 5 100 0 EPD_inverse 0 # line_session 1 frame \<and>
         odd_region demo_epd frame = map (spec_odd EPD_inverse) (rev (map of_nat [100..<125])) \<and>
         even_region demo_epd frame = map (spec_even EPD_inverse) (map of_nat [100..<125]))
   \<and> (\<exists>frame w'.
         one_line demo_epd 5 0 0 EPD_inverse 0 (snd demo_created) = Inr w' \<and>
         trace w' = Ev_one_line 5 0 0 EPD_inverse 0 # line_session 1 frame \<and>
         odd_region demo_epd frame = replicate 25 0 \<and>
         even_region demo_epd frame = replicate 25 0)"
proof -
  let ?R = "map of_nat [100..<125] :: u8 list"
  have len: "length ?R = nat (bytes_per_line demo_epd)"
    by (simp add: demo_fields)
  have row: "\<forall>i < length ?R. mem (snd demo_created) (100 + i) = ?R ! i"
    by (simp add: demo_fields del: upt_rec_numeral)
  show ?thesis
    using one_line_pixel_regions[OF demo_ready len _ row, of 5 0 EPD_inverse 0]
    by (simp add: demo_ready demo_fields del: upt_rec_numeral)
qed

text \<open>
  C2. On a handle of any panel size, for every line number below \<open>lines_per_display\<close>
  the scan-selector region of the frame \<open>one_line\<close> sends is all zero but for one byte:
  the byte at index \<open>(L - line - 1) div 4\<close>, which is \<open>0x03\<close> shifted left by
  \<open>2 * (line mod 4)\<close> and is not zero. For the sentinel line \<open>0x7fff\<close> the whole region
  is zero.
\<close>

theorem scan_selector_one_hot:
  assumes "ready epd w" and "uint line < lines_per_display epd"
  shows "(\<exists>frame w'.
            one_line epd line data fv stage border w = Inr w' \<and>
            trace w' = trace w @ Ev_one_line line data fv stage border # line_session (spi epd) frame \<and>
            scan_region epd frame =
              (replicate (nat (bytes_per_scan epd)) 0)
                [nat ((lines_per_display epd - uint line - 1) div 4) := push_bit (2 * (unat line mod 4)) 0x03] \<and>
            nat ((lines_per_display epd - uint line - 1) div 4) < nat (bytes_per_scan epd) \<and>
            push_bit (2 * (unat line mod 4)) (0x03::u8) \<noteq> 0)
       \<and> (\<exists>frame w'.
            one_line epd 0x7fff data fv stage border w = Inr w' \<and>
            trace w' = trace w @ Ev_one_line 0x7fff data fv stage border # line_session (spi epd) frame \<and>
            scan_region epd frame = replicate (nat (bytes_per_scan epd)) 0)"
proof
  from assms(1) have ph: "panel_handle epd" by (simp add: ready_def)
  from one_line_trace[OF assms(1), of line data fv stage border]
  obtain w' where w': "one_line epd line data fv stage border w = Inr w'"
    "trace w' = trace w @ Ev_one_line line data fv stage border
        # line_session (spi epd) (line_frame epd line (mem w) data fv stage border)"
    by blast
  have nonneg: "0 \<le> lines_per_display epd - uint line - 1" using assms(2) by simp
  show "\<exists>frame w'.
            one_line epd line data fv stage border w = Inr w' \<and>
            trace w' = trace w @ Ev_one_line line data fv stage border # line_session (spi epd) frame \<and>
            scan_region epd frame =
              (replicate (nat (bytes_per_scan epd)) 0)
                [nat ((lines_per_display epd - uint line - 1) div 4) := push_bit (2 * (unat line mod 4)) 0x03] \<and>
            nat ((lines_per_display epd - uint line - 1) div 4) < nat (bytes_per_scan epd) \<and>
            push_bit (2 * (unat line mod 4)) (0x03::u8) \<noteq> 0"
    using w' scan_index_in_range[OF ph assms(2)] selector_nonzero[of "unat line"]
    by (intro exI[of _ "line_frame epd line (mem w) data fv stage border"] exI[of _ w'])
       (simp add: regions_line_frame scan_part_one_hot[OF nonneg])
next
  from assms(1) have ph: "panel_handle epd" by (simp add: ready_def)
  from one_line_trace[OF assms(1), of "0x7fff" data fv stage border]
  obtain w' where w': "one_line epd 0x7fff data fv stage border w = Inr w'"
    "trace w' = trace w @ Ev_one_line 0x7fff data fv stage border
        # line_session (spi epd) (line_frame epd 0x7fff (mem w) data fv stage border)"
    by blast
  show "\<exists>frame w'.
            one_line epd 0x7fff data fv stage border w = Inr w' \<and>
            trace w' = trace w @ Ev_one_line 0x7fff data fv stage border # line_session (spi epd) frame \<and>
            scan_region epd frame = replicate (nat (bytes_per_scan epd)) 0"
    using w'
    by (intro exI[of _ "line_frame epd 0x7fff (mem w) data fv stage border"] exI[of _ w'])
       (simp add: regions_line_frame scan_part_sentinel[OF ph])
qed

theorem scan_selector_one_hot_witness:
  "ready demo_epd (snd demo_created) \<and> uint (5::u16) < lines_per_display demo_epd
   \<and> (\<exists>frame w'.
         one_line demo_epd 5 0 0xff EPD_normal 0 (snd demo_created) = Inr w' \<and>
         trace w' = Ev_one_line 5 0 0xff EPD_normal 0 # line_session 1 frame \<and>
         scan_region demo_epd frame = (replicate 24 0)[22 := 0x0c])
   \<and> (\<exists>frame w'.
         one_line demo_epd 0x7fff 0 0xff EPD_normal 0 (snd demo_created) = Inr w' \<and>
         trace w' = Ev_one_line 0x7fff 0 0xff EPD_normal 0 # line_session 1 frame \<and>
         scan_region demo_epd frame = replicate 24 0)"
proof -
  have lt: "uint (5::u16) < lines_per_display demo_epd" by (simp add: demo_fields)
  show ?thesis
    using scan_selector_one_hot[OF demo_ready lt, of 0 "0xff" EPD_normal 0]
    by (simp add: demo_ready demo_fields)
qed

text \<open>
  C3. For every panel size, \<open>EPD_create\<close> allocates a line buffer of
  \<open>2 * bytes_per_line + bytes_per_scan + 3\<close> bytes. Every call of \<open>one_line\<close> on such
  a handle writes to the start of that block, and sends, the frame made of the \<open>0x72\<close>
  prefix, the border byte, \<open>bytes_per_line\<close> odd-pixel bytes, \<open>bytes_per_scan\<close> scan
  bytes and \<open>bytes_per_line\<close> even-pixel bytes, which are
  \<open>2 * bytes_per_line + bytes_per_scan + 2\<close> bytes. The last byte of the block is as
  before, no other block changes, and there is no write outside the block.
\<close>

theorem one_line_frame_size:
  "(EPD_create sz pon bor dis rst bsy s w0 = (p, w1) \<and> p \<noteq> 0 \<longrightarrow>
      (\<exists>epd buf. handles w1 p = Some epd \<and> ready epd w1 \<and> size_tag epd = sz \<and>
         int (line_buffer_size epd) = 2 * bytes_per_line epd + bytes_per_scan epd + 3 \<and>
         heap w1 (line_buffer epd) = Some buf \<and> length buf = line_buffer_size epd))
   \<and> (ready epd w \<longrightarrow>
      (\<exists>buf frame w'.
         heap w (line_buffer epd) = Some buf \<and> length buf = line_buffer_size epd \<and>
         frame = [0x72, border]
                   @ odd_part (nat (bytes_per_line epd)) (mem w) data fv stage
                   @ scan_part (nat (bytes_per_scan epd)) (lines_per_display epd) line
                   @ even_part (nat (bytes_per_line epd)) (mem w) data fv stage \<and>
         int (length (odd_part (nat (bytes_per_line epd)) (mem w) data fv stage)) = bytes_per_line epd \<and>
         int (length (scan_part (nat (bytes_per_scan epd)) (lines_per_display epd) line)) = bytes_per_scan epd \<and>
         int (length (even_part (nat (bytes_per_line epd)) (mem w) data fv stage)) = bytes_per_line epd \<and>
         int (length frame) = 1 + 1 + bytes_per_line epd + bytes_per_scan epd + bytes_per_line epd \<and>
         int (length frame) = 2 * bytes_per_line epd + bytes_per_scan epd + 2 \<and>
         Suc (length frame) = line_buffer_size epd \<and>
         one_line epd line data fv stage border w = Inr w' \<and>
         w' = emit (Ev_one_line line data fv stage border # line_session (spi epd) frame)
                (w\<lparr>heap := (heap w)(line_buffer epd \<mapsto> frame @ [last buf])\<rparr>) \<and>
         trace w' = trace w @ Ev_one_line line data fv stage border # line_session (spi epd) frame \<and>
         heap w' (line_buffer epd) = Some (frame @ [last buf]) \<and>
         length (frame @ [last buf]) = line_buffer_size epd \<and>
         ready epd w'))"
proof (intro conjI impI)
  assume "EPD_create sz pon bor dis rst bsy s w0 = (p, w1) \<and> p \<noteq> 0"
  then obtain epd where e: "handles w1 p = Some epd" "ready epd w1" "size_tag epd = sz"
    using EPD_create_ready by blast
  then show "\<exists>epd buf. handles w1 p = Some epd \<and> ready epd w1 \<and> size_tag epd = sz \<and>
         int (line_buffer_size epd) = 2 * bytes_per_line epd + bytes_per_scan epd + 3 \<and>
         heap w1 (line_buffer epd) = Some buf \<and> length buf = line_buffer_size epd"
    by (auto simp: ready_def panel_handle_def split: option.splits)
next
  assume r: "ready epd w"
  then have ph: "panel_handle epd" by (simp add: ready_def)
  let ?o = "odd_part (nat (bytes_per_line epd)) (mem w) data fv stage"
  let ?s = "scan_part (nat (bytes_per_scan epd)) (lines_per_display epd) line"
  let ?e = "even_part (nat (bytes_per_line epd)) (mem w) data fv stage"
  let ?f = "[0x72, border] @ ?o @ ?s @ ?e"
  have f: "line_frame epd line (mem w) data fv stage border = ?f"
    by (simp add: line_frame_def)
  from one_line_ready[OF r, of line data fv stage border]
  obtain buf where buf: "heap w (line_buffer epd) = Some buf"
    and ol: "one_line epd line data fv stage border w =
       Inr (emit (Ev_one_line line data fv stage border # line_session (spi epd) ?f)
              (w\<lparr>heap := (heap w)(line_buffer epd \<mapsto> ?f @ drop (length ?f) buf)\<rparr>))"
    unfolding f by blast
  from r buf have len: "length buf = line_buffer_size epd"
    by (simp add: ready_def)
  have flen: "Suc (length ?f) = line_buffer_size epd"
    using panel_handle_nat(5)[OF ph] by simp
  have dr: "drop (length ?f) buf = [last buf]"
  proof -
    have "length buf = Suc (length ?f)" using flen len by simp
    then have "buf \<noteq> []" "length ?f = length buf - 1" by auto
    then show ?thesis
      by (metis append_butlast_last_id append_eq_conv_conj length_butlast)
  qed
  let ?w' = "emit (Ev_one_line line data fv stage border # line_session (spi epd) ?f)
              (w\<lparr>heap := (heap w)(line_buffer epd \<mapsto> ?f @ [last buf])\<rparr>)"
  have ol': "one_line epd line data fv stage border w = Inr ?w'"
    using ol unfolding dr .
  have lo: "int (length ?o) = bytes_per_line epd" "int (length ?s) = bytes_per_scan epd"
    "int (length ?e) = bytes_per_line epd"
    using panel_handle_nat(1,3)[OF ph] by simp_all
  have sz1: "int (length ?f) = 1 + 1 + bytes_per_line epd + bytes_per_scan epd + bytes_per_line epd"
    using panel_handle_nat(1,3)[OF ph] by simp
  have sz2: "int (length ?f) = 2 * bytes_per_line epd + bytes_per_scan epd + 2"
    using sz1 by simp
  have tr: "trace ?w' = trace w @ Ev_one_line line data fv stage border # line_session (spi epd) ?f"
    by (simp add: emit_def)
  have hp: "heap ?w' (line_buffer epd) = Some (?f @ [last buf])"
    by (simp add: emit_def)
  have ln: "length (?f @ [last buf]) = line_buffer_size epd"
    using flen by simp
  have rd: "ready epd ?w'"
    using ph ln by (simp add: ready_def emit_def del: length_append)
  show "\<exists>buf frame w'.
         heap w (line_buffer epd) = Some buf \<and> length buf = line_buffer_size epd \<and>
         frame = [0x72, border]
                   @ odd_part (nat (bytes_per_line epd)) (mem w) data fv stage
                   @ scan_part (nat (bytes_per_scan epd)) (lines_per_display epd) line
                   @ even_part (nat (bytes_per_line epd)) (mem w) data fv stage \<and>
         int (length (odd_part (nat (bytes_per_line epd)) (mem w) data fv stage)) = bytes_per_line epd \<and>
         int (length (scan_part (nat (bytes_per_scan epd)) (lines_per_display epd) line)) = bytes_per_scan epd \<and>
         int (length (even_part (nat (bytes_per_line epd)) (mem w) data fv stage)) = bytes_per_line epd \<and>
         int (length frame) = 1 + 1 + bytes_per_line epd + bytes_per_scan epd + bytes_per_line epd \<and>
         int (length frame) = 2 * bytes_per_line epd + bytes_per_scan epd + 2 \<and>
         Suc (length frame) = line_buffer_size epd \<and>
         one_line epd line data fv stage border w = Inr w' \<and>
         w' = emit (Ev_one_line line data fv stage border # line_session (spi epd) frame)
                (w\<lparr>heap := (heap w)(line_buffer epd \<mapsto> frame @ [last buf])\<rparr>) \<and>
         trace w' = trace w @ Ev_one_line line data fv stage border # line_session (spi epd) frame \<and>
         heap w' (line_buffer epd) = Some (frame @ [last buf]) \<and>
         length (frame @ [last buf]) = line_buffer_size epd \<and>
         ready epd w'"
    by (intro exI[of _ buf] exI[of _ ?f] exI[of _ ?w'] conjI buf len refl lo sz1 sz2 flen ol' tr hp ln rd)
qed

theorem one_line_frame_size_witness:
  "EPD_create EPD_2_0 136 195 196 139 138 1 demo_world = (fst demo_created, snd demo_created)
   \<and> fst demo_created \<noteq> 0
   \<and> (\<exists>epd buf. handles (snd demo_created) (fst demo_created) = Some epd \<and> ready epd (snd demo_created)
         \<and> line_buffer_size epd = 77 \<and> heap (snd demo_created) (line_buffer epd) = Some buf
         \<and> length buf = 77)
   \<and> ready demo_epd (snd demo_created)
   \<and> (\<exists>frame w'.
         one_line demo_epd 5 0 0xff EPD_normal 0 (snd demo_created) = Inr w' \<and>
         trace w' = Ev_one_line 5 0 0xff EPD_normal 0 # line_session 1 frame \<and>
         frame = [0x72, 0] @ replicate 25 0xff @ (replicate 24 0)[22 := 0x0c] @ replicate 25 0xff \<and>
         length frame = 76 \<and>
         heap w' (line_buffer demo_epd) = Some (frame @ [0]))"
proof -
  have c: "EPD_create EPD_2_0 136 195 196 139 138 1 demo_world = (fst demo_created, snd demo_created)"
    by (simp add: demo_created_def)
  have nz: "fst demo_created \<noteq> 0" by (simp add: demo_created_eq)
  have h: "heap (snd demo_created) = [8192 \<mapsto> map (\<lambda>i. 0) [0..<77]]"
    by (simp add: demo_created_def EPD_create_def demo_world_def malloc_def Let_def
        EPD_set_temperature_def demo_struct_def)
  note t = one_line_frame_size[of EPD_2_0 136 195 196 139 138 1 demo_world "fst demo_created"
      "snd demo_created" demo_epd "snd demo_created" 0 0 "0xff" EPD_normal 5]
  from t c nz
  have a: "\<exists>epd buf. handles (snd demo_created) (fst demo_created) = Some epd \<and> ready epd (snd demo_created)
         \<and> size_tag epd = EPD_2_0
         \<and> int (line_buffer_size epd) = 2 * bytes_per_line epd + bytes_per_scan epd + 3
         \<and> heap (snd demo_created) (line_buffer epd) = Some buf
         \<and> length buf = line_buffer_size epd"
    by blast
  from a have a': "\<exists>epd buf. handles (snd demo_created) (fst demo_created) = Some epd \<and> ready epd (snd demo_created)
         \<and> line_buffer_size epd = 77 \<and> heap (snd demo_created) (line_buffer epd) = Some buf
         \<and> length buf = 77"
    by (auto simp: ready_def panel_handle_def spec_geometry_def)
  have o: "odd_part 25 m 0 0xff EPD_normal = replicate 25 0xff" for m
    by (simp add: odd_part_def map_replicate_const)
  have e: "even_part 25 m 0 0xff EPD_normal = replicate 25 0xff" for m
    by (simp add: even_part_def map_replicate_const)
  have sc: "scan_part 24 96 5 = (replicate 24 0)[22 := 0x0c]"
    using scan_part_one_hot[of 96 5 24] by simp
  from t[THEN conjunct2] demo_ready
  obtain buf frame w' where b:
    "heap (snd demo_created) (line_buffer demo_epd) = Some buf"
    "frame = [0x72, 0] @ odd_part (nat (bytes_per_line demo_epd)) (mem (snd demo_created)) 0 0xff EPD_normal
        @ scan_part (nat (bytes_per_scan demo_epd)) (lines_per_display demo_epd) 5
        @ even_part (nat (bytes_per_line demo_epd)) (mem (snd demo_created)) 0 0xff EPD_normal"
    "one_line demo_epd 5 0 0xff EPD_normal 0 (snd demo_created) = Inr w'"
    "trace w' = trace (snd demo_created) @ Ev_one_line 5 0 0xff EPD_normal 0 # line_session (spi demo_epd) frame"
    "heap w' (line_buffer demo_epd) = Some (frame @ [last buf])"
    by blast
  from b(1) have "buf = replicate 77 0"
    by (simp add: h demo_fields map_replicate_const del: upt_rec_numeral)
  then have lb: "last buf = 0" by simp
  have fr: "frame = [0x72, 0] @ replicate 25 0xff @ (replicate 24 0)[22 := 0x0c] @ replicate 25 0xff"
    using b(2) by (simp add: demo_fields o e sc)
  have b': "\<exists>frame w'.
         one_line demo_epd 5 0 0xff EPD_normal 0 (snd demo_created) = Inr w' \<and>
         trace w' = Ev_one_line 5 0 0xff EPD_normal 0 # line_session 1 frame \<and>
         frame = [0x72, 0] @ replicate 25 0xff @ (replicate 24 0)[22 := 0x0c] @ replicate 25 0xff \<and>
         length frame = 76 \<and>
         heap w' (line_buffer demo_epd) = Some (frame @ [0])"
    using b(3,4,5) fr lb
    by (intro exI[of _ frame] exI[of _ w']) (simp add: demo_fields)
  show ?thesis using c nz a' b' demo_ready by blast
qed

text \<open>
  C4. On a 2.0 inch handle at 25 degrees, whose compensation row is
  \<open>{2, 2, 48, 4, 196, 196, 2, 2, 48}\<close>, \<open>frame_fixed_13(0xff, EPD_inverse)\<close> returns and
  calls \<open>one_line\<close> as the schedule of the specification says, \<open>2 * 72 * 48 = 6912\<close>
  times; every call has no data and border 0, and is a dummy line (line \<open>0x7fff\<close>, fixed
  0), a blanking line (fixed 0, normal stage) or a working line with fixed byte \<open>0xff\<close> in
  the inverse stage at a position from 0 to 96.
\<close>

theorem frame_fixed_13_call_count:
  assumes "ready epd w" and "size_tag epd = EPD_2_0"
      and "compensation epd = compensation (EPD_set_temperature epd 25)"
  shows "deref_compensation (compensation epd) = Some (comp 2 2 48  4 196 196  2 2 48)
     \<and> (\<exists>w' cs.
          frame_fixed_13 epd 0xff EPD_inverse w = Some (Inr w') \<and>
          one_line_calls (trace w') = one_line_calls (trace w) @ cs \<and>
          cs = spec_schedule (spec_fixed_call 0xff EPD_inverse 96 2) 96 2 2 48 \<and>
          length (window_starts (2 - 48) 2 (96 + 2)) = 72 \<and>
          length cs = 2 * 72 * 48 \<and> length cs = 6912 \<and>
          (\<forall>c \<in> set cs.
             c = (0x7fff, 0, 0x00, EPD_normal, 0x00) \<or>
             (\<exists>pos. 0 \<le> pos \<and> pos \<le> 96 \<and>
                (c = (word_of_int pos, 0, 0x00, EPD_normal, 0x00) \<or>
                 c = (word_of_int pos, 0, 0xff, EPD_inverse, 0x00)))))"
proof
  show "deref_compensation (compensation epd) = Some (comp 2 2 48  4 196 196  2 2 48)"
    by (rule comp_200_25[OF assms(2,3)])
next
  let ?cs = "spec_schedule (spec_fixed_call 0xff EPD_inverse 96 2) 96 2 2 48"
  from frame_fixed_13_200[OF assms]
  obtain w' where w': "frame_fixed_13 epd 0xff EPD_inverse w = Some (Inr w')"
    "one_line_calls (trace w') = one_line_calls (trace w) @ ?cs"
    by blast
  have len: "length ?cs = 6912"
    by (simp add: length_spec_schedule window_starts_200)
  have kinds: "c = (0x7fff, 0, 0x00, EPD_normal, 0x00) \<or>
             (\<exists>pos. 0 \<le> pos \<and> pos \<le> 96 \<and>
                (c = (word_of_int pos, 0, 0x00, EPD_normal, 0x00) \<or>
                 c = (word_of_int pos, 0, 0xff, EPD_inverse, 0x00)))" if "c \<in> set ?cs" for c
  proof -
    from in_spec_schedule[OF that]
    obtain n line offset where c: "c = spec_fixed_call 0xff EPD_inverse 96 2 n line offset"
      by blast
    show ?thesis
    proof (cases "line + offset < 0 \<or> line + offset > 96")
      case True
      then show ?thesis by (simp add: c spec_fixed_call_def Let_def)
    next
      case False
      then have "0 \<le> line + offset \<and> line + offset \<le> 96 \<and>
          (c = (word_of_int (line + offset), 0, 0x00, EPD_normal, 0x00) \<or>
           c = (word_of_int (line + offset), 0, 0xff, EPD_inverse, 0x00))"
        by (simp add: c spec_fixed_call_def Let_def)
      then show ?thesis
        by (intro disjI2 exI[of _ "line + offset"]) simp
    qed
  qed
  then have all: "\<forall>c \<in> set ?cs.
             c = (0x7fff, 0, 0x00, EPD_normal, 0x00) \<or>
             (\<exists>pos. 0 \<le> pos \<and> pos \<le> 96 \<and>
                (c = (word_of_int pos, 0, 0x00, EPD_normal, 0x00) \<or>
                 c = (word_of_int pos, 0, 0xff, EPD_inverse, 0x00)))"
    by (rule ballI)
  have ws: "length (window_starts (2 - 48) 2 (96 + 2)) = 72"
    using window_starts_200 by simp
  have len': "length ?cs = 2 * 72 * 48" using len by simp
  show "\<exists>w' cs.
          frame_fixed_13 epd 0xff EPD_inverse w = Some (Inr w') \<and>
          one_line_calls (trace w') = one_line_calls (trace w) @ cs \<and>
          cs = spec_schedule (spec_fixed_call 0xff EPD_inverse 96 2) 96 2 2 48 \<and>
          length (window_starts (2 - 48) 2 (96 + 2)) = 72 \<and>
          length cs = 2 * 72 * 48 \<and> length cs = 6912 \<and>
          (\<forall>c \<in> set cs.
             c = (0x7fff, 0, 0x00, EPD_normal, 0x00) \<or>
             (\<exists>pos. 0 \<le> pos \<and> pos \<le> 96 \<and>
                (c = (word_of_int pos, 0, 0x00, EPD_normal, 0x00) \<or>
                 c = (word_of_int pos, 0, 0xff, EPD_inverse, 0x00))))"
    by (intro exI[of _ w'] exI[of _ ?cs] conjI w' refl ws len len' all)
qed

theorem frame_fixed_13_call_count_witness:
  "ready demo_epd (snd demo_created) \<and> size_tag demo_epd = EPD_2_0
   \<and> compensation demo_epd = compensation (EPD_set_temperature demo_epd 25)
   \<and> (\<exists>w'. frame_fixed_13 demo_epd 0xff EPD_inverse (snd demo_created) = Some (Inr w') \<and>
          length (one_line_calls (trace w')) = 6912)"
proof -
  from frame_fixed_13_call_count[OF demo_ready demo_2_0]
  have "\<exists>w'. frame_fixed_13 demo_epd 0xff EPD_inverse (snd demo_created) = Some (Inr w') \<and>
          length (one_line_calls (trace w')) = 6912"
    by (auto simp: demo_fields)
  with demo_ready demo_2_0 show ?thesis by blast
qed

theorem frame_fixed_13_call_count_counterexample:
  "deref_compensation (compensation demo_epd) = Some (comp 2 2 48  4 196 196  2 2 48)
   \<and> \<not> (\<exists>w'. frame_fixed_13 demo_epd 0xff EPD_inverse (snd demo_created) = Some (Inr w') \<and>
            length (one_line_calls (trace w')) = 7008)"
proof -
  from frame_fixed_13_200[OF demo_ready demo_2_0]
  obtain w' where w': "frame_fixed_13 demo_epd 0xff EPD_inverse (snd demo_created) = Some (Inr w')"
    "one_line_calls (trace w') = spec_schedule (spec_fixed_call 0xff EPD_inverse 96 2) 96 2 2 48"
    by (auto simp: demo_fields)
  have "length (one_line_calls (trace w')) = 6912"
    by (simp add: w'(2) length_spec_schedule window_starts_200)
  with w'(1) comp_200_25[OF demo_2_0] show ?thesis by simp
qed

text \<open>
  C7. When the busy pin reads low after \<open>k\<close> polls, the COG-ID reply has low nibble 2
  and the breakage reply has bit 7 set: if the first DC reply has bit 6 set, \<open>EPD_begin\<close>
  returns with status \<open>EPD_OK\<close> after exactly one bring-up cycle, which sleeps
  240 + 40 + 40 ms; if the first four DC replies have bit 6 clear, it returns with status
  \<open>EPD_DC_FAILED\<close> after exactly four cycles followed by \<open>power_off\<close>. The events
  of the call are given in full, the assignments to the status among them.
\<close>

theorem begin_dc_bring_up:
  assumes "busy_for k (gpio_in w)"
      and "0x0f AND (spi_in w !! 1) 1 = 0x02"
      and "0x80 AND (spi_in w !! 2) 1 \<noteq> 0"
  shows "(0x40 AND (spi_in w !! 3) 1 = 0x40 \<longrightarrow>
            EPD_begin epd w =
              Some (epd\<lparr>status := EPD_OK\<rparr>,
                    emit (Ev_status EPD_OK # spec_power_up epd @ spec_busy_poll epd k @ spec_cog_id_probe epd
                            @ spec_breakage_probe epd @ spec_register_program epd
                            @ spec_bring_up_cycle epd @ spec_output_disable epd)
                      (w\<lparr>gpio_in := sdrop (Suc k) (gpio_in w), spi_in := sdrop 4 (spi_in w)\<rparr>)))
       \<and> (0x40 AND (spi_in w !! 3) 1 \<noteq> 0x40 \<and> 0x40 AND (spi_in w !! 4) 1 \<noteq> 0x40 \<and>
            0x40 AND (spi_in w !! 5) 1 \<noteq> 0x40 \<and> 0x40 AND (spi_in w !! 6) 1 \<noteq> 0x40 \<longrightarrow>
            (\<exists>w'. EPD_begin epd w =
                    Some (epd\<lparr>status := EPD_DC_FAILED\<rparr>, power_off (epd\<lparr>status := EPD_DC_FAILED\<rparr>) w') \<and>
                  w' = emit (Ev_status EPD_OK # spec_power_up epd @ spec_busy_poll epd k @ spec_cog_id_probe epd
                            @ spec_breakage_probe epd @ spec_register_program epd
                            @ concat (replicate 4 (spec_bring_up_cycle epd)) @ [Ev_status EPD_DC_FAILED])
                         (w\<lparr>gpio_in := sdrop (Suc k) (gpio_in w), spi_in := sdrop 7 (spi_in w)\<rparr>) \<and>
                  trace (power_off (epd\<lparr>status := EPD_DC_FAILED\<rparr>) w') = trace w' @ spec_power_off epd))
       \<and> slept (spec_bring_up_cycle epd) = 1000 * (240 + 40 + 40)
       \<and> slept (concat (replicate 4 (spec_bring_up_cycle epd))) = 4 * (1000 * (240 + 40 + 40))"
proof (intro conjI impI)
  let ?e = "epd\<lparr>status := EPD_OK\<rparr>"
  let ?w1 = "emit (Ev_status EPD_OK # spec_power_up epd @ spec_busy_poll epd k) (w\<lparr>gpio_in := sdrop (Suc k) (gpio_in w)\<rparr>)"
  have nb: "0 \<noteq> 0x80 AND (spi_in w !! 2) 1" using assms(3) by simp
  {
    assume dc: "0x40 AND (spi_in w !! 3) 1 = 0x40"
    have "begin_ready ?e ?w1 =
       (?e, emit (spec_cog_id_probe ?e @ spec_breakage_probe ?e
                @ spec_register_program ?e @ spec_bring_up_cycle ?e @ spec_output_disable ?e)
             (?w1\<lparr>spi_in := sdrop 4 (spi_in ?w1)\<rparr>))"
      using assms(2) nb dc by (intro begin_ready_ok) simp_all
    then show "EPD_begin epd w =
              Some (epd\<lparr>status := EPD_OK\<rparr>,
                    emit (Ev_status EPD_OK # spec_power_up epd @ spec_busy_poll epd k @ spec_cog_id_probe epd
                            @ spec_breakage_probe epd @ spec_register_program epd
                            @ spec_bring_up_cycle epd @ spec_output_disable epd)
                      (w\<lparr>gpio_in := sdrop (Suc k) (gpio_in w), spi_in := sdrop 4 (spi_in w)\<rparr>))"
      by (simp add: EPD_begin_after_wait[OF assms(1)] emit_emit)
  }
  {
    assume dc: "0x40 AND (spi_in w !! 3) 1 \<noteq> 0x40 \<and> 0x40 AND (spi_in w !! 4) 1 \<noteq> 0x40 \<and>
            0x40 AND (spi_in w !! 5) 1 \<noteq> 0x40 \<and> 0x40 AND (spi_in w !! 6) 1 \<noteq> 0x40"
    have "begin_ready ?e ?w1 =
       (?e\<lparr>status := EPD_DC_FAILED\<rparr>,
        power_off (?e\<lparr>status := EPD_DC_FAILED\<rparr>)
          (emit (spec_cog_id_probe ?e @ spec_breakage_probe ?e @ spec_register_program ?e
                 @ concat (replicate 4 (spec_bring_up_cycle ?e)) @ [Ev_status EPD_DC_FAILED])
           (?w1\<lparr>spi_in := sdrop 7 (spi_in ?w1)\<rparr>)))"
      using assms(2) nb dc by (intro begin_ready_dc_failed) (simp_all add: eq_commute[of "0x40"])
    then show "\<exists>w'. EPD_begin epd w =
                    Some (epd\<lparr>status := EPD_DC_FAILED\<rparr>, power_off (epd\<lparr>status := EPD_DC_FAILED\<rparr>) w') \<and>
                  w' = emit (Ev_status EPD_OK # spec_power_up epd @ spec_busy_poll epd k @ spec_cog_id_probe epd
                            @ spec_breakage_probe epd @ spec_register_program epd
                            @ concat (replicate 4 (spec_bring_up_cycle epd)) @ [Ev_status EPD_DC_FAILED])
                         (w\<lparr>gpio_in := sdrop (Suc k) (gpio_in w), spi_in := sdrop 7 (spi_in w)\<rparr>) \<and>
                  trace (power_off (epd\<lparr>status := EPD_DC_FAILED\<rparr>) w') = trace w' @ spec_power_off epd"
      by (simp add: EPD_begin_after_wait[OF assms(1)] emit_emit power_off_emit)
  }
  show "slept (spec_bring_up_cycle epd) = 1000 * (240 + 40 + 40)"
    by (simp add: spec_bring_up_cycle_def)
  show "slept (concat (replicate 4 (spec_bring_up_cycle epd))) = 4 * (1000 * (240 + 40 + 40))"
    by (simp add: spec_bring_up_cycle_def replicate_4)
qed

theorem begin_dc_bring_up_witness:
  "busy_for 2 (gpio_in demo_begin_ok) \<and> busy_for 2 (gpio_in demo_begin_fail)
   \<and> (\<exists>w'. EPD_begin demo_epd demo_begin_ok = Some (demo_epd\<lparr>status := EPD_OK\<rparr>, w') \<and>
          slept (trace w') = 5000 + 10000 + 5000 + 5000 + 5000 + 2 * 10 + 5000 + 1000 * (240 + 40 + 40))
   \<and> (\<exists>w'. EPD_begin demo_epd demo_begin_fail =
            Some (demo_epd\<lparr>status := EPD_DC_FAILED\<rparr>, power_off (demo_epd\<lparr>status := EPD_DC_FAILED\<rparr>) w') \<and>
          slept (trace w') = 5000 + 10000 + 5000 + 5000 + 5000 + 2 * 10 + 5000 + 4 * (1000 * (240 + 40 + 40)))"
proof -
  have tr: "trace demo_begin_ok = []" "trace demo_begin_fail = []"
    by (simp_all add: demo_begin_ok_def demo_begin_fail_def demo_fields)
  let ?pre = "spec_power_up demo_epd @ spec_busy_poll demo_epd 2 @ spec_cog_id_probe demo_epd
                @ spec_breakage_probe demo_epd @ spec_register_program demo_epd"
  let ?wa = "emit (Ev_status EPD_OK # spec_power_up demo_epd @ spec_busy_poll demo_epd 2 @ spec_cog_id_probe demo_epd
                            @ spec_breakage_probe demo_epd @ spec_register_program demo_epd
                            @ spec_bring_up_cycle demo_epd @ spec_output_disable demo_epd)
                      (demo_begin_ok\<lparr>gpio_in := sdrop (Suc 2) (gpio_in demo_begin_ok),
                         spi_in := sdrop 4 (spi_in demo_begin_ok)\<rparr>)"
  let ?wb = "emit (Ev_status EPD_OK # spec_power_up demo_epd @ spec_busy_poll demo_epd 2 @ spec_cog_id_probe demo_epd
                            @ spec_breakage_probe demo_epd @ spec_register_program demo_epd
                            @ concat (replicate 4 (spec_bring_up_cycle demo_epd)) @ [Ev_status EPD_DC_FAILED])
                         (demo_begin_fail\<lparr>gpio_in := sdrop (Suc 2) (gpio_in demo_begin_fail),
                            spi_in := sdrop 7 (spi_in demo_begin_fail)\<rparr>)"
  from begin_dc_bring_up[OF demo_begin_inputs(1,3,5), of demo_epd] demo_begin_inputs(7)
  have ea: "EPD_begin demo_epd demo_begin_ok = Some (demo_epd\<lparr>status := EPD_OK\<rparr>, ?wa)"
    and cyc: "slept (spec_bring_up_cycle demo_epd) = 1000 * (240 + 40 + 40)"
    and cyc4: "slept (concat (replicate 4 (spec_bring_up_cycle demo_epd))) = 4 * (1000 * (240 + 40 + 40))"
    by blast+
  from begin_dc_bring_up[OF demo_begin_inputs(2,4,6), of demo_epd] demo_begin_inputs(8)
  have eb: "EPD_begin demo_epd demo_begin_fail =
      Some (demo_epd\<lparr>status := EPD_DC_FAILED\<rparr>, power_off (demo_epd\<lparr>status := EPD_DC_FAILED\<rparr>) ?wb)"
    by blast
  have od: "slept (spec_output_disable demo_epd) = 0"
    by (simp add: spec_output_disable_def)
  have sa: "slept (trace ?wa) = 5000 + 10000 + 5000 + 5000 + 5000 + 2 * 10 + 5000 + 1000 * (240 + 40 + 40)"
    using slept_begin_prefix[of demo_epd] cyc od
    by (simp add: tr)
  have sb: "slept (trace ?wb) = 5000 + 10000 + 5000 + 5000 + 5000 + 2 * 10 + 5000 + 4 * (1000 * (240 + 40 + 40))"
    using slept_begin_prefix[of demo_epd] cyc4
    by (simp add: tr)
  from ea sa eb sb demo_begin_inputs(1,2) show ?thesis by blast
qed

text \<open>
  C9. \<open>EPD_destroy\<close> on NULL does nothing. On the handle \<open>EPD_create\<close> returned it frees
  the line buffer and the handle, and nothing else changes: the timer that \<open>EPD_create\<close>
  made is still among the live timers.
\<close>

theorem destroy_frees_memory_only:
  "EPD_destroy 0 w = Inr w
   \<and> (EPD_create sz pon bor dis rst bsy s w0 = (p, w1) \<and> p \<noteq> 0 \<longrightarrow>
        (\<exists>epd. handles w1 p = Some epd \<and> line_buffer epd \<in> dom (heap w1) \<and>
           EPD_destroy p w1 =
             Inr (w1\<lparr>heap := (heap w1)(line_buffer epd := None),
                     handles := (handles w1)(p := None)\<rparr>) \<and>
           timer epd \<in> timers (w1\<lparr>heap := (heap w1)(line_buffer epd := None),
                                  handles := (handles w1)(p := None)\<rparr>)))"
proof (intro conjI impI)
  show "EPD_destroy 0 w = Inr w" by (simp add: EPD_destroy_def)
next
  assume c: "EPD_create sz pon bor dis rst bsy s w0 = (p, w1) \<and> p \<noteq> 0"
  then obtain epd where e: "handles w1 p = Some epd" "ready epd w1" "line_buffer epd \<noteq> 0"
    "timer epd \<in> timers w1"
    using EPD_create_ready by blast
  from e(2) have d: "line_buffer epd \<in> dom (heap w1)"
    by (auto simp: ready_def split: option.splits)
  show "\<exists>epd. handles w1 p = Some epd \<and> line_buffer epd \<in> dom (heap w1) \<and>
           EPD_destroy p w1 =
             Inr (w1\<lparr>heap := (heap w1)(line_buffer epd := None),
                     handles := (handles w1)(p := None)\<rparr>) \<and>
           timer epd \<in> timers (w1\<lparr>heap := (heap w1)(line_buffer epd := None),
                                  handles := (handles w1)(p := None)\<rparr>)"
    using c e d
    by (intro exI[of _ epd]) (simp add: EPD_destroy_def free_def)
qed

theorem destroy_frees_memory_only_witness:
  "EPD_create EPD_2_0 136 195 196 139 138 1 demo_world = (fst demo_created, snd demo_created)
   \<and> fst demo_created \<noteq> 0
   \<and> (\<exists>w2. EPD_destroy (fst demo_created) (snd demo_created) = Inr w2 \<and>
          heap w2 = Map.empty \<and> handles w2 = Map.empty \<and> timers w2 = {7})"
proof -
  have c: "EPD_create EPD_2_0 136 195 196 139 138 1 demo_world = (fst demo_created, snd demo_created)"
    by (simp add: demo_created_def)
  have nz: "fst demo_created \<noteq> 0" by (simp add: demo_created_eq)
  have h: "heap (snd demo_created) = [8192 \<mapsto> map (\<lambda>i. 0) [0..<77]]"
    "handles (snd demo_created) = [4096 \<mapsto> demo_epd]"
    by (simp_all add: demo_epd_def demo_created_def EPD_create_def demo_world_def malloc_def Let_def
        EPD_set_temperature_def demo_struct_def)
  from destroy_frees_memory_only[of demo_world EPD_2_0 136 195 196 139 138 1 demo_world
      "fst demo_created" "snd demo_created"] c nz
  obtain epd where e: "handles (snd demo_created) (fst demo_created) = Some epd"
    "EPD_destroy (fst demo_created) (snd demo_created) =
       Inr ((snd demo_created)\<lparr>heap := (heap (snd demo_created))(line_buffer epd := None),
               handles := (handles (snd demo_created))(fst demo_created := None)\<rparr>)"
    by blast
  from e(1) have "epd = demo_epd" by (simp add: demo_epd_def)
  with e(2) have "\<exists>w2. EPD_destroy (fst demo_created) (snd demo_created) = Inr w2 \<and>
          heap w2 = Map.empty \<and> handles w2 = Map.empty \<and> timers w2 = {7}"
    by (simp add: h demo_fields demo_created_eq)
  with c nz show ?thesis by blast
qed

theorem destroy_keeps_timer_counterexample:
  "timers demo_world = {}
   \<and> timer demo_epd \<in> timers (snd demo_created)
   \<and> (\<exists>w2. EPD_destroy (fst demo_created) (snd demo_created) = Inr w2 \<and>
          timer demo_epd \<in> timers w2)"
proof -
  have h: "heap (snd demo_created) = [8192 \<mapsto> map (\<lambda>i. 0) [0..<77]]"
    "handles (snd demo_created) = [4096 \<mapsto> demo_epd]"
    by (simp_all add: demo_epd_def demo_created_def EPD_create_def demo_world_def malloc_def Let_def
        EPD_set_temperature_def demo_struct_def)
  show ?thesis
    by (simp add: EPD_destroy_def free_def h demo_fields demo_created_eq demo_world_def)
qed

text \<open>
  C5. The specification has \<open>frame_fixed_timed\<close> send another frame whenever the time
  remaining on the timer is positive. Here the stage time is 196 ms and the timer reports
  0.1 seconds remaining, which is positive; \<open>frame_fixed_timed\<close> still returns after one
  frame of 96 lines and one query of the timer, because the seconds field is 0.
\<close>

theorem frame_fixed_timed_stops_early:
  "shd (gettime_in demo_timed) = (0, 0, 100000000)
   \<and> (\<exists>w'. frame_fixed_timed demo_epd 0xff 196 demo_timed = Some (Inr w') \<and>
          timer_queries (trace w') = 1 \<and>
          length (one_line_calls (trace w')) = 96)"
proof -
  have g: "shd (gettime_in demo_timed) = (0, 0, 100000000)"
    by (simp add: demo_timed_def)
  let ?w1 = "emit [Ev_timer_settime 7 0 196000000] (demo_timed\<lparr>settime_in := stl (settime_in demo_timed)\<rparr>)"
  have st: "timer_settime (timer demo_epd) 0 196000000 demo_timed = (0, ?w1)"
    by (simp add: timer_settime_def demo_timed_def demo_fields signed_divide_int_def
          signed_modulo_int_def demo_created_def EPD_create_def demo_world_def malloc_def Let_def)
  have r: "ready demo_epd ?w1"
    using demo_ready by (simp add: ready_def demo_timed_def)
  have g1: "shd (gettime_in ?w1) = (0, 0, 100000000)"
    by (simp add: demo_timed_def)
  from timed_frames_stops[OF r g1, of "0xff"]
  obtain w' where w': "timed_frames demo_epd 0xff ?w1 = Some (Inr w')"
    "timer_queries (trace w') = timer_queries (trace ?w1) + 1"
    "one_line_calls (trace w') =
       one_line_calls (trace ?w1)
         @ map (\<lambda>k. (of_nat k, 0, 0xff, EPD_normal, 0x00)) [0..<nat (lines_per_display demo_epd)]"
    by auto
  have "frame_fixed_timed demo_epd 0xff 196 demo_timed = Some (Inr w')"
    by (simp add: frame_fixed_timed_def Let_def st w'(1) signed_divide_int_def signed_modulo_int_def)
  moreover have "timer_queries (trace w') = 1"
    using w'(2) by (simp add: demo_timed_def demo_fields)
  moreover have "length (one_line_calls (trace w')) = 96"
    using w'(3) by (simp add: demo_timed_def demo_fields)
  ultimately show ?thesis using g by blast
qed

text \<open>
  C6. On a configured handle whose line buffer is allocated, at every \<open>n\<close>, \<open>line\<close> and
  \<open>offset\<close> the body of the innermost loop of \<open>frame_fixed_13\<close> and of
  \<open>frame_data_13\<close> makes one call of \<open>one_line\<close>, which is the dummy line (line
  \<open>0x7fff\<close>, no data) exactly when \<open>pos = line + offset\<close> is below 0 or above
  \<open>lines_per_display\<close>; at \<open>pos = lines_per_display\<close> the call is a real line with
  that line number, and in \<open>frame_data_13\<close>, unless it is the blanking line, its data
  pointer is \<open>image + lines_per_display * bytes_per_line\<close>, the first address after the
  image buffer. Both functions return, and a working line at \<open>pos = lines_per_display\<close>
  is among the calls of every run.
\<close>

theorem stage_schedule_boundary:
  assumes "ready epd w" and "configured epd"
  shows
    "(\<exists>w' c. fixed_13_pos epd val stage (lines_per_display epd) n repeat line offset w = Inr w' \<and>
         one_line_calls (trace w') = one_line_calls (trace w) @ [c] \<and>
         ((c = (0x7fff, 0, 0x00, EPD_normal, 0x00))
            = (line + offset < 0 \<or> line + offset > lines_per_display epd)) \<and>
         (line + offset = lines_per_display epd \<longrightarrow> uint (fst c) = lines_per_display epd))
     \<and> (\<exists>w' c. data_13_pos epd img stage (lines_per_display epd) n repeat line offset w = Inr w' \<and>
         one_line_calls (trace w') = one_line_calls (trace w) @ [c] \<and>
         ((c = (0x7fff, 0, 0x00, EPD_normal, 0x00))
            = (line + offset < 0 \<or> line + offset > lines_per_display epd)) \<and>
         (line + offset = lines_per_display epd \<longrightarrow> uint (fst c) = lines_per_display epd) \<and>
         (line + offset = lines_per_display epd \<and> \<not> (offset = 0 \<and> n = repeat - 1) \<longrightarrow>
            c = (word_of_int (lines_per_display epd), img + spec_image_size epd, 0, stage, 0x00)))
     \<and> (\<exists>w' cs. frame_fixed_13 epd val stage w = Some (Inr w') \<and>
         one_line_calls (trace w') = one_line_calls (trace w) @ cs \<and>
         (word_of_int (lines_per_display epd), 0, val, stage, 0x00) \<in> set cs)
     \<and> (\<exists>w' cs. frame_data_13 epd img stage w = Some (Inr w') \<and>
         one_line_calls (trace w') = one_line_calls (trace w) @ cs \<and>
         (word_of_int (lines_per_display epd), img + spec_image_size epd, 0, stage, 0x00) \<in> set cs)"
proof (intro conjI)
  let ?L = "lines_per_display epd"
  let ?bpl = "bytes_per_line epd"
  from assms(1) have ph: "panel_handle epd" by (simp add: ready_def)
  note L = panel_lines_le[OF ph]
  have size: "nat (?L * ?bpl) = spec_image_size epd"
    using L by (simp add: spec_image_size_def nat_mult_distrib)
  have uL: "uint (word_of_int ?L :: u16) = ?L"
    using L by (intro uint_pos_u16) simp_all
  from configured_rows[OF assms(2)]
  obtain c where c: "deref_compensation (compensation epd) = Some c"
    "stage3_repeat c = stage1_repeat c" "stage3_step c = stage1_step c" "stage3_block c = stage1_block c"
    "0 < uint (stage1_step c)" "1 < uint (stage1_repeat c)" "0 < uint (stage1_block c)"
    "uint (stage1_step c) dvd ?L + uint (stage1_block c) - uint (stage1_step c)"
    "uint (stage1_step c) \<le> ?L + uint (stage1_block c)"
    by blast
  let ?rp = "uint (stage1_repeat c)"
  let ?st = "uint (stage1_step c)"
  let ?bl = "uint (stage1_block c)"
  {
    let ?c = "spec_fixed_call val stage ?L repeat n line offset"
    from fixed_13_pos_call[OF assms(1), of val stage ?L n repeat line offset]
    obtain w' where w': "fixed_13_pos epd val stage ?L n repeat line offset w = Inr w'"
      "one_line_calls (trace w') = one_line_calls (trace w) @ [?c]"
      by blast
    have at: "line + offset = ?L \<longrightarrow> uint (fst ?c) = ?L"
      using uL L(1) by (auto simp: spec_fixed_call_def Let_def simp del: of_int_add)
    show "\<exists>w' c. fixed_13_pos epd val stage ?L n repeat line offset w = Inr w' \<and>
         one_line_calls (trace w') = one_line_calls (trace w) @ [c] \<and>
         ((c = (0x7fff, 0, 0x00, EPD_normal, 0x00)) = (line + offset < 0 \<or> line + offset > ?L)) \<and>
         (line + offset = ?L \<longrightarrow> uint (fst c) = ?L)"
      by (intro exI[of _ w'] exI[of _ ?c] conjI w' at spec_fixed_call_dummy_iff L(2))
  }
  {
    let ?c = "spec_data_call img stage ?L ?bpl repeat n line offset"
    from data_13_pos_call[OF assms(1), of img stage ?L n repeat line offset]
    obtain w' where w': "data_13_pos epd img stage ?L n repeat line offset w = Inr w'"
      "one_line_calls (trace w') = one_line_calls (trace w) @ [?c]"
      by blast
    have at: "line + offset = ?L \<longrightarrow> uint (fst ?c) = ?L"
      using uL L(1) by (auto simp: spec_data_call_def Let_def simp del: of_int_add)
    have past: "line + offset = ?L \<and> \<not> (offset = 0 \<and> n = repeat - 1) \<longrightarrow>
            ?c = (word_of_int ?L, img + spec_image_size epd, 0, stage, 0x00)"
      using size L(1) by (auto simp: spec_data_call_def Let_def simp del: of_int_add)
    show "\<exists>w' c. data_13_pos epd img stage ?L n repeat line offset w = Inr w' \<and>
         one_line_calls (trace w') = one_line_calls (trace w) @ [c] \<and>
         ((c = (0x7fff, 0, 0x00, EPD_normal, 0x00)) = (line + offset < 0 \<or> line + offset > ?L)) \<and>
         (line + offset = ?L \<longrightarrow> uint (fst c) = ?L) \<and>
         (line + offset = ?L \<and> \<not> (offset = 0 \<and> n = repeat - 1) \<longrightarrow>
            c = (word_of_int ?L, img + spec_image_size epd, 0, stage, 0x00))"
      by (intro exI[of _ w'] exI[of _ ?c] conjI w' at past spec_data_call_dummy_iff L(2))
  }
  {
    let ?cs = "spec_schedule (spec_fixed_call val stage ?L ?rp) ?L ?rp ?st ?bl"
    have "\<exists>w'. frame_fixed_13 epd val stage w = Some (Inr w') \<and> ready epd w' \<and> mem w' = mem w \<and>
           one_line_calls (trace w') = one_line_calls (trace w) @ ?cs"
      by (rule frame_fixed_13_schedule[OF assms(1) c(1)]) (simp_all add: c)
    then obtain w' where w': "frame_fixed_13 epd val stage w = Some (Inr w')"
      "one_line_calls (trace w') = one_line_calls (trace w) @ ?cs"
      by blast
    have "spec_fixed_call val stage ?L ?rp 0 ?L 0 \<in> set ?cs"
      by (rule boundary_in_schedule[OF c(5,6,7,8,9)])
    moreover have "spec_fixed_call val stage ?L ?rp 0 ?L 0 = (word_of_int ?L, 0, val, stage, 0x00)"
      using L c(6) by (simp add: spec_fixed_call_def)
    ultimately have m: "(word_of_int ?L, 0, val, stage, 0x00) \<in> set ?cs" by simp
    show "\<exists>w' cs. frame_fixed_13 epd val stage w = Some (Inr w') \<and>
         one_line_calls (trace w') = one_line_calls (trace w) @ cs \<and>
         (word_of_int ?L, 0, val, stage, 0x00) \<in> set cs"
      by (intro exI[of _ w'] exI[of _ ?cs] conjI w' m)
  }
  {
    let ?cs = "spec_schedule (spec_data_call img stage ?L ?bpl ?rp) ?L ?rp ?st ?bl"
    have "\<exists>w'. frame_data_13 epd img stage w = Some (Inr w') \<and> ready epd w' \<and> mem w' = mem w \<and>
           one_line_calls (trace w') = one_line_calls (trace w) @ ?cs"
      by (rule frame_data_13_schedule[OF assms(1) c(1)]) (simp_all add: c)
    then obtain w' where w': "frame_data_13 epd img stage w = Some (Inr w')"
      "one_line_calls (trace w') = one_line_calls (trace w) @ ?cs"
      by blast
    have "spec_data_call img stage ?L ?bpl ?rp 0 ?L 0 \<in> set ?cs"
      by (rule boundary_in_schedule[OF c(5,6,7,8,9)])
    moreover have "spec_data_call img stage ?L ?bpl ?rp 0 ?L 0
        = (word_of_int ?L, img + spec_image_size epd, 0, stage, 0x00)"
      using L c(6) size by (simp add: spec_data_call_def)
    ultimately have m: "(word_of_int ?L, img + spec_image_size epd, 0, stage, 0x00) \<in> set ?cs" by simp
    show "\<exists>w' cs. frame_data_13 epd img stage w = Some (Inr w') \<and>
         one_line_calls (trace w') = one_line_calls (trace w) @ cs \<and>
         (word_of_int ?L, img + spec_image_size epd, 0, stage, 0x00) \<in> set cs"
      by (intro exI[of _ w'] exI[of _ ?cs] conjI w' m)
  }
qed

theorem stage_schedule_boundary_witness:
  "ready demo_epd (snd demo_created) \<and> configured demo_epd
   \<and> spec_image_size demo_epd = 2400
   \<and> (\<exists>w'. data_13_pos demo_epd 100000 EPD_inverse 96 0 2 96 0 (snd demo_created) = Inr w' \<and>
          one_line_calls (trace w') = [(96, 102400, 0, EPD_inverse, 0)])
   \<and> (\<exists>w' cs. frame_data_13 demo_epd 100000 EPD_inverse (snd demo_created) = Some (Inr w') \<and>
          one_line_calls (trace w') = cs \<and> (96, 102400, 0, EPD_inverse, 0) \<in> set cs)"
proof -
  have sz: "spec_image_size demo_epd = 2400"
    by (simp add: spec_image_size_def demo_fields)
  note t = stage_schedule_boundary[OF demo_ready demo_configured,
      of "0xff" EPD_inverse 0 2 96 0 100000]
  note t2 = t[THEN conjunct2, THEN conjunct1]
  note t4 = t[THEN conjunct2, THEN conjunct2, THEN conjunct2]
  from t2 have a: "\<exists>w'. data_13_pos demo_epd 100000 EPD_inverse 96 0 2 96 0 (snd demo_created) = Inr w' \<and>
          one_line_calls (trace w') = [(96, 102400, 0, EPD_inverse, 0)]"
    by (auto simp: demo_fields sz)
  from t4 have b: "\<exists>w' cs. frame_data_13 demo_epd 100000 EPD_inverse (snd demo_created) = Some (Inr w') \<and>
          one_line_calls (trace w') = cs \<and> (96, 102400, 0, EPD_inverse, 0) \<in> set cs"
    by (auto simp: demo_fields sz)
  from a b sz demo_ready demo_configured show ?thesis by blast
qed

text \<open>
  C10. \<open>EPD_begin\<close> stores \<open>EPD_OK\<close> in the status as its first action: in every call
  that returns, which it does once the busy pin reads low, the first event is that store,
  the driving of the pins follows it, and any later store of the call is the error its
  probes find. The call does not look at the status it finds, and it returns with the status
  its own probes give, \<open>EPD_OK\<close> when none of them fails; so a status latched by an earlier
  session does not survive the next \<open>EPD_begin\<close>. No other operation stores \<open>EPD_OK\<close>:
  \<open>EPD_set_temperature\<close>, \<open>EPD_clear\<close> and \<open>EPD_image\<close> do not store a status, and
  \<open>EPD_end\<close> stores nothing or \<open>EPD_DC_FAILED\<close>, so that within a session an error
  stays an error.
\<close>

theorem begin_resets_status:
  "EPD_begin (epd\<lparr>status := s\<rparr>) w = EPD_begin epd w
   \<and> (\<forall>epd' w'. EPD_begin epd w = Some (epd', w') \<longrightarrow>
          epd' = epd\<lparr>status := spec_begin_status (spi_in w)\<rparr> \<and>
          EPD_status epd' = spec_begin_status (spi_in w) \<and>
          (\<exists>rest. trace w' = trace w @ Ev_status EPD_OK # spec_power_up epd @ rest \<and>
                  status_writes rest =
                    (if spec_begin_status (spi_in w) = EPD_OK then []
                     else [spec_begin_status (spi_in w)])))
   \<and> (busy_for k (gpio_in w) \<longrightarrow>
        (\<exists>w'. EPD_begin epd w = Some (epd\<lparr>status := spec_begin_status (spi_in w)\<rparr>, w')))
   \<and> (0x0f AND (spi_in w !! 1) 1 = 0x02 \<and> 0x80 AND (spi_in w !! 2) 1 \<noteq> 0 \<and>
        0x40 AND (spi_in w !! 3) 1 = 0x40 \<longrightarrow> spec_begin_status (spi_in w) = EPD_OK)
   \<and> status (EPD_set_temperature epd t) = status epd
   \<and> (\<forall>w'. EPD_clear epd w = Some (Inr w') \<longrightarrow> status_writes (trace w') = status_writes (trace w))
   \<and> (\<forall>w'. EPD_image epd img w = Some (Inr w') \<longrightarrow> status_writes (trace w') = status_writes (trace w))
   \<and> (ready epd w \<and> configured epd \<and> timer_lapsed w \<longrightarrow>
        (\<exists>w'. EPD_clear epd w = Some (Inr w')) \<and> (\<exists>w'. EPD_image epd img w = Some (Inr w')))
   \<and> (\<forall>epd' w'. EPD_end epd w = Inr (epd', w') \<longrightarrow>
          (epd' = epd \<and> status_writes (trace w') = status_writes (trace w)) \<or>
          (epd' = epd\<lparr>status := EPD_DC_FAILED\<rparr> \<and>
           status_writes (trace w') = status_writes (trace w) @ [EPD_DC_FAILED]))
   \<and> (ready epd w \<longrightarrow>
        (\<exists>epd' w'. EPD_end epd w = Inr (epd', w') \<and> (status epd \<noteq> EPD_OK \<longrightarrow> status epd' \<noteq> EPD_OK)))"
proof (intro conjI allI impI)
  show "EPD_begin (epd\<lparr>status := s\<rparr>) w = EPD_begin epd w"
    by (simp add: EPD_begin_def)
next
  fix epd' w'
  assume r: "EPD_begin epd w = Some (epd', w')"
  let ?e = "epd\<lparr>status := EPD_OK\<rparr>"
  from EPD_begin_busy_for[OF r] obtain j where j: "busy_for j (gpio_in w)" ..
  let ?w1 = "emit (Ev_status EPD_OK # spec_power_up epd @ spec_busy_poll epd j)
               (w\<lparr>gpio_in := sdrop (Suc j) (gpio_in w)\<rparr>)"
  from EPD_begin_after_wait[OF j, of epd] r have br: "begin_ready ?e ?w1 = (epd', w')"
    by simp
  from begin_ready_status[of ?e ?w1] br
  show e: "epd' = epd\<lparr>status := spec_begin_status (spi_in w)\<rparr>" by simp
  then show "EPD_status epd' = spec_begin_status (spi_in w)"
    by (simp add: EPD_status_def)
  from begin_ready_writes[of ?e ?w1] br
  obtain es where es: "trace w' = trace ?w1 @ es"
    "status_writes es =
       (if spec_begin_status (spi_in w) = EPD_OK then [] else [spec_begin_status (spi_in w)])"
    by auto
  show "\<exists>rest. trace w' = trace w @ Ev_status EPD_OK # spec_power_up epd @ rest \<and>
          status_writes rest =
            (if spec_begin_status (spi_in w) = EPD_OK then [] else [spec_begin_status (spi_in w)])"
    using es by (intro exI[of _ "spec_busy_poll epd j @ es"]) simp
next
  assume b: "busy_for k (gpio_in w)"
  let ?e = "epd\<lparr>status := EPD_OK\<rparr>"
  let ?w1 = "emit (Ev_status EPD_OK # spec_power_up epd @ spec_busy_poll epd k)
               (w\<lparr>gpio_in := sdrop (Suc k) (gpio_in w)\<rparr>)"
  have r: "EPD_begin epd w = Some (begin_ready ?e ?w1)"
    by (rule EPD_begin_after_wait[OF b])
  have "fst (begin_ready ?e ?w1) = ?e\<lparr>status := spec_begin_status (spi_in ?w1)\<rparr>"
    by (rule begin_ready_status) simp
  then have f: "fst (begin_ready ?e ?w1) = epd\<lparr>status := spec_begin_status (spi_in w)\<rparr>"
    by simp
  show "\<exists>w'. EPD_begin epd w = Some (epd\<lparr>status := spec_begin_status (spi_in w)\<rparr>, w')"
    by (intro exI[of _ "snd (begin_ready ?e ?w1)"]) (simp add: r f[symmetric])
next
  assume "0x0f AND (spi_in w !! 1) 1 = 0x02 \<and> 0x80 AND (spi_in w !! 2) 1 \<noteq> 0 \<and>
        0x40 AND (spi_in w !! 3) 1 = 0x40"
  then show "spec_begin_status (spi_in w) = EPD_OK"
    by (simp add: spec_begin_status_def)
next
  show "status (EPD_set_temperature epd t) = status epd"
    by (simp add: EPD_set_temperature_def Let_def split: EPD_size.splits)
next
  fix w'
  assume "EPD_clear epd w = Some (Inr w')"
  then show "status_writes (trace w') = status_writes (trace w)"
    by (rule EPD_clear_writes)
next
  fix w'
  assume "EPD_image epd img w = Some (Inr w')"
  then show "status_writes (trace w') = status_writes (trace w)"
    by (rule EPD_image_writes)
next
  assume a: "ready epd w \<and> configured epd \<and> timer_lapsed w"
  then show "\<exists>w'. EPD_clear epd w = Some (Inr w')"
    by (intro EPD_clear_returns) simp_all
  from a show "\<exists>w'. EPD_image epd img w = Some (Inr w')"
    by (intro EPD_image_returns) simp_all
next
  fix epd' w'
  assume "EPD_end epd w = Inr (epd', w')"
  then show "(epd' = epd \<and> status_writes (trace w') = status_writes (trace w)) \<or>
          (epd' = epd\<lparr>status := EPD_DC_FAILED\<rparr> \<and>
           status_writes (trace w') = status_writes (trace w) @ [EPD_DC_FAILED])"
    by (rule EPD_end_status)
next
  assume "ready epd w"
  from EPD_end_returns[OF this] obtain epd' w' where r: "EPD_end epd w = Inr (epd', w')"
    by blast
  from EPD_end_status[OF r] have "status epd \<noteq> EPD_OK \<longrightarrow> status epd' \<noteq> EPD_OK"
    by auto
  with r show "\<exists>epd' w'. EPD_end epd w = Inr (epd', w') \<and> (status epd \<noteq> EPD_OK \<longrightarrow> status epd' \<noteq> EPD_OK)"
    by blast
qed

theorem begin_resets_status_witness:
  "status demo_epd = EPD_DC_FAILED
   \<and> busy_for 2 (gpio_in demo_begin_ok)
   \<and> (\<exists>w' rest. EPD_begin demo_epd demo_begin_ok = Some (demo_epd\<lparr>status := EPD_OK\<rparr>, w') \<and>
         trace w' = Ev_status EPD_OK # spec_power_up demo_epd @ rest \<and>
         status_writes (trace w') = [EPD_OK])
   \<and> ready demo_epd (snd demo_created) \<and> configured demo_epd \<and> timer_lapsed (snd demo_created)
   \<and> (\<exists>w'. EPD_clear demo_epd (snd demo_created) = Some (Inr w') \<and> status_writes (trace w') = [])
   \<and> (\<exists>w'. EPD_image demo_epd 100000 (snd demo_created) = Some (Inr w') \<and> status_writes (trace w') = [])
   \<and> (\<exists>epd' w'. EPD_end demo_epd (snd demo_created) = Inr (epd', w') \<and> status epd' = EPD_DC_FAILED)"
proof -
  have s: "status demo_epd = EPD_DC_FAILED"
    by (simp add: demo_epd_def demo_created_def EPD_create_def demo_world_def malloc_def Let_def
          EPD_set_temperature_def demo_struct_def)
  have tr: "trace demo_begin_ok = []"
    by (simp add: demo_begin_ok_def demo_fields)
  note t = begin_resets_status[where epd = demo_epd and w = demo_begin_ok and k = 2 and s = EPD_OK
      and t = 25 and img = 100000]
  from t demo_begin_inputs(3,5,7)
  have ok: "spec_begin_status (spi_in demo_begin_ok) = EPD_OK" by blast
  from t demo_begin_inputs(1)
  obtain w' where w': "EPD_begin demo_epd demo_begin_ok =
      Some (demo_epd\<lparr>status := spec_begin_status (spi_in demo_begin_ok)\<rparr>, w')"
    by blast
  with t obtain rest where rest:
    "trace w' = trace demo_begin_ok @ Ev_status EPD_OK # spec_power_up demo_epd @ rest"
    "status_writes rest =
       (if spec_begin_status (spi_in demo_begin_ok) = EPD_OK then []
        else [spec_begin_status (spi_in demo_begin_ok)])"
    by blast
  have a: "\<exists>w' rest. EPD_begin demo_epd demo_begin_ok = Some (demo_epd\<lparr>status := EPD_OK\<rparr>, w') \<and>
         trace w' = Ev_status EPD_OK # spec_power_up demo_epd @ rest \<and>
         status_writes (trace w') = [EPD_OK]"
    using w' rest by (intro exI[of _ w'] exI[of _ rest]) (simp add: ok tr)
  note u = begin_resets_status[where epd = demo_epd and w = "snd demo_created" and img = 100000
      and k = 0 and s = EPD_OK and t = 25]
  from u demo_ready demo_configured demo_timer_lapsed
  obtain wc wi where c: "EPD_clear demo_epd (snd demo_created) = Some (Inr wc)"
    and i: "EPD_image demo_epd 100000 (snd demo_created) = Some (Inr wi)"
    by blast
  from u c have cw: "status_writes (trace wc) = status_writes (trace (snd demo_created))" by blast
  from u i have iw: "status_writes (trace wi) = status_writes (trace (snd demo_created))" by blast
  from u demo_ready
  obtain epd' we where e: "EPD_end demo_epd (snd demo_created) = Inr (epd', we)"
    by blast
  from u e have "epd' = demo_epd \<or> epd' = demo_epd\<lparr>status := EPD_DC_FAILED\<rparr>" by blast
  with s have es: "status epd' = EPD_DC_FAILED" by auto
  from c cw have b: "\<exists>w'. EPD_clear demo_epd (snd demo_created) = Some (Inr w') \<and> status_writes (trace w') = []"
    by (simp add: demo_fields)
  from i iw have d: "\<exists>w'. EPD_image demo_epd 100000 (snd demo_created) = Some (Inr w') \<and> status_writes (trace w') = []"
    by (simp add: demo_fields)
  from e es have f: "\<exists>epd' w'. EPD_end demo_epd (snd demo_created) = Inr (epd', w') \<and> status epd' = EPD_DC_FAILED"
    by blast
  from s demo_begin_inputs(1) a demo_ready demo_configured demo_timer_lapsed b d f
  show ?thesis by blast
qed

end
